(* ===== verification/Prelude.thy ===== *)
theory Prelude
  imports Main "HOL-Library.Word" "HOL-Library.Multiset"
    "HOL-Library.List_Lexorder" "HOL-Library.Char_ord"
begin

text \<open>
  Shared vocabulary of the development: the machine integer types of the C++ code, the
  errors that end a C++ call without a result, sequencing of fallible calls, decimal
  printing (\<open>std::to_string\<close>), and generic lemmas that several components use.
\<close>

section \<open>Types and collections of rules\<close>

type_synonym u8 = "8 word"
type_synonym u32 = "32 word"
type_synonym u64 = "64 word"
type_synonym i32 = "32 word"

named_theorems frame_simps \<open>fields an operation leaves alone\<close>
named_theorems inv_intros \<open>operations that keep a component's invariant\<close>

section \<open>Errors and sequencing\<close>

text \<open>
  A C++ call that does not return normally: \<open>std::bitset\<close> positions out of range throw
  \<open>std::out_of_range\<close>; a dereferenced null pointer and a read of freed memory are undefined
  behaviour and have no result in the model; jsoncpp throws on an access that does not fit the
  type of the value; a loop that does not end is \<open>NoReturn\<close>.
\<close>

datatype cxx_error = OutOfRange | NullPointer | UseAfterFree | InvalidArgument | JsonTypeError | NoReturn

type_synonym 'a res = "cxx_error + 'a"

fun res_bind :: "'a res \<Rightarrow> ('a \<Rightarrow> 'b res) \<Rightarrow> 'b res" where
  "res_bind (Inl e) f = Inl e"
| "res_bind (Inr x) f = f x"

definition returned :: "'a option \<Rightarrow> 'a res" where
  "returned r = (case r of Some x \<Rightarrow> Inr x | None \<Rightarrow> Inl NoReturn)"

lemma returned_Some [simp]: "returned (Some x) = Inr x"
  by (simp add: returned_def)

lemma res_bind_Inr_iff:
  "res_bind r f = Inr y \<longleftrightarrow> (\<exists>x. r = Inr x \<and> f x = Inr y)"
  by (cases r) auto

lemma res_bind_cong [fundef_cong]:
  "r = r' \<Longrightarrow> (\<And>x. r' = Inr x \<Longrightarrow> f x = g x) \<Longrightarrow> res_bind r f = res_bind r' g"
  by (cases r') auto

section \<open>Decimal printing\<close>

text \<open>\<open>std::to_string\<close> of an unsigned value: its decimal digits, no leading zero.\<close>

definition digit_char :: "nat \<Rightarrow> char" where
  "digit_char d = char_of (48 + d)"

fun string_of_nat :: "nat \<Rightarrow> string" where
  "string_of_nat n =
     (if n < 10 then [digit_char n]
      else string_of_nat (n div 10) @ [digit_char (n mod 10)])"

declare string_of_nat.simps [simp del]

definition string_of_u32 :: "u32 \<Rightarrow> string" where
  "string_of_u32 w = string_of_nat (unat w)"

definition string_of_u64 :: "u64 \<Rightarrow> string" where
  "string_of_u64 w = string_of_nat (unat w)"

definition string_of_int :: "int \<Rightarrow> string" where
  "string_of_int i = (if i < 0 then CHR ''-'' # string_of_nat (nat (- i)) else string_of_nat (nat i))"

definition string_of_bool :: "bool \<Rightarrow> string" where
  "string_of_bool b = (if b then ''1'' else ''0'')"

text \<open>Reading decimal digits back; used by the round trips.\<close>

definition digit_val :: "char \<Rightarrow> nat" where
  "digit_val c = of_char c - 48"

definition is_digit :: "char \<Rightarrow> bool" where
  "is_digit c \<longleftrightarrow> 48 \<le> (of_char c :: nat) \<and> (of_char c :: nat) \<le> 57"

definition digits_val :: "string \<Rightarrow> nat" where
  "digits_val s = fold (\<lambda>c a. a * 10 + digit_val c) s 0"

lemma of_char_digit_char [simp]: "d < 10 \<Longrightarrow> (of_char (digit_char d) :: nat) = 48 + d"
  by (simp add: digit_char_def)

lemma digit_val_char [simp]: "d < 10 \<Longrightarrow> digit_val (digit_char d) = d"
  by (simp add: digit_val_def)

lemma is_digit_char [simp]: "d < 10 \<Longrightarrow> is_digit (digit_char d)"
  by (simp add: is_digit_def)

lemma digits_val_append: "digits_val (s @ [c]) = digits_val s * 10 + digit_val c"
  by (simp add: digits_val_def)

lemma digits_val_string_of_nat [simp]: "digits_val (string_of_nat n) = n"
proof (induction n rule: string_of_nat.induct)
  case (1 n)
  show ?case
  proof (cases "n < 10")
    case True
    then show ?thesis by (simp add: string_of_nat.simps [of n] digits_val_def)
  next
    case False
    then have "digits_val (string_of_nat n) = (n div 10) * 10 + n mod 10"
      using "1.IH" by (simp add: string_of_nat.simps [of n] digits_val_append)
    then show ?thesis by simp
  qed
qed

lemma string_of_nat_digits: "c \<in> set (string_of_nat n) \<Longrightarrow> is_digit c"
proof (induction n rule: string_of_nat.induct)
  case (1 n)
  then show ?case
    by (cases "n < 10") (auto simp: string_of_nat.simps [of n])
qed

lemma string_of_nat_nonempty [simp]: "string_of_nat n \<noteq> []"
  by (subst string_of_nat.simps) simp

lemma string_of_nat_inj [simp]: "string_of_nat m = string_of_nat n \<longleftrightarrow> m = n"
  by (metis digits_val_string_of_nat)

lemma string_of_u32_inj [simp]: "string_of_u32 v = string_of_u32 w \<longleftrightarrow> v = w"
  by (simp add: string_of_u32_def word_unat_eq_iff)

section \<open>Size arithmetic\<close>

text \<open>\<open>size_t\<close> values are natural numbers; the subtraction wraps at 64 bits as in C++.\<close>

definition size_sub :: "nat \<Rightarrow> nat \<Rightarrow> nat" where
  "size_sub a b = (a + 2 ^ 64 - b) mod 2 ^ 64"

lemma size_sub_exact [simp]: "b \<le> a \<Longrightarrow> a < 2 ^ 64 \<Longrightarrow> size_sub a b = a - b"
proof -
  assume "b \<le> a" and "a < 2 ^ 64"
  then have "size_sub a b = ((a - b) + 2 ^ 64) mod 2 ^ 64" by (simp add: size_sub_def)
  also have "\<dots> = a - b" using \<open>a < 2 ^ 64\<close> by (subst mod_add_self2) (rule mod_less, simp)
  finally show ?thesis .
qed

section \<open>Lists and words\<close>

lemma unat_Suc_word: "unat (w :: 'a::len word) + 1 < 2 ^ LENGTH('a) \<Longrightarrow> unat (w + 1) = Suc (unat w)"
  by (simp add: unat_word_ariths)

lemma unat_pred_word: "w \<noteq> (0 :: 'a::len word) \<Longrightarrow> unat (w - 1) = unat w - 1"
  by (simp add: unat_minus_one)

lemma unat_of_nat32 [simp]: "n < 2 ^ 32 \<Longrightarrow> unat (of_nat n :: u32) = n"
  by (simp add: unat_of_nat take_bit_eq_mod)

lemma of_nat32_eq_0: "n < 2 ^ 32 \<Longrightarrow> (of_nat n :: u32) = 0 \<longleftrightarrow> n = 0"
  by (metis unat_0 unat_eq_zero unat_of_nat32 of_nat_0)

lemma length_filter_update_True:
  "i < length bs \<Longrightarrow> \<not> bs ! i \<Longrightarrow>
   length (filter id (bs[i := True])) = Suc (length (filter id bs))"
proof (induction bs arbitrary: i)
  case (Cons b bs)
  then show ?case by (cases i) auto
qed simp

lemma length_filter_update_False:
  "i < length bs \<Longrightarrow>
   length (filter id (bs[i := False])) = length (filter id bs) - (if bs ! i then 1 else 0)"
proof (induction bs arbitrary: i)
  case (Cons b bs)
  show ?case
  proof (cases i)
    case 0
    then show ?thesis by simp
  next
    case (Suc j)
    have "bs ! j \<Longrightarrow> length (filter id bs) > 0"
      using Cons.prems Suc by (metis (full_types) filter_empty_conv id_apply length_greater_0_conv
          nth_mem Suc_less_eq length_Cons)
    with Suc Cons show ?thesis by (auto simp: id_def)
  qed
qed simp

end
