(* ===== verification/CppString.thy ===== *)
theory CppString
  imports Prelude
begin

text \<open>
  The string operations of the C and C++ libraries that the program calls, on strings as
  character lists: \<open>find\<close>, \<open>substr\<close>, \<open>erase\<close>, \<open>isspace\<close>, \<open>tolower\<close>, \<open>strtol\<close>, \<open>std::stoi\<close>
  and \<open>atoi\<close>, and the program's own \<open>AgentUtils::SearchNReplaceString\<close> (AgentUtils.cpp).
\<close>

section \<open>Character classes (C locale)\<close>

definition is_space :: "char \<Rightarrow> bool" where
  "is_space c \<longleftrightarrow> (let n = (of_char c :: nat) in n = 32 \<or> (9 \<le> n \<and> n \<le> 13))"

definition is_upper :: "char \<Rightarrow> bool" where
  "is_upper c \<longleftrightarrow> 65 \<le> (of_char c :: nat) \<and> (of_char c :: nat) \<le> 90"

definition to_lower :: "char \<Rightarrow> char" where
  "to_lower c = (if is_upper c then char_of ((of_char c :: nat) + 32) else c)"

definition lower_string :: "string \<Rightarrow> string" where
  "lower_string s = map to_lower s"

lemma to_lower_idem [simp]: "to_lower (to_lower c) = to_lower c"
proof (cases "is_upper c")
  case True
  then have "\<not> is_upper (to_lower c)" by (simp add: is_upper_def to_lower_def)
  then show ?thesis by (simp add: to_lower_def)
qed (simp add: to_lower_def)

lemma lower_string_idem [simp]: "lower_string (lower_string s) = lower_string s"
  by (simp add: lower_string_def)

lemma is_digit_not_space: "is_digit c \<Longrightarrow> \<not> is_space c"
  by (auto simp: is_digit_def is_space_def Let_def)

section \<open>Searching and cutting\<close>

definition is_prefix_of :: "string \<Rightarrow> string \<Rightarrow> bool" where
  "is_prefix_of p s \<longleftrightarrow> take (length p) s = p"

text \<open>\<open>s.find(p)\<close>: the first position at which \<open>p\<close> occurs; \<open>None\<close> is \<open>npos\<close>.\<close>

fun str_find :: "string \<Rightarrow> string \<Rightarrow> nat option" where
  "str_find p [] = (if p = [] then Some 0 else None)"
| "str_find p (c # s) =
     (if is_prefix_of p (c # s) then Some 0 else map_option Suc (str_find p s))"

text \<open>\<open>s.find(p, pos)\<close>.\<close>

definition str_find_from :: "string \<Rightarrow> string \<Rightarrow> nat \<Rightarrow> nat option" where
  "str_find_from p s pos =
     (if length s < pos then None else map_option (\<lambda>i. i + pos) (str_find p (drop pos s)))"

definition substr :: "string \<Rightarrow> nat \<Rightarrow> nat \<Rightarrow> string" where
  "substr s pos n = take n (drop pos s)"

lemma str_find_occurs: "str_find p s = Some i \<Longrightarrow> i \<le> length s \<and> take (length p) (drop i s) = p"
proof (induction s arbitrary: i)
  case (Cons c s)
  then show ?case by (cases i) (auto simp: is_prefix_of_def split: if_splits)
qed (simp split: if_splits)

lemma str_find_fits: "str_find p s = Some i \<Longrightarrow> i + length p \<le> length s"
  using str_find_occurs [of p s i] by (metis add.commute drop_eq_Nil le_diff_conv2 length_drop
      length_take min.absorb_iff2 min.commute)

lemma str_find_first: "str_find p s = Some i \<Longrightarrow> j < i \<Longrightarrow> \<not> is_prefix_of p (drop j s)"
proof (induction s arbitrary: i j)
  case (Cons c s)
  then show ?case by (cases j) (auto split: if_splits)
qed (simp split: if_splits)

lemma str_find_char_split:
  "str_find [c] s = Some i \<Longrightarrow> s = take i s @ c # drop (Suc i) s \<and> c \<notin> set (take i s)"
proof (induction s arbitrary: i)
  case (Cons d s)
  then show ?case by (auto simp: is_prefix_of_def split: if_splits)
qed simp

lemma str_find_char_None: "str_find [c] s = None \<longleftrightarrow> c \<notin> set s"
  by (induction s) (auto simp: is_prefix_of_def)

lemma str_find_char_append:
  "c \<notin> set xs \<Longrightarrow> str_find [c] (xs @ c # ys) = Some (length xs)"
  by (induction xs) (auto simp: is_prefix_of_def)

section \<open>SearchNReplaceString\<close>

text \<open>
  The loop of \<open>AgentUtils::SearchNReplaceString\<close>: find from \<open>pos\<close>, replace, continue behind the
  replacement. With an empty search string it does not return; \<open>None\<close> stands for that.
\<close>

partial_function (option) search_replace_loop ::
    "string \<Rightarrow> string \<Rightarrow> string \<Rightarrow> nat \<Rightarrow> string option" where
  "search_replace_loop search repl subject pos =
     (case str_find_from search subject pos of
        None \<Rightarrow> Some subject
      | Some p \<Rightarrow>
          search_replace_loop search repl
            (take p subject @ repl @ drop (p + length search) subject) (p + length repl))"

definition SearchNReplaceString :: "string \<Rightarrow> string \<Rightarrow> string \<Rightarrow> string option" where
  "SearchNReplaceString subject search repl = search_replace_loop search repl subject 0"

text \<open>What the loop computes when the search string is not empty.\<close>

function replace_all :: "string \<Rightarrow> string \<Rightarrow> string \<Rightarrow> string" where
  "replace_all search repl s =
     (if search = [] then s
      else case str_find search s of
        None \<Rightarrow> s
      | Some i \<Rightarrow> take i s @ repl @ replace_all search repl (drop (i + length search) s))"
  by pat_completeness auto
termination
proof (relation "measure (\<lambda>(search, repl, s). length s)", goal_cases)
  case (2 search repl s i)
  then show ?case using str_find_fits [of search s i] by (cases search) auto
qed simp

declare replace_all.simps [simp del]

lemma search_replace_loop_eq:
  "search \<noteq> [] \<Longrightarrow> pos = length done_part \<Longrightarrow>
   search_replace_loop search repl (done_part @ rest) pos =
     Some (done_part @ replace_all search repl rest)"
proof (induction "length rest" arbitrary: done_part rest pos rule: less_induct)
  case less
  show ?case
  proof (cases "str_find search rest")
    case None
    with less.prems show ?thesis
      by (simp add: search_replace_loop.simps [of search repl] str_find_from_def
          replace_all.simps [of search repl rest])
  next
    case (Some i)
    let ?rest' = "drop (i + length search) rest"
    have fits: "i + length search \<le> length rest" by (rule str_find_fits [OF Some])
    have shorter: "length ?rest' < length rest" using fits less.prems(1) by (cases search) auto
    have "search_replace_loop search repl (done_part @ rest) pos =
        search_replace_loop search repl ((done_part @ take i rest @ repl) @ ?rest')
          (i + pos + length repl)"
      using Some less.prems fits
      by (simp add: search_replace_loop.simps [of search repl "done_part @ rest"]
          str_find_from_def add.commute)
    also have "\<dots> = Some ((done_part @ take i rest @ repl) @ replace_all search repl ?rest')"
      by (rule less.hyps [OF shorter less.prems(1)]) (use less.prems fits in simp)
    finally show ?thesis
      using Some less.prems by (simp add: replace_all.simps [of search repl rest])
  qed
qed

lemma SearchNReplaceString_total:
  "search \<noteq> [] \<Longrightarrow> SearchNReplaceString subject search repl = Some (replace_all search repl subject)"
  using search_replace_loop_eq [of search 0 "[]" repl subject]
  by (simp add: SearchNReplaceString_def)

text \<open>With an empty search string the loop finds it again at every position and never returns.\<close>

lemma search_replace_loop_empty:
  assumes "search_replace_loop search repl subject pos = Some r" and "search = []"
  shows "length subject < pos"
proof -
  have found: "str_find_from [] s p = Some p" if "\<not> length s < p" for s p
  proof -
    have "str_find [] (drop p s) = Some 0" by (cases "drop p s") (simp_all add: is_prefix_of_def)
    then show ?thesis using that by (simp add: str_find_from_def)
  qed
  have "search = [] \<longrightarrow> length subject < pos"
  proof (rule search_replace_loop.raw_induct
      [where P = "\<lambda>search repl subject pos r. search = [] \<longrightarrow> length subject < pos", OF _ assms(1)], intro impI)
    fix rec :: "string \<Rightarrow> string \<Rightarrow> string \<Rightarrow> nat \<Rightarrow> string option" and search repl subject pos r
    assume IH: "\<And>search repl subject pos r. rec search repl subject pos = Some r \<Longrightarrow>
        search = [] \<longrightarrow> length subject < pos"
      and body: "(case str_find_from search subject pos of None \<Rightarrow> Some subject
        | Some p \<Rightarrow> rec search repl (take p subject @ repl @ drop (p + length search) subject) (p + length repl)) = Some r"
      and "search = []"
    show "length subject < pos"
    proof (rule ccontr)
      assume "\<not> length subject < pos"
      moreover from this have "rec [] repl (take pos subject @ repl @ drop pos subject) (pos + length repl) = Some r"
        using body found \<open>search = []\<close> by simp
      ultimately show False using IH by fastforce
    qed
  qed
  then show ?thesis using assms(2) by simp
qed

lemma SearchNReplaceString_returns:
  "SearchNReplaceString subject search repl =
     (if search = [] then None else Some (replace_all search repl subject))"
  using SearchNReplaceString_total [of search subject repl] search_replace_loop_empty [of search repl subject 0]
  by (cases "SearchNReplaceString subject search repl") (auto simp: SearchNReplaceString_def)

lemma replace_all_none: "str_find search s = None \<Longrightarrow> replace_all search repl s = s"
  by (simp add: replace_all.simps [of search repl s])

text \<open>Searching behind a text that does not have the first character of the search string.\<close>

lemma str_find_skip:
  "c \<notin> set xs \<Longrightarrow> str_find (c # t) (xs @ ys) = map_option (\<lambda>i. i + length xs) (str_find (c # t) ys)"
proof (induction xs)
  case Nil
  then show ?case by (simp add: option.map_ident)
next
  case (Cons x xs)
  then have "\<not> is_prefix_of (c # t) (x # (xs @ ys))" by (auto simp: is_prefix_of_def)
  then show ?case using Cons by (auto simp: option.map_comp comp_def)
qed

lemma replace_all_prefix: "p \<noteq> [] \<Longrightarrow> replace_all p repl (p @ s) = repl @ replace_all p repl s"
proof -
  assume p: "p \<noteq> []"
  then have "str_find p (p @ s) = Some 0"
    by (cases p) (auto simp: is_prefix_of_def)
  then show ?thesis using p by (simp add: replace_all.simps [of p repl "p @ s"])
qed

lemma replace_all_suffix:
  "c \<notin> set xs \<Longrightarrow> replace_all (c # t) repl (xs @ (c # t)) = xs @ repl"
proof -
  assume "c \<notin> set xs"
  moreover have "str_find (c # t) (c # t) = Some 0" by (simp add: is_prefix_of_def)
  ultimately have "str_find (c # t) (xs @ (c # t)) = Some (length xs)" by (simp add: str_find_skip)
  then show ?thesis
    by (simp add: replace_all.simps [of "c # t" repl "xs @ (c # t)"] replace_all.simps [of "c # t" repl "[]"])
qed

section \<open>Reading integers\<close>

text \<open>
  \<open>strtol\<close>: leading white space, an optional sign, for base 0 the prefixes \<open>0x\<close> and \<open>0\<close>, then
  digits of the base. The result is the value, saturated to 64 bits, the number of characters
  consumed (0 when there is no digit) and whether the value was out of range.
\<close>

definition digit_of_base :: "nat \<Rightarrow> char \<Rightarrow> nat option" where
  "digit_of_base b c =
     (let n = (of_char c :: nat);
          d = (if 48 \<le> n \<and> n \<le> 57 then n - 48
               else if 97 \<le> n \<and> n \<le> 122 then n - 87
               else if 65 \<le> n \<and> n \<le> 90 then n - 55 else 36)
      in if d < b then Some d else None)"

fun read_digits :: "nat \<Rightarrow> nat \<Rightarrow> string \<Rightarrow> nat \<times> nat" where
  "read_digits b acc [] = (acc, 0)"
| "read_digits b acc (c # s) =
     (case digit_of_base b c of
        None \<Rightarrow> (acc, 0)
      | Some d \<Rightarrow> (case read_digits b (acc * b + d) s of (v, n) \<Rightarrow> (v, Suc n)))"

definition saturate64 :: "int \<Rightarrow> int" where
  "saturate64 v = max (- (2 ^ 63)) (min (2 ^ 63 - 1) v)"

definition base_prefix :: "nat \<Rightarrow> string \<Rightarrow> nat \<times> nat" where
  "base_prefix base s =
     (if base \<noteq> 0 then (base, 0)
      else case s of
        c # x # h # _ \<Rightarrow>
          if c = CHR ''0'' \<and> (x = CHR ''x'' \<or> x = CHR ''X'') \<and> digit_of_base 16 h \<noteq> None then (16, 2)
          else if c = CHR ''0'' then (8, 0) else (10, 0)
      | c # _ \<Rightarrow> if c = CHR ''0'' then (8, 0) else (10, 0)
      | [] \<Rightarrow> (10, 0))"

record strtol_result =
  st_value :: int
  st_consumed :: nat
  st_erange :: bool

definition strtol :: "nat \<Rightarrow> string \<Rightarrow> strtol_result" where
  "strtol base s =
     (let ws = length (takeWhile is_space s);
          s1 = drop ws s;
          neg = (case s1 of c # _ \<Rightarrow> c = CHR ''-'' | [] \<Rightarrow> False);
          sgn = (case s1 of c # _ \<Rightarrow> if c = CHR ''-'' \<or> c = CHR ''+'' then 1 else 0 | [] \<Rightarrow> (0::nat));
          s2 = drop sgn s1;
          (b, pre) = base_prefix base s2;
          (v, n) = read_digits b 0 (drop pre s2)
      in if n = 0 then \<lparr>st_value = 0, st_consumed = 0, st_erange = False\<rparr>
         else let v' = (if neg then - int v else int v)
              in \<lparr>st_value = saturate64 v', st_consumed = ws + sgn + pre + n,
                  st_erange = (saturate64 v' \<noteq> v')\<rparr>)"

text \<open>\<open>std::stoi\<close> throws when nothing is read or the value does not fit an \<open>int\<close>.\<close>

definition stoi :: "string \<Rightarrow> int res" where
  "stoi s =
     (let r = strtol 10 s
      in if st_consumed r = 0 then Inl InvalidArgument
         else if st_erange r \<or> st_value r < - (2 ^ 31) \<or> 2 ^ 31 \<le> st_value r then Inl OutOfRange
         else Inr (st_value r))"

text \<open>\<open>atoi\<close>: \<open>(int) strtol(s, NULL, 10)\<close>; 0 when nothing is read.\<close>

definition atoi :: "string \<Rightarrow> i32" where
  "atoi s = word_of_int (st_value (strtol 10 s))"

lemma digit_of_base_digit: "is_digit c \<Longrightarrow> digit_of_base 10 c = Some (digit_val c)"
  by (auto simp: digit_of_base_def is_digit_def digit_val_def Let_def)

lemma read_digits_10:
  "(\<forall>c \<in> set s. is_digit c) \<Longrightarrow>
   read_digits 10 acc s = (fold (\<lambda>c a. a * 10 + digit_val c) s acc, length s)"
  by (induction s arbitrary: acc) (auto simp: digit_of_base_digit)

lemma strtol_10_digits:
  assumes "s \<noteq> []" and "\<forall>c \<in> set s. is_digit c"
  shows "strtol 10 s = \<lparr>st_value = saturate64 (int (digits_val s)), st_consumed = length s,
           st_erange = (saturate64 (int (digits_val s)) \<noteq> int (digits_val s))\<rparr>"
proof -
  obtain c t where s: "s = c # t" using assms(1) by (cases s) auto
  have c: "is_digit c" using assms(2) s by simp
  then have "\<not> is_space c" and "c \<noteq> CHR ''-''" and "c \<noteq> CHR ''+''"
    by (auto simp: is_digit_not_space is_digit_def)
  moreover have "read_digits 10 0 s = (digits_val s, length s)"
    by (simp add: read_digits_10 [OF assms(2)] digits_val_def)
  ultimately show ?thesis
    using s by (simp add: strtol_def base_prefix_def Let_def)
qed

lemma strtol_string_of_nat:
  "n < 2 ^ 63 \<Longrightarrow> strtol 10 (string_of_nat n) =
     \<lparr>st_value = int n, st_consumed = length (string_of_nat n), st_erange = False\<rparr>"
proof -
  assume n: "n < 2 ^ 63"
  have "saturate64 (int n) = int n" using n by (simp add: saturate64_def min_def max_def)
  then show ?thesis
    by (simp add: strtol_10_digits string_of_nat_digits)
qed

lemma stoi_string_of_nat: "n < 2 ^ 31 \<Longrightarrow> stoi (string_of_nat n) = Inr (int n)"
  by (simp add: stoi_def strtol_string_of_nat Let_def)

lemma atoi_string_of_nat: "n < 2 ^ 63 \<Longrightarrow> atoi (string_of_nat n) = word_of_nat n"
  by (simp add: atoi_def strtol_string_of_nat)

end
