(* ===== verification/CmdOptions.thy ===== *)
theory CmdOptions
  imports CppString
begin

text \<open>
  The command line of the server (AgentServerCmdOptions.hpp, AgentServerCmdOptions.cpp). The
  scan itself is \<open>getopt\<close> of the C library, modelled here with the behaviour the program uses:
  clusters of short options, arguments in the same or in the next word, operands moved behind
  the options (unless POSIXLY_CORRECT is set), and the word \<open>--\<close>.
\<close>

section \<open>The scan\<close>

text \<open>\<open>BadOpt c\<close> stands for the answer \<open>'?'\<close> with \<open>optopt = c\<close>.\<close>

datatype getopt_event = Opt char "string option" | BadOpt char

text \<open>Whether a character is an option, and then whether it takes an argument.\<close>

fun opt_kind :: "string \<Rightarrow> char \<Rightarrow> bool option" where
  "opt_kind [] c = None"
| "opt_kind (x # os) c =
     (if c = CHR '':'' \<or> c = CHR '';'' then None
      else if x = c then Some (case os of [] \<Rightarrow> False | y # _ \<Rightarrow> y = CHR '':'')
      else opt_kind os c)"

text \<open>One word behind its dash: the events and the words left.\<close>

fun getopt_word :: "string \<Rightarrow> string \<Rightarrow> string list \<Rightarrow> getopt_event list \<times> string list" where
  "getopt_word os [] rest = ([], rest)"
| "getopt_word os (c # cs) rest =
     (case opt_kind os c of
        None \<Rightarrow> (case getopt_word os cs rest of (es, r) \<Rightarrow> (BadOpt c # es, r))
      | Some False \<Rightarrow> (case getopt_word os cs rest of (es, r) \<Rightarrow> (Opt c None # es, r))
      | Some True \<Rightarrow>
          if cs \<noteq> [] then ([Opt c (Some cs)], rest)
          else (case rest of [] \<Rightarrow> ([BadOpt c], []) | a # r \<Rightarrow> ([Opt c (Some a)], r)))"

lemma getopt_word_shorter: "length (snd (getopt_word os cs rest)) \<le> length rest"
  by (induction os cs rest rule: getopt_word.induct)
    (auto split: option.split bool.split list.split prod.split simp: case_prod_beta)

text \<open>All words: the events in order, and the operands.\<close>

function getopt :: "bool \<Rightarrow> string \<Rightarrow> string list \<Rightarrow> getopt_event list \<times> string list" where
  "getopt posixly os [] = ([], [])"
| "getopt posixly os (a # rest) =
     (if a = ''--'' then ([], rest)
      else if 2 \<le> length a \<and> hd a = CHR ''-'' then
        let (es, r) = getopt_word os (tl a) rest;
            (es', operands) = getopt posixly os r
        in (es @ es', operands)
      else if posixly then ([], a # rest)
      else let (es, operands) = getopt posixly os rest in (es, a # operands))"
  by pat_completeness auto
termination
proof (relation "measure (\<lambda>(posixly, os, args). length args)", goal_cases)
  case (2 posixly os a rest w es r)
  then show ?case using getopt_word_shorter [of os "tl a" rest] by (auto dest: sym)
qed auto

section \<open>The options\<close>

text \<open>A null \<open>char *\<close> is \<open>None\<close>.\<close>

record cmd_options =
  opt_logfile :: "string option"
  opt_file_mode :: bool
  opt_system_file_name :: "string option"
  opt_null_mode :: bool
  opt_proc_mode :: bool
  opt_ini_config_file :: "string option"

definition new_cmd_options :: cmd_options where
  "new_cmd_options = \<lparr>opt_logfile = None, opt_file_mode = False, opt_system_file_name = None,
     opt_null_mode = False, opt_proc_mode = False, opt_ini_config_file = None\<rparr>"

definition setLogFile :: "string \<Rightarrow> cmd_options \<Rightarrow> cmd_options" where
  "setLogFile logfile o' = o'\<lparr>opt_logfile := Some logfile\<rparr>"

definition setFileMode :: "bool \<Rightarrow> cmd_options \<Rightarrow> cmd_options" where
  "setFileMode mode o' = o'\<lparr>opt_file_mode := mode\<rparr>"

definition setFileName :: "string \<Rightarrow> cmd_options \<Rightarrow> cmd_options" where
  "setFileName file o' = o'\<lparr>opt_system_file_name := Some file\<rparr>"

definition setNullMode :: "bool \<Rightarrow> cmd_options \<Rightarrow> cmd_options" where
  "setNullMode mode o' = o'\<lparr>opt_null_mode := mode\<rparr>"

definition setProcMode :: "bool \<Rightarrow> cmd_options \<Rightarrow> cmd_options" where
  "setProcMode mode o' = o'\<lparr>opt_proc_mode := mode\<rparr>"

definition setINIConfigFile :: "string \<Rightarrow> cmd_options \<Rightarrow> cmd_options" where
  "setINIConfigFile ini_config_file o' = o'\<lparr>opt_ini_config_file := Some ini_config_file\<rparr>"

definition usage_lines :: "string list" where
  "usage_lines =
     [''Usage: agent_server [-u/-h] [-n] [-p] [-f] <filename> [-l] <logfile> [-c] <ini config file>'',
      '' -u/-h  : usage'',
      ''    -n  : null mode'',
      ''    -f  : file mode'',
      ''    -p  : proc mode'',
      ''    -l  : log file'',
      ''    -c  : ini config file'']"

definition is_print :: "char \<Rightarrow> bool" where
  "is_print c \<longleftrightarrow> 32 \<le> (of_char c :: nat) \<and> (of_char c :: nat) < 127"

text \<open>What is printed for \<open>'?'\<close>: \<open>optopt\<close> is an \<open>int\<close>, negative for a byte above 127.\<close>

definition bad_option_line :: "char \<Rightarrow> string" where
  "bad_option_line c =
     (if c = CHR ''c'' \<or> c = CHR ''l'' \<or> c = CHR ''f'' then ''Option -'' @ [c] @ '' requires an argument.''
      else if is_print c then ''Unknown Option''
      else ''Unknown option character `'' @ [CHR 0x5C] @ ''x%x'' @ [CHR 0x27] @ ''.'' @
        string_of_int (if (of_char c :: int) < 128 then of_char c else of_char c - 256))"

text \<open>The loop of \<open>parseArgs\<close> on the answers of \<open>getopt\<close>; \<open>None\<close> when it runs to the end.\<close>

fun option_loop :: "getopt_event list \<Rightarrow> cmd_options \<Rightarrow> string list option \<times> cmd_options" where
  "option_loop [] o' = (None, o')"
| "option_loop (BadOpt c # es) o' = (Some [bad_option_line c], o')"
| "option_loop (Opt c arg # es) o' =
     (if c = CHR ''u'' \<or> c = CHR ''h'' then (Some usage_lines, o')
      else option_loop es
        (case arg of
           None \<Rightarrow> if c = CHR ''n'' then setNullMode True o'
                  else if c = CHR ''p'' then setProcMode True o' else o'
         | Some optarg \<Rightarrow>
             if c = CHR ''f'' then setFileMode True (setFileName optarg o')
             else if c = CHR ''l'' then setLogFile optarg o'
             else if c = CHR ''c'' then setINIConfigFile optarg o' else o'))"

text \<open>
  \<open>parseArgs\<close> on the words behind the program's name: the result, the options and the lines
  printed. \<open>resetArgs\<close> only restarts the scan of a later call.
\<close>

definition parseArgs :: "bool \<Rightarrow> string list \<Rightarrow> cmd_options \<Rightarrow> bool \<times> cmd_options \<times> string list" where
  "parseArgs posixly args o' =
     (let (es, operands) = getopt posixly ''uhnpf:l:c:'' args
      in case option_loop es o' of
           (Some out, o') \<Rightarrow> (False, o', out)
         | (None, o') \<Rightarrow> (operands = [], o', []))"

section \<open>Lemmas\<close>

text \<open>A command line given as a list of options, and what it asks for.\<close>

datatype cmd_arg = NullArg | ProcArg | FileArg string | LogArg string | IniArg string

fun cmd_words :: "cmd_arg \<Rightarrow> string list" where
  "cmd_words NullArg = [''-n'']"
| "cmd_words ProcArg = [''-p'']"
| "cmd_words (FileArg f) = [''-f'', f]"
| "cmd_words (LogArg f) = [''-l'', f]"
| "cmd_words (IniArg f) = [''-c'', f]"

fun cmd_effect :: "cmd_arg \<Rightarrow> cmd_options \<Rightarrow> cmd_options" where
  "cmd_effect NullArg o' = setNullMode True o'"
| "cmd_effect ProcArg o' = setProcMode True o'"
| "cmd_effect (FileArg f) o' = setFileMode True (setFileName f o')"
| "cmd_effect (LogArg f) o' = setLogFile f o'"
| "cmd_effect (IniArg f) o' = setINIConfigFile f o'"

fun cmd_event :: "cmd_arg \<Rightarrow> getopt_event" where
  "cmd_event NullArg = Opt (CHR ''n'') None"
| "cmd_event ProcArg = Opt (CHR ''p'') None"
| "cmd_event (FileArg f) = Opt (CHR ''f'') (Some f)"
| "cmd_event (LogArg f) = Opt (CHR ''l'') (Some f)"
| "cmd_event (IniArg f) = Opt (CHR ''c'') (Some f)"

lemma getopt_words:
  "getopt posixly ''uhnpf:l:c:'' (concat (map cmd_words xs) @ rest) =
     (case getopt posixly ''uhnpf:l:c:'' rest of (es, operands) \<Rightarrow> (map cmd_event xs @ es, operands))"
proof (induction xs)
  case (Cons x xs)
  then show ?case by (cases x) (simp_all add: case_prod_beta)
qed simp

lemma option_loop_events:
  "option_loop (map cmd_event xs @ es) o' = option_loop es (fold cmd_effect xs o')"
proof (induction xs arbitrary: o')
  case (Cons x xs)
  then show ?case by (cases x) simp_all
qed simp

lemma parseArgs_words:
  "parseArgs posixly (concat (map cmd_words xs)) o' = (True, fold cmd_effect xs o', [])"
  using getopt_words [of posixly xs "[]"] option_loop_events [of xs "[]" o']
  by (simp add: parseArgs_def)

text \<open>A word that is no option makes the call fail, after the options around it were taken.\<close>

lemma getopt_operand:
  "w = [] \<or> hd w \<noteq> CHR ''-'' \<Longrightarrow>
   getopt False os (w # rest) = (case getopt False os rest of (es, operands) \<Rightarrow> (es, w # operands))"
  by auto

lemma parseArgs_operand:
  assumes "w = [] \<or> hd w \<noteq> CHR ''-''"
  shows "parseArgs False (concat (map cmd_words xs) @ w # concat (map cmd_words ys)) o' =
    (False, fold cmd_effect ys (fold cmd_effect xs o'), [])"
proof -
  have "getopt False ''uhnpf:l:c:'' (w # concat (map cmd_words ys)) = (map cmd_event ys, [w])"
    using getopt_operand [OF assms] getopt_words [of False ys "[]"] by simp
  then show ?thesis
    using option_loop_events [of xs "map cmd_event ys" o'] option_loop_events [of ys "[]" "fold cmd_effect xs o'"]
    by (simp add: parseArgs_def getopt_words)
qed

end
