(* ===== verification/ServerLog.thy ===== *)
theory ServerLog
  imports CppString
begin

text \<open>
  The logger (AgentServerLog.hpp): a level, a sequence number and the lines written so far.
  The time string of a stamped line comes from the clock when the line is rendered; the state
  keeps what the code decides, the sequence number and the message.
\<close>

section \<open>State\<close>

datatype log_line = RawLine string | StampedLine u64 string

record server_log =
  log_file :: string
  log_sequence :: u64
  log_level :: u8
  log_output :: "log_line list"

definition AGENTSERVER_LOGFILE :: string where
  "AGENTSERVER_LOGFILE = ''agent_server.log''"

text \<open>The two constructors: the default one enables logging, the one with a file name does not.\<close>

definition new_log_default :: server_log where
  "new_log_default =
     \<lparr>log_file = AGENTSERVER_LOGFILE, log_sequence = 0, log_level = 1, log_output = []\<rparr>"

definition new_log :: "string \<Rightarrow> server_log" where
  "new_log file = \<lparr>log_file = file, log_sequence = 0, log_level = 0, log_output = []\<rparr>"

section \<open>Operations\<close>

definition log_write :: "string \<Rightarrow> bool \<Rightarrow> server_log \<Rightarrow> server_log" where
  "log_write message raw l =
     (if log_level l = 0 then l
      else if raw then l\<lparr>log_output := log_output l @ [RawLine message]\<rparr>
      else l\<lparr>log_output := log_output l @ [StampedLine (log_sequence l) message],
             log_sequence := log_sequence l + 1\<rparr>)"

definition logfilter :: "string \<Rightarrow> string \<Rightarrow> server_log \<Rightarrow> server_log" where
  "logfilter message filt l =
     (case str_find filt message of None \<Rightarrow> l | Some _ \<Rightarrow> log_write message False l)"

definition log_enable :: "server_log \<Rightarrow> server_log" where
  "log_enable l = log_write (''Logging enabled --'' @ [CHR 0x0A]) False (l\<lparr>log_level := 1\<rparr>)"

definition log_disable :: "server_log \<Rightarrow> server_log" where
  "log_disable l = (log_write (''Logging disabled --'' @ [CHR 0x0A]) False l)\<lparr>log_level := 0\<rparr>"

text \<open>What a line looks like in the file, given the clock's time string.\<close>

definition render_line :: "string \<Rightarrow> log_line \<Rightarrow> string" where
  "render_line now ln =
     (case ln of
        RawLine m \<Rightarrow> m @ [CHR 0x0A]
      | StampedLine n m \<Rightarrow> now @ ''#'' @ string_of_u64 n @ ''# '' @ m @ [CHR 0x0A])"

section \<open>Lemmas\<close>

fun stamps :: "log_line list \<Rightarrow> u64 list" where
  "stamps [] = []"
| "stamps (RawLine m # ls) = stamps ls"
| "stamps (StampedLine n m # ls) = n # stamps ls"

lemma stamps_append [simp]: "stamps (xs @ ys) = stamps xs @ stamps ys"
  by (induction xs rule: stamps.induct) auto

text \<open>The invariant of a log file: stamped lines carry 0, 1, 2, ... in order.\<close>

definition log_ok :: "server_log \<Rightarrow> bool" where
  "log_ok l \<longleftrightarrow> stamps (log_output l) = map of_nat [0..<length (stamps (log_output l))]
     \<and> log_sequence l = of_nat (length (stamps (log_output l)))"

lemma log_ok_new [simp]: "log_ok (new_log f)" "log_ok new_log_default"
  by (simp_all add: log_ok_def new_log_def new_log_default_def)

lemma log_ok_write [inv_intros]: "log_ok l \<Longrightarrow> log_ok (log_write m raw l)"
  by (auto simp: log_ok_def log_write_def)

lemma log_ok_level [simp]: "log_ok (l\<lparr>log_level := v\<rparr>) = log_ok l"
  by (simp add: log_ok_def)

lemma log_ok_ops [inv_intros]:
  "log_ok l \<Longrightarrow> log_ok (logfilter m f l)"
  "log_ok l \<Longrightarrow> log_ok (log_enable l)"
  "log_ok l \<Longrightarrow> log_ok (log_disable l)"
  by (simp_all add: logfilter_def log_enable_def log_disable_def log_ok_write split: option.split)

lemma log_write_silent: "log_level l = 0 \<Longrightarrow> log_write m raw l = l"
  by (simp add: log_write_def)

lemma log_write_file [frame_simps]:
  "log_file (log_write m raw l) = log_file l"
  "log_level (log_write m raw l) = log_level l"
  by (simp_all add: log_write_def)

end
