(* ===== verification/Messages.thy ===== *)
theory Messages
  imports Prelude
begin

text \<open>
  The protocol buffer messages of the telemetry interface (protos/agent.proto) as records and
  datatypes. Scalar fields have their proto3 default in a cleared message. \<open>int64\<close> and
  \<open>uint64\<close> are both 64-bit words; a \<open>double\<close> is its bit pattern, since the program only copies
  doubles and compares them with zero.
\<close>

type_synonym double_bits = u64

record path_msg =
  p_path :: string
  p_filter :: string
  p_suppress_unchanged :: bool
  p_max_silent_interval :: u32
  p_sample_frequency :: u32

definition path_cleared :: path_msg where
  "path_cleared = \<lparr>p_path = [], p_filter = [], p_suppress_unchanged = False,
     p_max_silent_interval = 0, p_sample_frequency = 0\<rparr>"

text \<open>\<open>ByteSize() != 0\<close>: some field differs from its default.\<close>

definition path_has_bytes :: "path_msg \<Rightarrow> bool" where
  "path_has_bytes p \<longleftrightarrow> p \<noteq> path_cleared"

record additional_config =
  limit_records :: i32
  limit_time_seconds :: i32

definition additional_config_cleared :: additional_config where
  "additional_config_cleared = \<lparr>limit_records = 0, limit_time_seconds = 0\<rparr>"

record subscription_request =
  sr_collectors :: "(string \<times> u32) list"
  sr_path_list :: "path_msg list"
  sr_additional_config :: additional_config

definition subscription_request_cleared :: subscription_request where
  "subscription_request_cleared =
     \<lparr>sr_collectors = [], sr_path_list = [], sr_additional_config = additional_config_cleared\<rparr>"

record subscription_reply =
  rep_subscription_id :: u32
  rep_path_list :: "path_msg list"

definition subscription_reply_cleared :: subscription_reply where
  "subscription_reply_cleared = \<lparr>rep_subscription_id = 0, rep_path_list = []\<rparr>"

datatype kv_value =
    ValueNotSet
  | DoubleValue double_bits
  | IntValue u64
  | UintValue u64
  | SintValue u64
  | BoolValue bool
  | StrValue string
  | BytesValue string

record key_value =
  kv_key :: string
  kv_val :: kv_value

definition kv_str :: "string \<Rightarrow> string \<Rightarrow> key_value" where
  "kv_str k v = \<lparr>kv_key = k, kv_val = StrValue v\<rparr>"

definition kv_int :: "string \<Rightarrow> u64 \<Rightarrow> key_value" where
  "kv_int k v = \<lparr>kv_key = k, kv_val = IntValue v\<rparr>"

definition kv_uint :: "string \<Rightarrow> u64 \<Rightarrow> key_value" where
  "kv_uint k v = \<lparr>kv_key = k, kv_val = UintValue v\<rparr>"

definition kv_double :: "string \<Rightarrow> double_bits \<Rightarrow> key_value" where
  "kv_double k v = \<lparr>kv_key = k, kv_val = DoubleValue v\<rparr>"

definition kv_bool :: "string \<Rightarrow> bool \<Rightarrow> key_value" where
  "kv_bool k v = \<lparr>kv_key = k, kv_val = BoolValue v\<rparr>"

text \<open>The accessors of the \<open>oneof\<close>: the default when another case is set.\<close>

definition kv_str_value :: "key_value \<Rightarrow> string" where
  "kv_str_value kv = (case kv_val kv of StrValue s \<Rightarrow> s | _ \<Rightarrow> [])"

definition kv_int_value :: "key_value \<Rightarrow> u64" where
  "kv_int_value kv = (case kv_val kv of IntValue v \<Rightarrow> v | _ \<Rightarrow> 0)"

definition kv_uint_value :: "key_value \<Rightarrow> u64" where
  "kv_uint_value kv = (case kv_val kv of UintValue v \<Rightarrow> v | _ \<Rightarrow> 0)"

lemmas kv_defs = kv_str_def kv_int_def kv_uint_def kv_double_def kv_bool_def

lemma kv_keys [simp]:
  "kv_key (kv_str k s) = k" "kv_key (kv_int k v) = k" "kv_key (kv_uint k v) = k"
  "kv_key (kv_double k v) = k" "kv_key (kv_bool k b) = k"
  by (simp_all add: kv_defs)

lemma kv_values [simp]:
  "kv_val (kv_str k s) = StrValue s" "kv_val (kv_int k v) = IntValue v"
  "kv_val (kv_uint k v) = UintValue v" "kv_val (kv_double k v) = DoubleValue v"
  "kv_val (kv_bool k b) = BoolValue b"
  by (simp_all add: kv_defs)

record open_config_data =
  oc_system_id :: string
  oc_component_id :: u32
  oc_sub_component_id :: u32
  oc_path :: string
  oc_sequence_number :: u64
  oc_timestamp :: u64
  oc_kv :: "key_value list"

definition open_config_data_cleared :: open_config_data where
  "open_config_data_cleared = \<lparr>oc_system_id = [], oc_component_id = 0, oc_sub_component_id = 0,
     oc_path = [], oc_sequence_number = 0, oc_timestamp = 0, oc_kv = []\<rparr>"

definition add_kvs :: "key_value list \<Rightarrow> open_config_data \<Rightarrow> open_config_data" where
  "add_kvs kvs d = d\<lparr>oc_kv := oc_kv d @ kvs\<rparr>"

datatype verbosity_level = DETAIL | TERSE | BRIEF

datatype return_code = SUCCESS | NO_SUBSCRIPTION_ENTRY | UNKNOWN_ERROR

datatype encoding_type = UNDEFINED | XML | JSON_IETF | PROTO3

record cancel_reply =
  cr_code :: return_code
  cr_code_str :: string

end
