(* ===== verification/AgentSystem.thy ===== *)
theory AgentSystem
  imports ServerLog Messages
begin

text \<open>
  The interface presented by a system on which telemetry is provisioned (AgentSystem.hpp,
  AgentSystem.cpp) and the null backend (AgentSystemNull.cpp). A C++ \<open>AgentSystem\<close> object is a
  record of its base-class fields and the state of its subclass; its virtual methods are a
  record of functions.
\<close>

section \<open>Printing messages (AgentUtils.cpp)\<close>

text \<open>
  The printer of the protocol buffer library is a parameter, a function of its settings and the
  message. The operations of the systems and of the service take \<open>getMessageString\<close> with its
  default argument, the single line form, as their parameter \<open>sp\<close>.
\<close>

record text_printer =
  tp_single_line :: bool

definition getMessageString :: "(text_printer \<Rightarrow> 'm \<Rightarrow> string) \<Rightarrow> 'm \<Rightarrow> bool \<Rightarrow> string" where
  "getMessageString print_to_string message single_line =
     (let printer = \<lparr>tp_single_line = False\<rparr>;
          printer = (if single_line then printer\<lparr>tp_single_line := True\<rparr> else printer)
      in print_to_string printer message)"

section \<open>State and virtual methods\<close>

record 'b agent_system =
  as_log :: server_log
  add_system_count :: u64
  remove_system_count :: u64
  error_system_count :: u64
  as_backend :: 'b

definition new_agent_system :: "server_log \<Rightarrow> 'b \<Rightarrow> 'b agent_system" where
  "new_agent_system l b = \<lparr>as_log = l, add_system_count = 0, remove_system_count = 0,
     error_system_count = 0, as_backend = b\<rparr>"

definition sys_log :: "string \<Rightarrow> 'b agent_system \<Rightarrow> 'b agent_system" where
  "sys_log m s = s\<lparr>as_log := log_write m False (as_log s)\<rparr>"

text \<open>A \<open>SystemId\<close> wraps a \<open>size_t\<close>.\<close>

type_synonym system_id = nat

record 'b system_ops =
  op_systemAdd :: "system_id \<Rightarrow> path_msg \<Rightarrow> 'b agent_system \<Rightarrow> bool \<times> 'b agent_system"
  op_systemRemove :: "system_id \<Rightarrow> path_msg \<Rightarrow> 'b agent_system \<Rightarrow> bool \<times> 'b agent_system"
  op_systemGet :: "system_id \<Rightarrow> 'b agent_system \<Rightarrow> (path_msg option \<times> 'b agent_system) res"
  op_systemClearAll :: "'b agent_system \<Rightarrow> bool \<times> 'b agent_system"

section \<open>The base class\<close>

definition AgentSystem_systemAdd ::
    "(path_msg \<Rightarrow> string) \<Rightarrow> system_id \<Rightarrow> path_msg \<Rightarrow> 'b agent_system \<Rightarrow> bool \<times> 'b agent_system" where
  "AgentSystem_systemAdd sp i p s =
     (let log_str = ''SystemAdd('' @ string_of_nat i @ ''): '';
          s = sys_log (log_str @ sp p) s
      in (True, s\<lparr>add_system_count := add_system_count s + 1\<rparr>))"

definition AgentSystem_systemRemove ::
    "(path_msg \<Rightarrow> string) \<Rightarrow> system_id \<Rightarrow> path_msg \<Rightarrow> 'b agent_system \<Rightarrow> bool \<times> 'b agent_system" where
  "AgentSystem_systemRemove sp i p s =
     (let log_str = ''SystemRemove('' @ string_of_nat i @ ''): '';
          s = sys_log (log_str @ sp p) s
      in (True, s\<lparr>remove_system_count := remove_system_count s + 1\<rparr>))"

definition AgentSystem_systemClearAll :: "'b agent_system \<Rightarrow> bool \<times> 'b agent_system" where
  "AgentSystem_systemClearAll s = (True, sys_log ''SystemClearAll()'' s)"

section \<open>The null backend\<close>

definition AgentSystemNull :: "(path_msg \<Rightarrow> string) \<Rightarrow> unit system_ops" where
  "AgentSystemNull sp =
     \<lparr>op_systemAdd = AgentSystem_systemAdd sp,
      op_systemRemove = AgentSystem_systemRemove sp,
      op_systemGet = (\<lambda>i s. Inr (None, s)),
      op_systemClearAll = AgentSystem_systemClearAll\<rparr>"

lemma sys_log_simps [simp]:
  "add_system_count (sys_log m s) = add_system_count s"
  "remove_system_count (sys_log m s) = remove_system_count s"
  "error_system_count (sys_log m s) = error_system_count s"
  "as_backend (sys_log m s) = as_backend s"
  by (simp_all add: sys_log_def)

section \<open>The contract of a backend\<close>

text \<open>
  Requests outstanding on the system: those added and not yet removed, counted modulo
  \<open>2 ^ 64\<close> as the counters are. A backend's \<open>systemAdd\<close> adds one when it succeeds and changes
  nothing when it fails; a reliable backend never refuses a removal.
\<close>

definition outstanding :: "'b agent_system \<Rightarrow> u64" where
  "outstanding s = add_system_count s - remove_system_count s"

lemma outstanding_log [simp]: "outstanding (sys_log m s) = outstanding s"
  by (simp add: outstanding_def)

locale system_backend =
  fixes sys_ops :: "'b system_ops"
  assumes add_success: "op_systemAdd sys_ops i p s = (True, s') \<Longrightarrow> outstanding s' = outstanding s + 1"
    and add_failure: "op_systemAdd sys_ops i p s = (False, s') \<Longrightarrow> outstanding s' = outstanding s"
    and remove_success: "op_systemRemove sys_ops i p s = (True, s') \<Longrightarrow> outstanding s' = outstanding s - 1"
    and get_same: "op_systemGet sys_ops i s = Inr (q, s') \<Longrightarrow> outstanding s' = outstanding s"
begin

lemma add_then_remove:
  "op_systemAdd sys_ops i p s = (True, s1) \<Longrightarrow> op_systemRemove sys_ops j q s1 = (True, s2) \<Longrightarrow>
   outstanding s2 = outstanding s"
  by (simp add: add_success remove_success)

end

locale reliable_backend = system_backend +
  assumes remove_total: "fst (op_systemRemove sys_ops i p s)"
begin

lemma remove_outstanding:
  "op_systemRemove sys_ops i p s = (r, s') \<Longrightarrow> r \<and> outstanding s' = outstanding s - 1"
  using remove_total [of i p s] remove_success [of i p s s'] by auto

end

interpretation null_system: reliable_backend "AgentSystemNull sp"
  by unfold_locales
    (auto simp: AgentSystemNull_def AgentSystem_systemAdd_def AgentSystem_systemRemove_def
      outstanding_def Let_def)

end
