(* ===== verification/StdMap.thy ===== *)
theory StdMap
  imports Prelude
begin

text \<open>
  \<open>std::map\<close> as an association list in ascending key order. Every container of the program
  that is looked up, assigned, erased or iterated in key order is one of these. The locales
  state the contract that the components rely on; the interpretation at the end discharges
  it for the list implementation.
\<close>

section \<open>The container\<close>

type_synonym ('k, 'v) smap = "('k \<times> 'v) list"

definition smap_ok :: "('k::linorder, 'v) smap \<Rightarrow> bool" where
  "smap_ok m \<longleftrightarrow> sorted_wrt (<) (map fst m)"

text \<open>\<open>find\<close> and \<open>count\<close>.\<close>

definition smap_find :: "('k::linorder, 'v) smap \<Rightarrow> 'k \<Rightarrow> 'v option" where
  "smap_find m k = map_of m k"

text \<open>\<open>m[k] = v\<close>: overwrite in place, or insert at the ordered position.\<close>

fun smap_put :: "'k::linorder \<Rightarrow> 'v \<Rightarrow> ('k, 'v) smap \<Rightarrow> ('k, 'v) smap" where
  "smap_put k v [] = [(k, v)]"
| "smap_put k v ((k', v') # m) =
     (if k < k' then (k, v) # (k', v') # m
      else if k = k' then (k, v) # m
      else (k', v') # smap_put k v m)"

text \<open>\<open>erase(key)\<close>.\<close>

definition smap_erase :: "'k::linorder \<Rightarrow> ('k, 'v) smap \<Rightarrow> ('k, 'v) smap" where
  "smap_erase k m = filter (\<lambda>p. fst p \<noteq> k) m"

text \<open>\<open>begin()\<close> and \<open>upper_bound(key)\<close>: \<open>None\<close> is \<open>end()\<close>.\<close>

definition smap_begin :: "('k, 'v) smap \<Rightarrow> ('k \<times> 'v) option" where
  "smap_begin m = (case m of [] \<Rightarrow> None | p # _ \<Rightarrow> Some p)"

definition smap_upper :: "'k::linorder \<Rightarrow> ('k, 'v) smap \<Rightarrow> ('k \<times> 'v) option" where
  "smap_upper k m = smap_begin (dropWhile (\<lambda>p. fst p \<le> k) m)"

definition smap_keys :: "('k, 'v) smap \<Rightarrow> 'k list" where
  "smap_keys m = map fst m"

section \<open>Laws\<close>

lemma smap_ok_Nil [simp]: "smap_ok []"
  by (simp add: smap_ok_def)

lemma smap_ok_Cons: "smap_ok (p # m) \<longleftrightarrow> (\<forall>q \<in> set m. fst p < fst q) \<and> smap_ok m"
  by (auto simp: smap_ok_def)

lemma set_smap_put: "set (smap_put k v m) \<subseteq> insert (k, v) (set m)"
  by (induction k v m rule: smap_put.induct) auto

lemma smap_ok_put [inv_intros]: "smap_ok m \<Longrightarrow> smap_ok (smap_put k v m)"
proof (induction k v m rule: smap_put.induct)
  case (2 k v k' v' m)
  then show ?case
    using set_smap_put [of k v m] by (fastforce simp: smap_ok_Cons)
qed (simp add: smap_ok_def)

lemma smap_ok_erase [inv_intros]: "smap_ok m \<Longrightarrow> smap_ok (smap_erase k m)"
  by (induction m) (auto simp: smap_ok_Cons smap_erase_def)

lemma smap_find_Nil [simp]: "smap_find [] k = None"
  by (simp add: smap_find_def)

lemma smap_find_put: "smap_ok m \<Longrightarrow> smap_find (smap_put k v m) = (smap_find m)(k \<mapsto> v)"
proof (induction k v m rule: smap_put.induct)
  case (2 k v k' v' m)
  then show ?case by (auto simp: smap_find_def smap_ok_Cons fun_eq_iff)
qed (auto simp: smap_find_def)

lemma smap_find_erase: "smap_find (smap_erase k m) = (smap_find m)(k := None)"
  by (induction m) (auto simp: smap_find_def smap_erase_def fun_eq_iff)

lemma smap_find_set: "smap_ok m \<Longrightarrow> smap_find m k = Some v \<longleftrightarrow> (k, v) \<in> set m"
  by (induction m) (auto simp: smap_find_def smap_ok_Cons)

lemma dom_smap_find: "dom (smap_find m) = set (smap_keys m)"
  by (simp add: smap_find_def [abs_def] smap_keys_def dom_map_of_conv_image_fst)

lemma smap_keys_distinct: "smap_ok m \<Longrightarrow> distinct (smap_keys m)"
  by (induction m) (auto simp: smap_ok_Cons smap_keys_def)

lemma smap_size_card: "smap_ok m \<Longrightarrow> length m = card (dom (smap_find m))"
  using distinct_card [OF smap_keys_distinct, of m] by (simp add: dom_smap_find smap_keys_def)

lemma smap_size_put:
  "smap_ok m \<Longrightarrow> length (smap_put k v m) = (if smap_find m k = None then Suc (length m) else length m)"
proof -
  assume ok: "smap_ok m"
  have "finite (dom (smap_find m))" by (simp add: dom_smap_find)
  with ok show ?thesis
    by (auto simp: smap_size_card smap_ok_put smap_find_put card_insert_if domIff)
qed

lemma smap_size_erase:
  "smap_ok m \<Longrightarrow> smap_find m k \<noteq> None \<Longrightarrow> Suc (length (smap_erase k m)) = length m"
proof -
  assume ok: "smap_ok m" and k: "smap_find m k \<noteq> None"
  have "dom (smap_find (smap_erase k m)) = dom (smap_find m) - {k}"
    by (auto simp: smap_find_erase split: if_splits)
  moreover have "k \<in> dom (smap_find m)" and "finite (dom (smap_find m))"
    using k by (simp_all add: domIff) (simp add: dom_smap_find)
  ultimately show ?thesis
    using ok by (simp add: smap_size_card smap_ok_erase del: card_Diff_insert card_Diff_singleton)
      (metis card_Suc_Diff1)
qed

lemma smap_erase_above: "\<forall>q \<in> set m. (k :: 'k::linorder) < fst q \<Longrightarrow> smap_erase k m = m"
  unfolding smap_erase_def by (rule filter_True) force

lemma smap_erase_put: "smap_ok m \<Longrightarrow> smap_find m k = None \<Longrightarrow> smap_erase k (smap_put k v m) = m"
proof (induction k v m rule: smap_put.induct)
  case (2 k v k' v' m)
  have above: "k < k' \<Longrightarrow> smap_erase k m = m"
    using "2.prems"(1) by (intro smap_erase_above) (auto simp: smap_ok_Cons)
  with 2 show ?case
    by (auto simp: smap_erase_def smap_find_def smap_ok_Cons split: if_splits)
qed (simp add: smap_erase_def)

lemma smap_erase_None: "smap_find m k = None \<Longrightarrow> smap_erase k m = m"
  by (induction m) (auto simp: smap_find_def smap_erase_def split: if_splits)

lemma mset_smap_put:
  "smap_ok m \<Longrightarrow> smap_find m k = None \<Longrightarrow> mset (smap_put k v m) = add_mset (k, v) (mset m)"
  by (induction k v m rule: smap_put.induct) (auto simp: smap_find_def smap_ok_Cons split: if_splits)

lemma mset_smap_erase:
  "smap_ok m \<Longrightarrow> smap_find m k = Some v \<Longrightarrow> mset m = add_mset (k, v) (mset (smap_erase k m))"
proof (induction m)
  case (Cons p m)
  show ?case
  proof (cases "fst p = k")
    case True
    then have "smap_erase k m = m" using Cons.prems(1) by (intro smap_erase_above) (auto simp: smap_ok_Cons)
    then show ?thesis using True Cons.prems(2) by (cases p) (simp add: smap_find_def smap_erase_def)
  next
    case False
    then show ?thesis
      using Cons by (cases p) (auto simp: smap_ok_Cons smap_find_def smap_erase_def)
  qed
qed simp

lemma smap_upper_Some:
  "smap_ok m \<Longrightarrow> smap_upper k m = Some (k', v) \<Longrightarrow> (k', v) \<in> set m \<and> k < k'"
proof (induction m)
  case (Cons p m)
  then show ?case
    by (cases p) (auto simp: smap_upper_def smap_begin_def smap_ok_Cons split: if_splits)
qed (simp add: smap_upper_def smap_begin_def)

lemma smap_upper_after:
  "smap_ok (xs @ (k, v) # ys) \<Longrightarrow> smap_upper k (xs @ (k, v) # ys) = smap_begin ys"
proof (induction xs)
  case Nil
  then have "dropWhile (\<lambda>p. fst p \<le> k) ys = ys"
    by (cases ys) (auto simp: smap_ok_Cons)
  then show ?case by (simp add: smap_upper_def)
next
  case (Cons p xs)
  then show ?case by (auto simp: smap_upper_def smap_ok_Cons)
qed

section \<open>The contract of a keyed store\<close>

text \<open>
  What the registries of the program (subscriptions, workers, path table, translators,
  clients, LAGs) rely on: the value read back after an assignment, what an erase removes, and
  that every operation keeps the container well formed.
\<close>

locale key_store =
  fixes find :: "'m \<Rightarrow> 'k \<Rightarrow> 'v option"
    and put :: "'k \<Rightarrow> 'v \<Rightarrow> 'm \<Rightarrow> 'm"
    and erase :: "'k \<Rightarrow> 'm \<Rightarrow> 'm"
    and ok :: "'m \<Rightarrow> bool"
  assumes find_put: "ok m \<Longrightarrow> find (put k v m) = (find m)(k \<mapsto> v)"
    and find_erase: "find (erase k m) = (find m)(k := None)"
    and ok_put: "ok m \<Longrightarrow> ok (put k v m)"
    and ok_erase: "ok m \<Longrightarrow> ok (erase k m)"
begin

lemma find_put_same: "ok m \<Longrightarrow> find (put k v m) k = Some v"
  by (simp add: find_put)

lemma find_put_other: "ok m \<Longrightarrow> k \<noteq> k' \<Longrightarrow> find (put k v m) k' = find m k'"
  by (simp add: find_put)

lemma put_erase_find: "ok m \<Longrightarrow> find m k = None \<Longrightarrow> find (erase k (put k v m)) = find m"
  by (auto simp: find_put find_erase)

text \<open>Filling a store from a list of bindings: the last binding of a key wins.\<close>

lemma ok_fold_put: "ok m \<Longrightarrow> ok (fold (\<lambda>(k, v). put k v) kvs m)"
  by (induction kvs arbitrary: m) (auto intro: ok_put)

lemma find_fold_put:
  "ok m \<Longrightarrow> find (fold (\<lambda>(k, v). put k v) kvs m) =
     find m ++ map_of (rev kvs)"
proof (induction kvs arbitrary: m)
  case (Cons p kvs)
  then show ?case
    by (cases p) (auto simp: find_put ok_put fun_eq_iff map_add_def split: option.splits)
qed simp

end

locale sized_store = key_store +
  fixes size_of :: "'a \<Rightarrow> nat"
  assumes size_put: "ok m \<Longrightarrow> size_of (put k v m) = (if find m k = None then Suc (size_of m) else size_of m)"
    and size_erase: "ok m \<Longrightarrow> find m k \<noteq> None \<Longrightarrow> Suc (size_of (erase k m)) = size_of m"
begin

lemma size_put_erase: "ok m \<Longrightarrow> find m k = None \<Longrightarrow> size_of (erase k (put k v m)) = size_of m"
  using size_erase [of "put k v m" k] by (simp add: ok_put find_put size_put)

end

interpretation std_map: sized_store smap_find smap_put smap_erase smap_ok length
  by unfold_locales
    (simp_all add: smap_find_put smap_find_erase smap_ok_put smap_ok_erase smap_size_put
      smap_size_erase)

section \<open>Iteration\<close>

text \<open>
  The idiom \<open>p = getFirst(); while (p) { ...; p = getNext(p->getId()); }\<close> over a map from
  ids to objects: the next position is the first key above the id stored in the object, so
  the loop may run forever when an object's id is below its key. \<open>None\<close> is "does not
  return".
\<close>

partial_function (option) walk_from ::
    "('v \<Rightarrow> 'k::linorder) \<Rightarrow> ('k, 'v) smap \<Rightarrow> ('k \<times> 'v) option \<Rightarrow> 'v list option" where
  "walk_from idof m pos =
     (case pos of None \<Rightarrow> Some []
      | Some kv \<Rightarrow>
          Option.bind (walk_from idof m (smap_upper (idof (snd kv)) m)) (\<lambda>vs. Some (snd kv # vs)))"

lemma walk_from_suffix:
  "smap_ok (xs @ ys) \<Longrightarrow> (\<forall>(k, v) \<in> set (xs @ ys). idof v = k) \<Longrightarrow>
   walk_from idof (xs @ ys) (smap_begin ys) = Some (map snd ys)"
proof (induction ys arbitrary: xs)
  case Nil
  then show ?case by (simp add: smap_begin_def walk_from.simps)
next
  case (Cons p ys)
  obtain k v where p: "p = (k, v)" by (cases p)
  have "walk_from idof ((xs @ [p]) @ ys) (smap_begin ys) = Some (map snd ys)"
    using Cons.prems by (intro Cons.IH) auto
  moreover have "smap_upper k (xs @ p # ys) = smap_begin ys"
    using Cons.prems(1) p by (simp add: smap_upper_after)
  moreover have "idof v = k" using Cons.prems(2) p by auto
  ultimately show ?case
    by (simp add: p smap_begin_def walk_from.simps)
qed

lemma walk_all:
  "smap_ok m \<Longrightarrow> (\<forall>(k, v) \<in> set m. idof v = k) \<Longrightarrow>
   walk_from idof m (smap_begin m) = Some (map snd m)"
  using walk_from_suffix [of "[]" m idof] by simp

end
