(* ===== verification/Json.thy ===== *)
theory Json
  imports StdMap CppString
begin

text \<open>
  JSON documents as the program handles them through jsoncpp: trees, read and changed along
  paths of member names and positions. Reading text, writing text and converting leaves are
  done by the library; they are the fields of the parameter \<open>json_lib\<close>, and \<open>json_lib_ok\<close>
  states what the program relies on. \<open>JsonUtils\<close> (JsonUtils.cpp) is modelled on
  top.
\<close>

section \<open>Documents\<close>

datatype json =
    JNull
  | JBool bool
  | JNum int
  | JReal u64
  | JStr string
  | JArr "json list"
  | JObj "(string \<times> json) list"

record json_lib =
  js_parse :: "string \<Rightarrow> json option"
  js_styled :: "json \<Rightarrow> string"
  js_fast :: "json \<Rightarrow> string"
  js_asString :: "json \<Rightarrow> string res"
  js_asBool :: "json \<Rightarrow> bool res"
  js_asInt :: "json \<Rightarrow> i32 res"

section \<open>Access\<close>

text \<open>\<open>value["key"]\<close> read: a null document and a missing member read as null.\<close>

fun json_member :: "string \<Rightarrow> json \<Rightarrow> json res" where
  "json_member k JNull = Inr JNull"
| "json_member k (JObj m) = Inr (case smap_find m k of Some v \<Rightarrow> v | None \<Rightarrow> JNull)"
| "json_member k _ = Inl JsonTypeError"

fun json_elem :: "nat \<Rightarrow> json \<Rightarrow> json res" where
  "json_elem i JNull = Inr JNull"
| "json_elem i (JArr xs) = Inr (if i < length xs then xs ! i else JNull)"
| "json_elem i _ = Inl JsonTypeError"

datatype json_step = Key string | Idx nat

fun json_get :: "json_step list \<Rightarrow> json \<Rightarrow> json res" where
  "json_get [] v = Inr v"
| "json_get (Key k # ss) v = res_bind (json_member k v) (json_get ss)"
| "json_get (Idx i # ss) v = res_bind (json_elem i v) (json_get ss)"

text \<open>
  \<open>f\<close> applied at the place \<open>value[s1][s2]...\<close> refers to; null documents on the way become
  objects and arrays, missing members and positions become null.
\<close>

fun json_at :: "json_step list \<Rightarrow> (json \<Rightarrow> json res) \<Rightarrow> json \<Rightarrow> json res" where
  "json_at [] f v = f v"
| "json_at (Key k # ss) f v =
     (case v of
        JNull \<Rightarrow> res_bind (json_at ss f JNull) (\<lambda>w. Inr (JObj [(k, w)]))
      | JObj m \<Rightarrow> res_bind (json_at ss f (case smap_find m k of Some w \<Rightarrow> w | None \<Rightarrow> JNull))
                   (\<lambda>w. Inr (JObj (smap_put k w m)))
      | _ \<Rightarrow> Inl JsonTypeError)"
| "json_at (Idx i # ss) f v =
     (case v of
        JNull \<Rightarrow> res_bind (json_at ss f JNull) (\<lambda>w. Inr (JArr (replicate i JNull @ [w])))
      | JArr xs \<Rightarrow>
          if i < length xs then res_bind (json_at ss f (xs ! i)) (\<lambda>w. Inr (JArr (xs[i := w])))
          else res_bind (json_at ss f JNull)
                 (\<lambda>w. Inr (JArr (xs @ replicate (i - length xs) JNull @ [w])))
      | _ \<Rightarrow> Inl JsonTypeError)"

definition json_set :: "json_step list \<Rightarrow> json \<Rightarrow> json \<Rightarrow> json res" where
  "json_set ss w v = json_at ss (\<lambda>old. Inr w) v"

definition removeMember :: "string \<Rightarrow> json \<Rightarrow> json res" where
  "removeMember k v =
     (case v of JNull \<Rightarrow> Inr JNull | JObj m \<Rightarrow> Inr (JObj (smap_erase k m)) | _ \<Rightarrow> Inl JsonTypeError)"

fun getMemberNames :: "json \<Rightarrow> string list res" where
  "getMemberNames JNull = Inr []"
| "getMemberNames (JObj m) = Inr (smap_keys m)"
| "getMemberNames _ = Inl JsonTypeError"

fun is_object :: "json \<Rightarrow> bool" where
  "is_object (JObj m) = True"
| "is_object _ = False"

section \<open>JsonUtils\<close>

definition parse_string_to_json_obj :: "json_lib \<Rightarrow> string \<Rightarrow> json option" where
  "parse_string_to_json_obj jl s = js_parse jl s"

definition write_json_obj_to_string :: "json_lib \<Rightarrow> json \<Rightarrow> string" where
  "write_json_obj_to_string jl v = js_fast jl v"

text \<open>
  \<open>merge_json_objects\<close>: the members of \<open>sub\<close> in order, each put into \<open>super\<close> or, when both
  sides are objects, merged into it.
\<close>

fun merge_members :: "(string \<times> json) list \<Rightarrow> json \<Rightarrow> json res" where
  "merge_members [] super = Inr super"
| "merge_members ((k, v) # kvs) super =
     res_bind (json_member k super) (\<lambda>old.
     res_bind (case v of
         JObj m \<Rightarrow> if is_object old then res_bind (merge_members m old) (\<lambda>w. json_set [Key k] w super)
                   else json_set [Key k] v super
       | _ \<Rightarrow> json_set [Key k] v super) (\<lambda>super'.
       merge_members kvs super'))"

fun merge_json_objects :: "json \<Rightarrow> json \<Rightarrow> json res" where
  "merge_json_objects super JNull = Inr super"
| "merge_json_objects super (JObj m) = merge_members m super"
| "merge_json_objects super _ = Inl JsonTypeError"

section \<open>Laws\<close>

text \<open>Objects with their members in order, without duplicates, at every depth.\<close>

fun json_ok :: "json \<Rightarrow> bool" where
  "json_ok (JArr xs) = list_all json_ok xs"
| "json_ok (JObj m) = (smap_ok m \<and> list_all (\<lambda>p. json_ok (snd p)) m)"
| "json_ok _ = True"

lemma json_ok_find: "json_ok (JObj m) \<Longrightarrow> smap_find m k = Some v \<Longrightarrow> json_ok v"
  by (auto simp: smap_find_set list_all_iff)

lemma json_ok_put: "json_ok (JObj m) \<Longrightarrow> json_ok w \<Longrightarrow> json_ok (JObj (smap_put k w m))"
  using set_smap_put [of k w m] by (auto simp: std_map.ok_put list_all_iff)

lemma json_ok_member: "json_ok v \<Longrightarrow> json_member k v = Inr w \<Longrightarrow> json_ok w"
  by (cases v) (auto split: option.splits intro: json_ok_find)

lemma json_ok_elem: "json_ok v \<Longrightarrow> json_elem i v = Inr w \<Longrightarrow> json_ok w"
  by (cases v) (auto simp: list_all_length split: if_splits)

text \<open>What an assignment through a path of subscripts reads back as.\<close>

lemma json_get_set:
  "json_ok v \<Longrightarrow> json_set ss w v = Inr v' \<Longrightarrow> json_get ss v' = Inr w"
proof (induction ss arbitrary: v v')
  case (Cons s ss)
  show ?case
  proof (cases s)
    case (Key k)
    show ?thesis
    proof (cases v)
      case (JObj m)
      let ?old = "case smap_find m k of Some w \<Rightarrow> w | None \<Rightarrow> JNull"
      obtain u where u: "json_set ss w ?old = Inr u" and v': "v' = JObj (smap_put k u m)"
        using Cons.prems(2) Key JObj by (auto simp: json_set_def res_bind_Inr_iff)
      have "json_ok ?old" using Cons.prems(1) JObj by (auto split: option.split intro: json_ok_find)
      from Cons.IH [OF this u] show ?thesis
        using Cons.prems(1) JObj Key v' by (simp add: std_map.find_put)
    next
      case JNull
      then obtain u where u: "json_set ss w JNull = Inr u" and v': "v' = JObj [(k, u)]"
        using Cons.prems(2) Key by (auto simp: json_set_def res_bind_Inr_iff)
      from Cons.IH [OF _ u] show ?thesis using Key v' by (simp add: smap_find_def)
    qed (use Cons.prems Key in \<open>simp_all add: json_set_def\<close>)
  next
    case (Idx i)
    show ?thesis
    proof (cases v)
      case (JArr xs)
      show ?thesis
      proof (cases "i < length xs")
        case True
        then obtain u where u: "json_set ss w (xs ! i) = Inr u" and v': "v' = JArr (xs[i := u])"
          using Cons.prems(2) Idx JArr by (auto simp: json_set_def res_bind_Inr_iff)
        have "json_ok (xs ! i)" using Cons.prems(1) JArr True by (simp add: list_all_length)
        from Cons.IH [OF this u] show ?thesis using Idx v' True by simp
      next
        case False
        then obtain u where u: "json_set ss w JNull = Inr u" and
          v': "v' = JArr (xs @ replicate (i - length xs) JNull @ [u])"
          using Cons.prems(2) Idx JArr by (auto simp: json_set_def res_bind_Inr_iff)
        from Cons.IH [OF _ u] show ?thesis using Idx v' False by (simp add: nth_append)
      qed
    next
      case JNull
      then obtain u where u: "json_set ss w JNull = Inr u" and v': "v' = JArr (replicate i JNull @ [u])"
        using Cons.prems(2) Idx by (auto simp: json_set_def res_bind_Inr_iff)
      from Cons.IH [OF _ u] show ?thesis using Idx v' by (simp add: nth_append)
    qed (use Cons.prems Idx in \<open>simp_all add: json_set_def\<close>)
  qed
qed (simp add: json_set_def)

section \<open>What the program relies on\<close>

text \<open>The conversions of a leaf of the asked type, and that text written reads back.\<close>

definition json_lib_ok :: "json_lib \<Rightarrow> bool" where
  "json_lib_ok jl \<longleftrightarrow>
     (\<forall>s. js_asString jl (JStr s) = Inr s) \<and> (\<forall>b. js_asBool jl (JBool b) = Inr b) \<and>
     (\<forall>n. - (2 ^ 31) \<le> n \<longrightarrow> n < 2 ^ 31 \<longrightarrow> js_asInt jl (JNum n) = Inr (of_int n))"

lemma json_lib_ok_simps:
  "json_lib_ok jl \<Longrightarrow> js_asString jl (JStr s) = Inr s"
  "json_lib_ok jl \<Longrightarrow> js_asBool jl (JBool b) = Inr b"
  "json_lib_ok jl \<Longrightarrow> - (2 ^ 31) \<le> n \<Longrightarrow> n < 2 ^ 31 \<Longrightarrow> js_asInt jl (JNum n) = Inr (of_int n)"
  by (simp_all add: json_lib_ok_def)

end
