(* ===== verification/JunosConfig.thy ===== *)
theory JunosConfig
  imports Json Messages
begin

text \<open>
  The configuration a request is turned into (JunosTelemetryJson.hpp, JunosTelemetryJson.cpp,
  JunosTelemetryJsonGenerator.cpp): templates in JSON text, edited in place, merged and written.
  The trees the template texts denote are given beside them; \<open>templates_parse\<close> says that the
  JSON reader finds them.
\<close>

section \<open>Templates\<close>

definition unlines :: "string list \<Rightarrow> string" where
  "unlines ls = concat (map (\<lambda>l. l @ [CHR 0x0A]) ls)"

definition export_profile :: string where
  "export_profile = unlines
     [[],
      ''{'',
      ''    \"configuration\" : {'',
      ''        \"services\" : {'',
      ''            \"analytics\" : {'',
      ''                \"export-profile\" :'',
      ''                ['',
      ''                    {'',
      ''                        \"@\" : { \"operation\" : \"delete\" },'',
      ''                        \"@name@\" : \"__EXPORT_PROFILE_NAME__\",'',
      ''                         \"transport\" : \"__TRANSPORT__\"'',
      ''                    }'',
      ''                ]'',
      ''            }'',
      ''        }'',
      ''    }'',
      ''}'']"

definition streaming_server :: string where
  "streaming_server = unlines
     [[],
      ''{'',
      ''    \"configuration\" : {'',
      ''        \"services\" : {'',
      ''            \"analytics\" : {'',
      ''                \"streaming-server\" :'',
      ''                ['',
      ''                    {'',
      ''                        \"@\" : { \"operation\" : \"delete\" },'',
      ''                        \"@name@\" : \"__STREAMING_SERVER_NAME__\",'',
      ''                        \"remote-address\" : \"__GRPC_UDP_IP__\",'',
      ''                        \"remote-port\" : \"__GRPC_UDP_PORT__\"'',
      ''                    }'',
      ''                ]'',
      ''            }'',
      ''        }'',
      ''    }'',
      ''}'']"

definition sensor_config :: string where
  "sensor_config = unlines
     [[],
      ''{'',
      ''    \"configuration\" : {'',
      ''        \"services\" : {'',
      ''            \"analytics\" : {'',
      ''                \"sensor\" :'',
      ''                ['',
      ''                    {'',
      ''                        \"@\" : { \"operation\" : \"delete\" },'',
      ''                        \"@name@\" : \"__SENSOR_NAME__\",'',
      ''                        \"server-name\" : \"__STREAMING_SERVER_NAME__\",'',
      ''                        \"export-name\" : \"__EXPORT_PROFILE_NAME__\",'',
      ''                        \"resource\" : \"__PATH_path__\",'',
      ''                        \"resource-filter\" : \"__PATH_filter__\",'',
      ''                        \"reporting-rate\" : \"__PATH_sample_frequency__\",'',
      ''                        \"subscription-id\" : \"__INTERNAL_SUBSCRIPTION_ID__\"'',
      ''                    }'',
      ''                ]'',
      ''            }'',
      ''        }'',
      ''    }'',
      ''}'']"

definition clear_all_config :: string where
  "clear_all_config = unlines
     [[],
      ''{'',
      ''    \"configuration\" : {'',
      ''        \"services\" : {'',
      ''            \"analytics\" : {'',
      ''                \"@\" : { \"operation\" : \"delete\" }'',
      ''            }'',
      ''        }'',
      ''    }'',
      ''}'']"

definition export_profile_json :: json where
  "export_profile_json =
     JObj [(''configuration'', JObj [(''services'', JObj [(''analytics'',
     JObj [(''export-profile'', JArr [JObj [(''@'', JObj [(''operation'', JStr ''delete'')]),
     (''@name@'', JStr ''__EXPORT_PROFILE_NAME__''), (''transport'',
     JStr ''__TRANSPORT__'')]])])])])]"

definition streaming_server_json :: json where
  "streaming_server_json =
     JObj [(''configuration'', JObj [(''services'', JObj [(''analytics'',
     JObj [(''streaming-server'', JArr [JObj [(''@'', JObj [(''operation'', JStr ''delete'')]),
     (''@name@'', JStr ''__STREAMING_SERVER_NAME__''), (''remote-address'',
     JStr ''__GRPC_UDP_IP__''), (''remote-port'', JStr ''__GRPC_UDP_PORT__'')]])])])])]"

definition sensor_config_json :: json where
  "sensor_config_json =
     JObj [(''configuration'', JObj [(''services'', JObj [(''analytics'', JObj [(''sensor'',
     JArr [JObj [(''@'', JObj [(''operation'', JStr ''delete'')]), (''@name@'',
     JStr ''__SENSOR_NAME__''), (''export-name'', JStr ''__EXPORT_PROFILE_NAME__''),
     (''reporting-rate'', JStr ''__PATH_sample_frequency__''), (''resource'',
     JStr ''__PATH_path__''), (''resource-filter'', JStr ''__PATH_filter__''), (''server-name'',
     JStr ''__STREAMING_SERVER_NAME__''), (''subscription-id'',
     JStr ''__INTERNAL_SUBSCRIPTION_ID__'')]])])])])]"

definition clear_all_config_json :: json where
  "clear_all_config_json =
     JObj [(''configuration'', JObj [(''services'', JObj [(''analytics'', JObj [(''@'',
     JObj [(''operation'', JStr ''delete'')])])])])]"

definition templates_parse :: "json_lib \<Rightarrow> bool" where
  "templates_parse jl \<longleftrightarrow>
     js_parse jl export_profile = Some export_profile_json \<and>
     js_parse jl streaming_server = Some streaming_server_json \<and>
     js_parse jl sensor_config = Some sensor_config_json \<and>
     js_parse jl clear_all_config = Some clear_all_config_json"

section \<open>Editing a template\<close>

definition analytics :: "string \<Rightarrow> json_step list" where
  "analytics part = [Key ''configuration'', Key ''services'', Key ''analytics'', Key part, Idx 0]"

definition put_str :: "string \<Rightarrow> string \<Rightarrow> string \<Rightarrow> json \<Rightarrow> json res" where
  "put_str part k s j = json_set (analytics part @ [Key k]) (JStr s) j"

definition drop_member :: "string \<Rightarrow> string \<Rightarrow> json \<Rightarrow> json res" where
  "drop_member part k j = json_at (analytics part) (removeMember k) j"

definition set_json_export_profile :: "bool \<Rightarrow> string \<Rightarrow> string \<Rightarrow> json \<Rightarrow> json res" where
  "set_json_export_profile add export_profile_name transport j =
     res_bind (put_str ''export-profile'' ''@name@'' export_profile_name j) (\<lambda>j.
     if add then
       res_bind (drop_member ''export-profile'' ''@'' j) (\<lambda>j.
       put_str ''export-profile'' ''transport'' transport j)
     else drop_member ''export-profile'' ''transport'' j)"

definition set_json_streaming_server ::
    "bool \<Rightarrow> string \<Rightarrow> string \<Rightarrow> u32 \<Rightarrow> json \<Rightarrow> json res" where
  "set_json_streaming_server add streaming_server_name grpc_udp_ip grpc_udp_port j =
     res_bind (put_str ''streaming-server'' ''@name@'' streaming_server_name j) (\<lambda>j.
     if add then
       res_bind (drop_member ''streaming-server'' ''@'' j) (\<lambda>j.
       res_bind (put_str ''streaming-server'' ''remote-address'' grpc_udp_ip j) (\<lambda>j.
       put_str ''streaming-server'' ''remote-port'' (string_of_u32 grpc_udp_port) j))
     else
       res_bind (drop_member ''streaming-server'' ''remote-address'' j) (\<lambda>j.
       drop_member ''streaming-server'' ''remote-port'' j))"

definition set_json_sensor_config ::
    "bool \<Rightarrow> bool \<Rightarrow> string \<Rightarrow> string \<Rightarrow> string \<Rightarrow> string \<Rightarrow> string \<Rightarrow> u32 \<Rightarrow> u32 \<Rightarrow> json \<Rightarrow> json res" where
  "set_json_sensor_config add udp sensor_name streaming_server_name export_profile_name
      path filt sample_frequency_in_secs internal_subscription_id j =
     res_bind (put_str ''sensor'' ''@name@'' sensor_name j) (\<lambda>j.
     if add then
       res_bind (drop_member ''sensor'' ''@'' j) (\<lambda>j.
       res_bind (if udp then put_str ''sensor'' ''server-name'' streaming_server_name j
                 else drop_member ''sensor'' ''server-name'' j) (\<lambda>j.
       res_bind (put_str ''sensor'' ''export-name'' export_profile_name j) (\<lambda>j.
       res_bind (put_str ''sensor'' ''resource'' path j) (\<lambda>j.
       res_bind (if filt \<noteq> [] then put_str ''sensor'' ''resource-filter'' filt j
                 else drop_member ''sensor'' ''resource-filter'' j) (\<lambda>j.
       res_bind (put_str ''sensor'' ''reporting-rate'' (string_of_u32 sample_frequency_in_secs) j) (\<lambda>j.
       put_str ''sensor'' ''subscription-id'' (string_of_u32 internal_subscription_id) j))))))
     else
       res_bind (drop_member ''sensor'' ''server-name'' j) (\<lambda>j.
       res_bind (drop_member ''sensor'' ''export-name'' j) (\<lambda>j.
       res_bind (drop_member ''sensor'' ''resource'' j) (\<lambda>j.
       res_bind (drop_member ''sensor'' ''resource-filter'' j) (\<lambda>j.
       res_bind (drop_member ''sensor'' ''reporting-rate'' j) (\<lambda>j.
       drop_member ''sensor'' ''subscription-id'' j))))))"

section \<open>The generator\<close>

definition MILLISECS_TO_SECS :: "u32 \<Rightarrow> u32" where
  "MILLISECS_TO_SECS msec = msec div 1000"

definition GRPC_UDP_COLLECTOR_NAME :: string where
  "GRPC_UDP_COLLECTOR_NAME = ''grpc_udp_collector''"

definition wrap_config :: "string \<Rightarrow> string" where
  "wrap_config s = ''<configuration-json>'' @ s @ ''</configuration-json>''"

text \<open>The edited templates merged; \<open>None\<close> when a template does not parse.\<close>

definition junos_config_tree ::
    "json_lib \<Rightarrow> bool \<Rightarrow> bool \<Rightarrow> string \<Rightarrow> u32 \<Rightarrow> u32 \<Rightarrow> path_msg \<Rightarrow> json option res" where
  "junos_config_tree jl add udp udp_server_ip udp_server_port internal_subscription_id path =
     (case parse_string_to_json_obj jl export_profile of
        None \<Rightarrow> Inr None
      | Some ej \<Rightarrow>
          (let export_profile_name = ''export_'' @ string_of_u32 internal_subscription_id
           in res_bind (set_json_export_profile add export_profile_name
                (if udp then ''udp'' else ''grpc'') ej) (\<lambda>ej.
              case (if udp then parse_string_to_json_obj jl streaming_server else Some JNull) of
                None \<Rightarrow> Inr None
              | Some sj \<Rightarrow>
                  res_bind (if udp then
                      res_bind (set_json_streaming_server add GRPC_UDP_COLLECTOR_NAME
                         udp_server_ip udp_server_port sj) (\<lambda>sj.
                      Inr (if \<not> add then JNull else sj))
                    else Inr JNull) (\<lambda>sj.
                  case parse_string_to_json_obj jl sensor_config of
                    None \<Rightarrow> Inr None
                  | Some cj \<Rightarrow>
                      (let sensor_name = ''sensor_'' @ string_of_u32 internal_subscription_id
                       in res_bind (set_json_sensor_config add udp sensor_name
                            GRPC_UDP_COLLECTOR_NAME export_profile_name (p_path path)
                            (p_filter path) (MILLISECS_TO_SECS (p_sample_frequency path))
                            internal_subscription_id cj) (\<lambda>cj.
                          res_bind (merge_json_objects JNull ej) (\<lambda>final.
                          res_bind (merge_json_objects final sj) (\<lambda>final.
                          res_bind (merge_json_objects final cj) (\<lambda>final.
                          Inr (Some final))))))))))"

definition generate_json_junos_config ::
    "json_lib \<Rightarrow> bool \<Rightarrow> bool \<Rightarrow> string \<Rightarrow> u32 \<Rightarrow> u32 \<Rightarrow> path_msg \<Rightarrow> string res" where
  "generate_json_junos_config jl add udp udp_server_ip udp_server_port internal_subscription_id path =
     res_bind (junos_config_tree jl add udp udp_server_ip udp_server_port internal_subscription_id path)
       (\<lambda>t. case t of
          None \<Rightarrow> Inr []
        | Some final \<Rightarrow>
            res_bind (returned (SearchNReplaceString (write_json_obj_to_string jl final)
                        ''@name@'' ''name'')) (\<lambda>s. Inr (wrap_config s)))"

definition generate_json_clear_all_junos_config :: "json_lib \<Rightarrow> string" where
  "generate_json_clear_all_junos_config jl =
     (case parse_string_to_json_obj jl clear_all_config of
        None \<Rightarrow> []
      | Some j \<Rightarrow> wrap_config (write_json_obj_to_string jl j))"

section \<open>What is generated\<close>

text \<open>The configuration written down directly: the reference for the editing and merging above.\<close>

definition in_analytics :: "(string \<times> json) list \<Rightarrow> json" where
  "in_analytics parts = JObj [(''configuration'', JObj [(''services'', JObj [(''analytics'', JObj parts)])])]"

definition added_sensor :: "bool \<Rightarrow> string \<Rightarrow> string \<Rightarrow> u32 \<Rightarrow> path_msg \<Rightarrow> json" where
  "added_sensor udp sensor_name export_name i path = JObj
     ([(''@name@'', JStr sensor_name),
       (''export-name'', JStr export_name),
       (''reporting-rate'', JStr (string_of_u32 (p_sample_frequency path div 1000))),
       (''resource'', JStr (p_path path))] @
      (if p_filter path = [] then [] else [(''resource-filter'', JStr (p_filter path))]) @
      (if udp then [(''server-name'', JStr GRPC_UDP_COLLECTOR_NAME)] else []) @
      [(''subscription-id'', JStr (string_of_u32 i))])"

definition reference_config :: "bool \<Rightarrow> bool \<Rightarrow> string \<Rightarrow> u32 \<Rightarrow> u32 \<Rightarrow> path_msg \<Rightarrow> json" where
  "reference_config add udp ip port i path =
     (if add then in_analytics
        ([(''export-profile'', JArr [JObj
             [(''@name@'', JStr (''export_'' @ string_of_u32 i)),
              (''transport'', JStr (if udp then ''udp'' else ''grpc''))]]),
          (''sensor'', JArr [added_sensor udp (''sensor_'' @ string_of_u32 i) (''export_'' @ string_of_u32 i) i path])] @
         (if udp then [(''streaming-server'', JArr [JObj
             [(''@name@'', JStr GRPC_UDP_COLLECTOR_NAME), (''remote-address'', JStr ip),
              (''remote-port'', JStr (string_of_u32 port))]])] else []))
      else in_analytics
        [(''export-profile'', JArr [JObj
             [(''@'', JObj [(''operation'', JStr ''delete'')]),
              (''@name@'', JStr (''export_'' @ string_of_u32 i))]]),
         (''sensor'', JArr [JObj
             [(''@'', JObj [(''operation'', JStr ''delete'')]),
              (''@name@'', JStr (''sensor_'' @ string_of_u32 i))]])])"

lemmas json_edit_defs = put_str_def drop_member_def json_set_def analytics_def removeMember_def
  smap_find_def smap_erase_def less_char_def

lemma set_export_profile:
  "set_json_export_profile add name t export_profile_json = Inr (in_analytics
     [(''export-profile'', JArr [JObj
        (if add then [(''@name@'', JStr name), (''transport'', JStr t)]
         else [(''@'', JObj [(''operation'', JStr ''delete'')]), (''@name@'', JStr name)])])])"
  by (simp add: set_json_export_profile_def export_profile_json_def in_analytics_def json_edit_defs)

lemma set_streaming_server:
  "set_json_streaming_server True name ip port streaming_server_json = Inr (in_analytics
     [(''streaming-server'', JArr [JObj
        [(''@name@'', JStr name), (''remote-address'', JStr ip),
         (''remote-port'', JStr (string_of_u32 port))]])])"
  "\<exists>j. set_json_streaming_server False name ip port streaming_server_json = Inr j"
  by (simp_all add: set_json_streaming_server_def streaming_server_json_def in_analytics_def json_edit_defs)

lemma set_sensor_add:
  "set_json_sensor_config True udp sname GRPC_UDP_COLLECTOR_NAME ename (p_path path) (p_filter path)
     (MILLISECS_TO_SECS (p_sample_frequency path)) i sensor_config_json =
   Inr (in_analytics [(''sensor'', JArr [added_sensor udp sname ename i path])])"
  by (cases udp; cases "p_filter path = []")
    (simp_all add: set_json_sensor_config_def sensor_config_json_def in_analytics_def
      added_sensor_def MILLISECS_TO_SECS_def json_edit_defs)

lemma set_sensor_remove:
  "set_json_sensor_config False udp name srv ex p f r i sensor_config_json =
   Inr (in_analytics [(''sensor'', JArr [JObj
     [(''@'', JObj [(''operation'', JStr ''delete'')]), (''@name@'', JStr name)]])])"
  by (simp add: set_json_sensor_config_def sensor_config_json_def in_analytics_def json_edit_defs)

text \<open>Merging configurations whose parts have different names.\<close>

lemma merge_into_null:
  "merge_json_objects JNull (in_analytics [(k, v)]) = Inr (in_analytics [(k, v)])"
  by (simp add: in_analytics_def json_set_def smap_find_def split: json.split)

lemma merge_parts:
  "smap_find parts k = None \<Longrightarrow>
   merge_json_objects (in_analytics parts) (in_analytics [(k, v)]) = Inr (in_analytics (smap_put k v parts))"
  by (simp add: in_analytics_def json_set_def smap_find_def split: json.split)

lemma junos_config_tree_reference:
  assumes "templates_parse jl"
  shows "junos_config_tree jl add udp ip port i path = Inr (Some (reference_config add udp ip port i path))"
proof -
  have parse: "parse_string_to_json_obj jl export_profile = Some export_profile_json"
    "parse_string_to_json_obj jl streaming_server = Some streaming_server_json"
    "parse_string_to_json_obj jl sensor_config = Some sensor_config_json"
    using assms by (simp_all add: templates_parse_def parse_string_to_json_obj_def)
  obtain sj where sj: "set_json_streaming_server False GRPC_UDP_COLLECTOR_NAME ip port streaming_server_json = Inr sj"
    using set_streaming_server(2) by blast
  show ?thesis
    by (cases add; cases udp)
      (simp_all add: junos_config_tree_def parse set_export_profile set_streaming_server(1) sj
        set_sensor_add set_sensor_remove merge_into_null merge_parts reference_config_def
        smap_find_def less_char_def Let_def del: merge_json_objects.simps(2))
qed

lemma generate_reference:
  assumes "templates_parse jl"
  shows "generate_json_junos_config jl add udp ip port i path =
    Inr (wrap_config (replace_all ''@name@'' ''name'' (js_fast jl (reference_config add udp ip port i path))))"
  using junos_config_tree_reference [OF assms]
  by (simp add: generate_json_junos_config_def SearchNReplaceString_total write_json_obj_to_string_def)

lemma generate_clear_all:
  "templates_parse jl \<Longrightarrow> generate_json_clear_all_junos_config jl = wrap_config (js_fast jl clear_all_config_json)"
  by (simp add: generate_json_clear_all_junos_config_def templates_parse_def
      parse_string_to_json_obj_def write_json_obj_to_string_def)

end
