(* ===== verification/IniReader.thy ===== *)
theory IniReader
  imports CppString StdMap
begin

text \<open>
  The configuration file reader (lib-inih/ini.c, lib-inih/ini.h, lib-inih/INIReader.cpp): lines
  of at most 199 characters, sections, name/value pairs with continuation lines and inline
  comments, and the map from \<open>section=name\<close> keys to values.
\<close>

section \<open>Constants (the defaults of ini.h)\<close>

definition INI_MAX_LINE :: nat where
  "INI_MAX_LINE = 200"

definition MAX_SECTION :: nat where
  "MAX_SECTION = 50"

definition MAX_NAME :: nat where
  "MAX_NAME = 50"

text \<open>
  \<open>INI_STOP_ON_FIRST_ERROR\<close> is 0 in ini.h and in the Junos package (occam/makefiles), and 1 in
  lib-inih/Makefile, which builds the library of the server: the parser takes it as an argument.
\<close>

definition INI_STOP_ON_FIRST_ERROR :: bool where
  "INI_STOP_ON_FIRST_ERROR = True"

definition newline :: char where
  "newline = CHR 0x0A"

section \<open>String helpers of ini.c\<close>

definition rstrip :: "string \<Rightarrow> string" where
  "rstrip s = rev (dropWhile is_space (rev s))"

definition lskip :: "string \<Rightarrow> string" where
  "lskip s = dropWhile is_space s"

text \<open>
  The characters before the found one, and the rest from it. The flag is \<open>was_space\<close>; \<open>chars\<close>
  is empty for a null pointer.
\<close>

fun find_chars_or_comment :: "bool \<Rightarrow> string \<Rightarrow> string \<Rightarrow> string \<times> string" where
  "find_chars_or_comment was_space chars [] = ([], [])"
| "find_chars_or_comment was_space chars (c # s) =
     (if c \<in> set chars \<or> (was_space \<and> c = CHR '';'') then ([], c # s)
      else let (a, b) = find_chars_or_comment (is_space c) chars s in (c # a, b))"

definition strncpy0 :: "string \<Rightarrow> nat \<Rightarrow> string" where
  "strncpy0 src size_of = take (size_of - 1) src"

text \<open>\<open>fgets\<close> into a buffer of \<open>n + 1\<close> characters: the line with its newline, and the rest.\<close>

fun fgets :: "nat \<Rightarrow> string \<Rightarrow> string \<times> string" where
  "fgets 0 s = ([], s)"
| "fgets (Suc n) [] = ([], [])"
| "fgets (Suc n) (c # s) =
     (if c = newline then ([c], s) else let (a, b) = fgets n s in (c # a, b))"

lemma fgets_length: "length (snd (fgets n s)) \<le> length s"
proof (induction n s rule: fgets.induct)
  case (3 n c s)
  then show ?case by (cases "fgets n s") auto
qed auto

lemma fgets_shorter: "s \<noteq> [] \<Longrightarrow> length (snd (fgets (Suc n) s)) < length s"
  using fgets_length [of n "tl s"] by (cases s) (auto simp: Let_def less_Suc_eq_le split: prod.splits)

section \<open>The parser\<close>

record ini_state =
  ini_section :: string
  ini_prev_name :: string
  ini_lineno :: nat
  ini_error :: nat

definition ini_init :: ini_state where
  "ini_init = \<lparr>ini_section = [], ini_prev_name = [], ini_lineno = 0, ini_error = 0\<rparr>"

text \<open>
  What a line is, once the byte order mark and the surrounding white space are gone. \<open>indented\<close>
  is \<open>start > line\<close>.
\<close>

datatype ini_line =
    IniBlank
  | IniContinuation string
  | IniSection string
  | IniPair string string
  | IniBad

definition skip_bom :: "nat \<Rightarrow> string \<Rightarrow> string" where
  "skip_bom lineno line =
     (if lineno = 1 \<and> take 3 line = [CHR 0xEF, CHR 0xBB, CHR 0xBF] then drop 3 line else line)"

definition classify_line :: "string \<Rightarrow> bool \<Rightarrow> string \<Rightarrow> ini_line" where
  "classify_line prev_name indented start =
     (case start of
        [] \<Rightarrow> IniBlank
      | c # rest \<Rightarrow>
          if c = CHR '';'' \<or> c = CHR ''#'' then IniBlank
          else if prev_name \<noteq> [] \<and> indented then IniContinuation start
          else if c = CHR ''['' then
            (case find_chars_or_comment False '']'' rest of
               (name, e # _) \<Rightarrow> if e = CHR '']'' then IniSection name else IniBad
             | (name, []) \<Rightarrow> IniBad)
          else
            (case find_chars_or_comment False ''=:'' start of
               (name, e # after) \<Rightarrow>
                 if e = CHR ''='' \<or> e = CHR '':'' then
                   IniPair (rstrip name) (rstrip (fst (find_chars_or_comment False [] (lskip after))))
                 else IniBad
             | (name, []) \<Rightarrow> IniBad))"

text \<open>
  One turn of the loop of \<open>ini_parse_stream\<close>: the new state and the call of the handler, if
  any, as (section, name, value). The handler of \<open>INIReader\<close> always answers 1.
\<close>

definition ini_step :: "string \<Rightarrow> ini_state \<Rightarrow> ini_state \<times> (string \<times> string \<times> string) option" where
  "ini_step line st =
     (let st = st\<lparr>ini_lineno := ini_lineno st + 1\<rparr>;
          line = takeWhile (\<lambda>c. c \<noteq> CHR 0x00) line;
          text_part = skip_bom (ini_lineno st) line;
          start = lskip (rstrip text_part);
          indented = (length text_part < length line \<or> takeWhile is_space text_part \<noteq> [])
      in case classify_line (ini_prev_name st) indented start of
           IniBlank \<Rightarrow> (st, None)
         | IniContinuation v \<Rightarrow> (st, Some (ini_section st, ini_prev_name st, v))
         | IniSection s \<Rightarrow> (st\<lparr>ini_section := strncpy0 s MAX_SECTION, ini_prev_name := []\<rparr>, None)
         | IniPair n v \<Rightarrow> (st\<lparr>ini_prev_name := strncpy0 n MAX_NAME\<rparr>, Some (ini_section st, n, v))
         | IniBad \<Rightarrow> (if ini_error st = 0 then st\<lparr>ini_error := ini_lineno st\<rparr> else st, None))"

text \<open>
  \<open>ini_parse_stream\<close> on the contents of a file: the final state with the line of the first
  error, and the handler calls.
\<close>

function ini_parse_stream ::
    "bool \<Rightarrow> string \<Rightarrow> ini_state \<Rightarrow> ini_state \<times> (string \<times> string \<times> string) list" where
  "ini_parse_stream stop s st =
     (if s = [] then (st, [])
      else let (line, rest) = fgets (INI_MAX_LINE - 1) s;
               (st, call) = ini_step line st;
               (st, calls) = (if stop \<and> ini_error st \<noteq> 0 then (st, [])
                              else ini_parse_stream stop rest st)
           in (st, (case call of None \<Rightarrow> calls | Some c \<Rightarrow> c # calls)))"
  by pat_completeness auto
termination
proof (relation "measure (\<lambda>(stop, s, st). length s)", goal_cases)
  case (2 stop s st x line rest)
  then have "rest = snd (fgets (Suc 198) s)" by (simp add: INI_MAX_LINE_def) (metis snd_conv)
  then show ?case using fgets_shorter [of s 198] 2(1) by simp
qed simp

declare ini_parse_stream.simps [simp del]

section \<open>INIReader\<close>

record ini_reader =
  ini_values :: "(string, string) smap"
  ini_reader_error :: int

definition MakeKey :: "string \<Rightarrow> string \<Rightarrow> string" where
  "MakeKey section_name name = lower_string (section_name @ ''='' @ name)"

definition ValueHandler ::
    "(string \<times> string \<times> string) \<Rightarrow> (string, string) smap \<Rightarrow> (string, string) smap" where
  "ValueHandler c m =
     (case c of (section_name, name, v) \<Rightarrow>
        let key = MakeKey section_name name;
            old = (case smap_find m key of None \<Rightarrow> [] | Some w \<Rightarrow> w)
        in smap_put key ((if old = [] then [] else old @ [newline]) @ v) m)"

text \<open>\<open>INIReader(filename)\<close>; a file that cannot be opened is \<open>None\<close>.\<close>

definition new_ini_reader :: "string option \<Rightarrow> ini_reader" where
  "new_ini_reader file =
     (case file of
        None \<Rightarrow> \<lparr>ini_values = [], ini_reader_error = -1\<rparr>
      | Some s \<Rightarrow> (case ini_parse_stream INI_STOP_ON_FIRST_ERROR s ini_init of
          (st, calls) \<Rightarrow> \<lparr>ini_values = fold ValueHandler calls [],
                          ini_reader_error = int (ini_error st)\<rparr>))"

definition ParseError :: "ini_reader \<Rightarrow> int" where
  "ParseError r = ini_reader_error r"

definition ini_Get :: "ini_reader \<Rightarrow> string \<Rightarrow> string \<Rightarrow> string \<Rightarrow> string" where
  "ini_Get r section_name name default_value =
     (case smap_find (ini_values r) (MakeKey section_name name) of
        Some v \<Rightarrow> v | None \<Rightarrow> default_value)"

definition GetInteger :: "ini_reader \<Rightarrow> string \<Rightarrow> string \<Rightarrow> int \<Rightarrow> int" where
  "GetInteger r section_name name default_value =
     (let res = strtol 0 (ini_Get r section_name name [])
      in if 0 < st_consumed res then st_value res else default_value)"

definition GetBoolean :: "ini_reader \<Rightarrow> string \<Rightarrow> string \<Rightarrow> bool \<Rightarrow> bool" where
  "GetBoolean r section_name name default_value =
     (let valstr = lower_string (ini_Get r section_name name [])
      in if valstr = ''true'' \<or> valstr = ''yes'' \<or> valstr = ''on'' \<or> valstr = ''1'' then True
         else if valstr = ''false'' \<or> valstr = ''no'' \<or> valstr = ''off'' \<or> valstr = ''0'' then False
         else default_value)"

section \<open>Lookups\<close>

lemma smap_ok_ValueHandler [inv_intros]: "smap_ok m \<Longrightarrow> smap_ok (ValueHandler c m)"
  by (auto simp: ValueHandler_def Let_def std_map.ok_put split: prod.split)

lemma smap_ok_fold_ValueHandler: "smap_ok m \<Longrightarrow> smap_ok (fold ValueHandler cs m)"
  by (induction cs arbitrary: m) (simp_all add: smap_ok_ValueHandler)

lemma ini_values_ok: "smap_ok (ini_values (new_ini_reader file))"
  by (auto simp: new_ini_reader_def smap_ok_fold_ValueHandler split: option.split prod.split)

text \<open>Looking up does not depend on the case of section and name.\<close>

lemma ini_Get_case:
  "lower_string s = lower_string s' \<Longrightarrow> lower_string n = lower_string n' \<Longrightarrow>
   ini_Get r s n d = ini_Get r s' n' d"
  by (simp add: ini_Get_def MakeKey_def lower_string_def)

lemma ValueHandler_find:
  "smap_ok m \<Longrightarrow> smap_find (ValueHandler (s, n, v) m) k =
     (if k = MakeKey s n
      then Some ((case smap_find m k of None \<Rightarrow> [] | Some [] \<Rightarrow> [] | Some old \<Rightarrow> old @ [newline]) @ v)
      else smap_find m k)"
  by (auto simp: ValueHandler_def Let_def std_map.find_put split: option.split list.split)

lemma ValueHandler_fresh:
  "smap_ok m \<Longrightarrow> smap_find m (MakeKey s n) = None \<Longrightarrow>
   smap_find (ValueHandler (s, n, v) m) = (smap_find m)(MakeKey s n \<mapsto> v)"
  by (auto simp: ValueHandler_find fun_eq_iff)

section \<open>Reading back a printed configuration\<close>

text \<open>The text of a configuration: \<open>[section]\<close> lines and \<open>name=value\<close> lines.\<close>

datatype ini_item = Section string | Pair string string

fun render_item :: "ini_item \<Rightarrow> string" where
  "render_item (Section s) = ''['' @ s @ '']'' @ [newline]"
| "render_item (Pair n v) = n @ ''='' @ v @ [newline]"

definition render_ini :: "ini_item list \<Rightarrow> string" where
  "render_ini items = concat (map render_item items)"

text \<open>
  Plain words: no white space, no characters the parser gives a meaning to, short enough for a
  line and for the section buffer.
\<close>

definition plain_char :: "char \<Rightarrow> bool" where
  "plain_char c \<longleftrightarrow> \<not> is_space c \<and> c \<noteq> CHR 0x00 \<and> c \<noteq> CHR '';'' \<and> c \<noteq> CHR ''#'' \<and> c \<noteq> CHR ''[''
     \<and> c \<noteq> CHR '']'' \<and> c \<noteq> CHR ''='' \<and> c \<noteq> CHR '':'' \<and> c \<noteq> CHR 0xEF"

fun item_ok :: "ini_item \<Rightarrow> bool" where
  "item_ok (Section s) \<longleftrightarrow> list_all plain_char s \<and> length s < 50"
| "item_ok (Pair n v) \<longleftrightarrow> list_all plain_char n \<and> list_all plain_char v \<and> n \<noteq> [] \<and>
     length n + length v < 190"

fun item_calls :: "string \<Rightarrow> ini_item list \<Rightarrow> (string \<times> string \<times> string) list" where
  "item_calls sec [] = []"
| "item_calls sec (Section s # items) = item_calls s items"
| "item_calls sec (Pair n v # items) = (sec, n, v) # item_calls sec items"

lemma newline_space [simp]: "is_space newline"
  by (simp add: is_space_def newline_def)

lemma not_plain_newline: "\<not> plain_char newline"
  by (simp add: plain_char_def)

lemma plain_not_newline: "list_all plain_char s \<Longrightarrow> newline \<notin> set s"
  unfolding list_all_iff using not_plain_newline by blast

lemma fgets_line: "newline \<notin> set s \<Longrightarrow> length s < n \<Longrightarrow> fgets n (s @ newline # rest) = (s @ [newline], rest)"
proof (induction s arbitrary: n)
  case Nil
  then show ?case by (cases n) auto
next
  case (Cons c s)
  then show ?case by (cases n) auto
qed

lemma find_chars_plain:
  "list_all plain_char s \<Longrightarrow> \<forall>c \<in> set chars. \<not> plain_char c \<Longrightarrow> \<not> w \<Longrightarrow>
   rest = [] \<or> hd rest \<in> set chars \<Longrightarrow> find_chars_or_comment w chars (s @ rest) = (s, rest)"
proof (induction s arbitrary: w)
  case Nil
  then show ?case by (cases rest) auto
next
  case (Cons c s)
  have "plain_char c" using Cons.prems(1) by simp
  then have "\<not> is_space c" "c \<notin> set chars" using Cons.prems(2) plain_char_def [of c] by blast+
  then show ?case using Cons by auto
qed

lemma rstrip_newline [simp]: "rstrip (s @ [newline]) = rstrip s"
  by (simp add: rstrip_def)

lemma rstrip_id: "s = [] \<or> \<not> is_space (last s) \<Longrightarrow> rstrip s = s"
  by (cases s rule: rev_cases) (auto simp: rstrip_def)

lemma lskip_id: "s = [] \<or> \<not> is_space (hd s) \<Longrightarrow> lskip s = s"
  by (cases s) (auto simp: lskip_def)

lemma skip_bom_id: "hd line \<noteq> CHR 0xEF \<Longrightarrow> skip_bom n line = line"
  unfolding skip_bom_def by (cases line) (simp_all only: list.sel take_Suc_Cons numeral_3_eq_3, simp_all)

lemma no_nul_id: "CHR 0x00 \<notin> set s \<Longrightarrow> takeWhile (\<lambda>c. c \<noteq> CHR 0x00) s = s"
  by (induction s) auto

lemma plain_no_nul: "list_all plain_char s \<Longrightarrow> CHR 0x00 \<notin> set s"
  unfolding list_all_iff plain_char_def by blast

lemma plain_last: "list_all plain_char s \<Longrightarrow> s = [] \<or> \<not> is_space (last s)"
  by (cases s rule: rev_cases) (auto simp: plain_char_def)

lemma plain_hd: "list_all plain_char s \<Longrightarrow> s = [] \<or> \<not> is_space (hd s)"
  by (cases s) (auto simp: plain_char_def)

text \<open>A line that starts with a character other than white space and the byte order mark.\<close>

lemma ini_step_flush:
  assumes "start \<noteq> []" "\<not> is_space (hd start)" "\<not> is_space (last start)" "hd start \<noteq> CHR 0xEF"
    and "CHR 0x00 \<notin> set start"
  shows "ini_step (start @ [newline]) st =
    (let st = st\<lparr>ini_lineno := ini_lineno st + 1\<rparr>
     in case classify_line (ini_prev_name st) False start of
           IniBlank \<Rightarrow> (st, None)
         | IniContinuation v \<Rightarrow> (st, Some (ini_section st, ini_prev_name st, v))
         | IniSection s \<Rightarrow> (st\<lparr>ini_section := strncpy0 s MAX_SECTION, ini_prev_name := []\<rparr>, None)
         | IniPair n v \<Rightarrow> (st\<lparr>ini_prev_name := strncpy0 n MAX_NAME\<rparr>, Some (ini_section st, n, v))
         | IniBad \<Rightarrow> (if ini_error st = 0 then st\<lparr>ini_error := ini_lineno st\<rparr> else st, None))"
proof -
  let ?line = "start @ [newline]"
  have "takeWhile (\<lambda>c. c \<noteq> CHR 0x00) ?line = ?line"
    using assms(5) by (intro no_nul_id) (simp add: newline_def)
  moreover have "skip_bom n ?line = ?line" for n
    using assms(1,4) by (intro skip_bom_id) simp
  moreover have "lskip (rstrip ?line) = start"
    using assms(1-3) by (simp add: rstrip_id lskip_id)
  moreover have "takeWhile is_space ?line = []"
    using assms(1,2) by (cases start) auto
  ultimately show ?thesis unfolding ini_step_def Let_def by simp
qed

lemma ini_step_section:
  assumes "item_ok (Section s)"
  shows "ini_step (render_item (Section s)) st =
    (st\<lparr>ini_lineno := ini_lineno st + 1, ini_section := s, ini_prev_name := []\<rparr>, None)"
proof -
  let ?start = "CHR ''['' # s @ '']''"
  have f: "find_chars_or_comment False '']'' (s @ '']'') = (s, '']'')"
    using assms by (intro find_chars_plain) (auto simp: plain_char_def)
  have cl: "classify_line pn False ?start = IniSection s" for pn
    using f by (simp add: classify_line_def)
  have cp: "strncpy0 s MAX_SECTION = s"
    using assms by (simp add: strncpy0_def MAX_SECTION_def)
  have "ini_step (?start @ [newline]) st =
      (st\<lparr>ini_lineno := ini_lineno st + 1, ini_section := s, ini_prev_name := []\<rparr>, None)"
    using assms plain_no_nul [of s]
    by (subst ini_step_flush) (auto simp: cl cp is_space_def)
  then show ?thesis by simp
qed

lemma ini_step_pair:
  assumes "item_ok (Pair n v)"
  shows "ini_step (render_item (Pair n v)) st =
    (st\<lparr>ini_lineno := ini_lineno st + 1, ini_prev_name := take 49 n\<rparr>, Some (ini_section st, n, v))"
proof -
  let ?start = "n @ CHR ''='' # v"
  have n: "list_all plain_char n" "n \<noteq> []" and v: "list_all plain_char v" using assms by auto
  have f: "find_chars_or_comment False ''=:'' ?start = (n, CHR ''='' # v)"
    using n by (intro find_chars_plain) (auto simp: plain_char_def)
  have g: "find_chars_or_comment False [] v = (v, [])"
    using find_chars_plain [OF v, of "[]" False "[]"] by simp
  have st: "rstrip n = n" "lskip v = v" "rstrip v = v"
    using plain_last [OF n(1)] plain_last [OF v] plain_hd [OF v] by (simp_all add: rstrip_id lskip_id)
  obtain c n' where c: "n = c # n'" using n(2) by (cases n) auto
  have pc: "plain_char c" using n(1) c by simp
  have hd: "\<not> is_space (hd n)" "hd n \<noteq> CHR 0xEF" using pc c by (auto simp: plain_char_def)
  have cl: "classify_line pn False ?start = IniPair n v" for pn
    using f g st pc c unfolding classify_line_def by (simp add: plain_char_def)
  have "\<not> is_space (last ?start)"
    using plain_last [OF v] by (cases "v = []") (auto simp: is_space_def)
  moreover have "CHR 0x00 \<notin> set ?start" using plain_no_nul [OF n(1)] plain_no_nul [OF v] by auto
  ultimately have "ini_step (?start @ [newline]) st =
    (st\<lparr>ini_lineno := ini_lineno st + 1, ini_prev_name := take 49 n\<rparr>, Some (ini_section st, n, v))"
    by (subst ini_step_flush)
      (use n(2) hd in \<open>simp_all only: cl, simp_all add: strncpy0_def MAX_NAME_def\<close>)
  then show ?thesis by simp
qed

lemma fgets_item:
  "item_ok i \<Longrightarrow> fgets (INI_MAX_LINE - 1) (render_item i @ rest) = (render_item i, rest)"
proof (cases i)
  case (Section s)
  assume "item_ok i"
  then show ?thesis
    using Section fgets_line [of "CHR ''['' # s @ '']''" 199 rest] plain_not_newline [of s]
    by (auto simp: INI_MAX_LINE_def newline_def)
next
  case (Pair n v)
  assume "item_ok i"
  then show ?thesis
    using Pair fgets_line [of "n @ CHR ''='' # v" 199 rest] plain_not_newline [of n] plain_not_newline [of v]
    by (auto simp: INI_MAX_LINE_def newline_def)
qed

lemma ini_parse_stream_line:
  assumes "s \<noteq> []" and "fgets (INI_MAX_LINE - 1) s = (line, rest)" and "ini_step line st = (st', call)"
  shows "ini_parse_stream stop s st =
    (let (st'', calls) = (if stop \<and> ini_error st' \<noteq> 0 then (st', []) else ini_parse_stream stop rest st')
     in (st'', (case call of None \<Rightarrow> calls | Some c \<Rightarrow> c # calls)))"
  using assms by (subst ini_parse_stream.simps) simp

text \<open>The state after the line of an item.\<close>

fun item_state :: "ini_item \<Rightarrow> ini_state \<Rightarrow> ini_state" where
  "item_state (Section s) st = st\<lparr>ini_lineno := ini_lineno st + 1, ini_section := s, ini_prev_name := []\<rparr>"
| "item_state (Pair n v) st = st\<lparr>ini_lineno := ini_lineno st + 1, ini_prev_name := take 49 n\<rparr>"

lemma item_state_simps [simp]:
  "ini_lineno (item_state i st) = ini_lineno st + 1" "ini_error (item_state i st) = ini_error st"
  by (cases i; simp)+

lemma fold_item_state:
  "ini_lineno (fold item_state items st) = ini_lineno st + length items"
  "ini_error (fold item_state items st) = ini_error st"
  by (induction items arbitrary: st) auto

text \<open>Good lines are read one after the other, whatever follows them.\<close>

lemma ini_parse_item:
  assumes "item_ok i" and "ini_error st = 0"
  shows "ini_parse_stream stop (render_item i @ rest) st =
    (let (st', calls) = ini_parse_stream stop rest (item_state i st)
     in (st', item_calls (ini_section st) [i] @ calls))"
proof -
  have ne: "render_item i \<noteq> []" by (cases i) auto
  have "ini_step (render_item i) st =
      (item_state i st, (case i of Section s \<Rightarrow> None | Pair n v \<Rightarrow> Some (ini_section st, n, v)))"
    using assms(1) ini_step_section ini_step_pair by (cases i) auto
  from ini_parse_stream_line [OF _ fgets_item [OF assms(1)] this] ne show ?thesis
    by (cases i) (simp_all add: assms(2) Let_def case_prod_beta)
qed

lemma item_calls_Cons:
  "item_calls sec (i # items) = item_calls sec [i] @ item_calls (ini_section (item_state i (st\<lparr>ini_section := sec\<rparr>))) items"
  by (cases i) auto

lemma ini_parse_render:
  "\<forall>i \<in> set items. item_ok i \<Longrightarrow> ini_error st = 0 \<Longrightarrow>
   ini_parse_stream stop (render_ini items @ rest) st =
     (let (st', calls) = ini_parse_stream stop rest (fold item_state items st)
      in (st', item_calls (ini_section st) items @ calls))"
proof (induction items arbitrary: st)
  case Nil
  then show ?case by (simp add: render_ini_def)
next
  case (Cons i items)
  have "ini_parse_stream stop (render_ini items @ rest) (item_state i st) =
     (let (st', calls) = ini_parse_stream stop rest (fold item_state items (item_state i st))
      in (st', item_calls (ini_section (item_state i st)) items @ calls))"
    using Cons by simp
  then show ?case
    using Cons.prems item_calls_Cons [of "ini_section st" i items st]
    by (simp add: render_ini_def ini_parse_item Let_def case_prod_beta)
qed

text \<open>
  A malformed line, a plain word without a separator. The parser built for the server reads
  nothing after it; its line number is the answer.
\<close>

definition malformed_line :: "string \<Rightarrow> bool" where
  "malformed_line w \<longleftrightarrow> list_all plain_char w \<and> w \<noteq> [] \<and> length w < 190"

lemma ini_step_malformed:
  assumes "malformed_line w" and "ini_error st = 0"
  shows "ini_step (w @ [newline]) st =
    (st\<lparr>ini_lineno := ini_lineno st + 1, ini_error := ini_lineno st + 1\<rparr>, None)"
proof -
  obtain c w' where c: "w = c # w'" using assms(1) by (cases w) (auto simp: malformed_line_def)
  have w: "list_all plain_char w" and pc: "plain_char c" using assms(1) c by (auto simp: malformed_line_def)
  have "find_chars_or_comment False ''=:'' (w @ []) = (w, [])"
    using w by (intro find_chars_plain) (auto simp: plain_char_def)
  then have cl: "classify_line pn False w = IniBad" for pn
    using pc c unfolding classify_line_def by (simp add: plain_char_def)
  have "\<not> is_space (hd w)" "hd w \<noteq> CHR 0xEF" using pc c by (auto simp: plain_char_def)
  moreover have "\<not> is_space (last w)" using plain_last [OF w] c by simp
  ultimately show ?thesis
    using plain_no_nul [OF w] assms
    by (subst ini_step_flush) (simp_all add: cl malformed_line_def Let_def)
qed

lemma ini_parse_stops:
  assumes "malformed_line w" and "ini_error st = 0"
  shows "ini_parse_stream True (w @ newline # rest) st =
    (st\<lparr>ini_lineno := ini_lineno st + 1, ini_error := ini_lineno st + 1\<rparr>, [])"
proof -
  have "fgets (INI_MAX_LINE - 1) (w @ newline # rest) = (w @ [newline], rest)"
    using assms(1) plain_not_newline [of w] by (intro fgets_line) (auto simp: malformed_line_def INI_MAX_LINE_def)
  from ini_parse_stream_line [OF _ this ini_step_malformed [OF assms]] show ?thesis by simp
qed

text \<open>
  The two forms of the parser: they agree on files without an error, and otherwise report the
  same line, the stopping form having made the first of the calls.
\<close>

lemma ini_error_kept: "ini_error st \<noteq> 0 \<Longrightarrow> ini_error (fst (ini_step line st)) = ini_error st"
  by (auto simp: ini_step_def Let_def split: ini_line.split)

lemma ini_parse_error_kept:
  "ini_error st \<noteq> 0 \<Longrightarrow> ini_error (fst (ini_parse_stream False s st)) = ini_error st"
proof (induction "False" s st rule: ini_parse_stream.induct)
  case (1 s st)
  obtain line rest where l: "fgets (INI_MAX_LINE - 1) s = (line, rest)" by fastforce
  obtain st' call where c: "ini_step line st = (st', call)" by fastforce
  have "ini_error st' = ini_error st" using ini_error_kept [OF 1(2), of line] c by simp
  then show ?case
    using 1(1) [OF _ l [symmetric] refl c [symmetric] refl] 1(2) ini_parse_stream_line [OF _ l c, of False]
    by (cases "s = []") (auto simp: ini_parse_stream.simps [of _ "[]"] Let_def case_prod_beta)
qed

lemma ini_stop_forms:
  "ini_error (fst (ini_parse_stream True s st)) = ini_error (fst (ini_parse_stream False s st)) \<and>
   (\<exists>rest. snd (ini_parse_stream False s st) = snd (ini_parse_stream True s st) @ rest \<and>
     (ini_error (fst (ini_parse_stream False s st)) = 0 \<longrightarrow> rest = []))"
proof (induction "True" s st rule: ini_parse_stream.induct)
  case (1 s st)
  show ?case
  proof (cases "s = []")
    case True
    then show ?thesis by (simp add: ini_parse_stream.simps)
  next
    case False
    obtain line rest where l: "fgets (INI_MAX_LINE - 1) s = (line, rest)" by fastforce
    obtain st' call where c: "ini_step line st = (st', call)" by fastforce
    note unfold = ini_parse_stream_line [OF False l c]
    show ?thesis
    proof (cases "ini_error st' = 0")
      case True
      then show ?thesis
        using 1 [OF False l [symmetric] refl c [symmetric] refl]
        by (auto simp: unfold Let_def case_prod_beta split: option.split)
    next
      case error: False
      then show ?thesis
        by (auto simp: unfold Let_def case_prod_beta ini_parse_error_kept split: option.split)
    qed
  qed
qed

definition call_binding :: "string \<times> string \<times> string \<Rightarrow> string \<times> string" where
  "call_binding c = (case c of (s, n, v) \<Rightarrow> (MakeKey s n, v))"

lemma fold_ValueHandler_find:
  "smap_ok m \<Longrightarrow> distinct (map (fst \<circ> call_binding) calls) \<Longrightarrow>
   \<forall>c \<in> set calls. smap_find m (fst (call_binding c)) = None \<Longrightarrow>
   smap_find (fold ValueHandler calls m) = smap_find m ++ map_of (map call_binding calls)"
proof (induction calls arbitrary: m)
  case (Cons c calls)
  obtain s n v where c: "c = (s, n, v)" by (cases c)
  have binding: "call_binding c = (MakeKey s n, v)" by (simp add: c call_binding_def)
  have key: "fst (call_binding c) = MakeKey s n" by (simp add: c call_binding_def)
  have find: "smap_find (ValueHandler c m) = (smap_find m)(MakeKey s n \<mapsto> v)"
    using Cons.prems key c by (simp add: ValueHandler_fresh)
  have fresh: "\<forall>x \<in> set calls. smap_find (ValueHandler c m) (fst (call_binding x)) = None"
  proof
    fix x assume x: "x \<in> set calls"
    then have "fst (call_binding x) \<noteq> MakeKey s n"
      using Cons.prems(2) key by (simp add: image_iff) metis
    then show "smap_find (ValueHandler c m) (fst (call_binding x)) = None"
      using x Cons.prems(3) by (simp add: find)
  qed
  have "smap_find (fold ValueHandler calls (ValueHandler c m)) =
      smap_find (ValueHandler c m) ++ map_of (map call_binding calls)"
    using Cons.prems by (intro Cons.IH fresh) (auto simp: smap_ok_ValueHandler)
  moreover have "map_of (map call_binding calls) (MakeKey s n) = None"
    using Cons.prems(2) key by (auto simp: map_of_eq_None_iff)
  ultimately show ?case
    by (simp add: find [unfolded c] binding [unfolded c] c fun_eq_iff map_add_def split: option.split)
qed simp

lemma ini_roundtrip:
  assumes "\<forall>i \<in> set items. item_ok i" and "distinct (map (fst \<circ> call_binding) (item_calls [] items))"
  shows "ParseError (new_ini_reader (Some (render_ini items))) = 0 \<and>
    ini_Get (new_ini_reader (Some (render_ini items))) s n d =
      (case map_of (map call_binding (item_calls [] items)) (MakeKey s n) of Some v \<Rightarrow> v | None \<Rightarrow> d)"
  using ini_parse_render [OF assms(1), of ini_init _ "[]"]
    fold_ValueHandler_find [OF smap_ok_Nil assms(2)]
  by (simp add: new_ini_reader_def ParseError_def ini_Get_def ini_init_def case_prod_beta
      ini_parse_stream.simps [of _ "[]"] fold_item_state
      map_add_def smap_find_Nil [abs_def] split: option.split)

text \<open>With a malformed line in it, the file reads as the lines before that line.\<close>

lemma ini_malformed_reads:
  assumes "\<forall>i \<in> set items. item_ok i" and "malformed_line w"
  shows "new_ini_reader (Some (render_ini items @ w @ newline # rest)) =
    (new_ini_reader (Some (render_ini items)))\<lparr>ini_reader_error := int (length items) + 1\<rparr>"
  using ini_parse_render [OF assms(1), of ini_init _ "[]"]
    ini_parse_render [OF assms(1), of ini_init True "w @ newline # rest"]
  by (simp add: new_ini_reader_def INI_STOP_ON_FIRST_ERROR_def ini_parse_stops [OF assms(2)]
      fold_item_state ini_parse_stream.simps [of _ "[]"] ini_init_def)

lemma ini_malformed_roundtrip:
  assumes "\<forall>i \<in> set items. item_ok i" and "distinct (map (fst \<circ> call_binding) (item_calls [] items))"
    and "malformed_line w"
  shows "ParseError (new_ini_reader (Some (render_ini items @ w @ newline # rest))) = int (length items) + 1 \<and>
    ini_Get (new_ini_reader (Some (render_ini items @ w @ newline # rest))) s n d =
      (case map_of (map call_binding (item_calls [] items)) (MakeKey s n) of Some v \<Rightarrow> v | None \<Rightarrow> d)"
  using ini_roundtrip [OF assms(1,2), of s n d]
  by (simp add: ini_malformed_reads [OF assms(1,3)] ParseError_def ini_Get_def)

section \<open>Typed reads\<close>

lemma GetInteger_printed:
  assumes "smap_find (ini_values r) (MakeKey s n) = Some (string_of_nat v)" and "0 < v" "v < 2 ^ 63"
    and "hd (string_of_nat v) \<noteq> CHR ''0''"
  shows "GetInteger r s n d = int v"
proof -
  obtain c t where ct: "string_of_nat v = c # t" by (cases "string_of_nat v") auto
  have digs: "\<forall>x \<in> set (string_of_nat v). is_digit x" using string_of_nat_digits by blast
  have c: "is_digit c" using digs ct by simp
  then have c': "\<not> is_space c" "c \<noteq> CHR ''-''" "c \<noteq> CHR ''+''"
    by (auto simp: is_digit_not_space is_digit_def)
  have "base_prefix 0 (c # t) = (10, 0)"
    using assms(4) ct by (auto simp: base_prefix_def split: list.splits)
  then have "strtol 0 (string_of_nat v) = strtol 10 (string_of_nat v)"
    using c' by (simp add: ct strtol_def Let_def base_prefix_def)
  then show ?thesis
    using assms(1,3) by (simp add: GetInteger_def ini_Get_def strtol_string_of_nat)
qed

lemma GetBoolean_words:
  "smap_find (ini_values r) (MakeKey s n) = Some w \<Longrightarrow> lower_string w \<in> {''true'', ''yes'', ''on'', ''1''} \<Longrightarrow>
   GetBoolean r s n d"
  by (auto simp: GetBoolean_def ini_Get_def Let_def)

end
