(* ===== verification/GlobalConfig.thy ===== *)
theory GlobalConfig
  imports IniReader
begin

text \<open>
  The global configuration (GlobalConfig.hpp, GlobalConfig.cpp): the defaults, the validity
  checks of the enumerated settings, reading an INI file over the current values, and printing.
\<close>

section \<open>Data\<close>

record global_config =
  grpc_server_unix_socket :: string
  grpc_server_ip :: string
  grpc_server_port :: i32
  grpc_log_file_path :: string
  grpc_log_file_name :: string
  device_mgd_unix_socket :: string
  device_mgd_ip :: string
  device_mgd_port :: i32
  device_user_name :: string
  device_password :: string
  mqtt_broker_ip :: string
  mqtt_broker_port :: i32
  udp_server_module :: bool
  udp_server_ip :: string
  udp_server_port :: i32
  jsd_init_registration :: bool
  jsd_unix_socket :: string
  jsd_num_of_retries :: i32
  jsd_json_file_path :: string
  jsd_json_file_name :: string
  subscribe_topic_name :: string
  system_mode :: string
  system_file_path :: string
  system_file_name :: string
  running_mode :: string
  validate_ocpaths :: bool
  ocpath_file_path :: string
  ocpath_file_name :: string

definition TOPIC_INTERNAL_SUB_ID :: string where
  "TOPIC_INTERNAL_SUB_ID = ''internal-subscription-id''"

definition TOPIC_PATH :: string where
  "TOPIC_PATH = ''path''"

definition SYSTEM_MODE_NULL :: string where
  "SYSTEM_MODE_NULL = ''null''"

definition SYSTEM_MODE_FILE :: string where
  "SYSTEM_MODE_FILE = ''file''"

definition SYSTEM_MODE_PROC :: string where
  "SYSTEM_MODE_PROC = ''proc''"

definition RUNNING_MODE_ON_BOX :: string where
  "RUNNING_MODE_ON_BOX = ''on-box''"

definition RUNNING_MODE_OFF_BOX :: string where
  "RUNNING_MODE_OFF_BOX = ''off-box''"

text \<open>The constructor.\<close>

definition default_config :: global_config where
  "default_config =
     \<lparr>grpc_server_unix_socket = ''/var/run/japi_na_grpcd'',
      grpc_server_ip = ''0.0.0.0'',
      grpc_server_port = 50051,
      grpc_log_file_path = ''/var/log'',
      grpc_log_file_name = ''agent_server.log'',
      device_mgd_unix_socket = ''/var/run/japi_mgd'',
      device_mgd_ip = ''localhost'',
      device_mgd_port = 50050,
      device_user_name = ''regress'',
      device_password = ''MaRtInI'',
      mqtt_broker_ip = ''127.0.0.1'',
      mqtt_broker_port = 1883,
      udp_server_module = False,
      udp_server_ip = ''0.0.0.0'',
      udp_server_port = 10000,
      jsd_init_registration = False,
      jsd_unix_socket = ''/var/run/japi_jsd'',
      jsd_num_of_retries = 5,
      jsd_json_file_path = ''/tmp'',
      jsd_json_file_name = ''agent.json'',
      subscribe_topic_name = TOPIC_PATH,
      system_mode = SYSTEM_MODE_PROC,
      system_file_path = ''/var/log'',
      system_file_name = ''sim_system.log'',
      running_mode = RUNNING_MODE_OFF_BOX,
      validate_ocpaths = False,
      ocpath_file_path = ''/tmp'',
      ocpath_file_name = ''ocpaths.json''\<rparr>"

section \<open>Checks\<close>

definition is_valid_subscription_topic_name :: "string \<Rightarrow> bool" where
  "is_valid_subscription_topic_name sub_topic \<longleftrightarrow>
     sub_topic = TOPIC_INTERNAL_SUB_ID \<or> sub_topic = TOPIC_PATH"

definition is_valid_system_mode :: "string \<Rightarrow> bool" where
  "is_valid_system_mode mode \<longleftrightarrow>
     mode = SYSTEM_MODE_NULL \<or> mode = SYSTEM_MODE_FILE \<or> mode = SYSTEM_MODE_PROC"

definition is_valid_running_mode :: "string \<Rightarrow> bool" where
  "is_valid_running_mode mode \<longleftrightarrow> mode = RUNNING_MODE_ON_BOX \<or> mode = RUNNING_MODE_OFF_BOX"

section \<open>Printing\<close>

text \<open>The lines of \<open>operator<<\<close>.\<close>

definition config_lines :: "global_config \<Rightarrow> string list" where
  "config_lines gc =
     [''GLOBAL CONFIGURATION:'', ''--------------------'',
      ''Telemetry GRPC server unix s : '' @ grpc_server_unix_socket gc,
      ''Telemetry GRPC server ip     : '' @ grpc_server_ip gc,
      ''Telemetry GRPC server port   : '' @ string_of_int (sint (grpc_server_port gc)),
      ''Telemetry GRPC log file path : '' @ grpc_log_file_path gc,
      ''Telemetry GRPC log file name : '' @ grpc_log_file_name gc,
      ''Device MGD Unix socket       : '' @ device_mgd_unix_socket gc,
      ''Device MGD ip                : '' @ device_mgd_ip gc,
      ''Device MGD port              : '' @ string_of_int (sint (device_mgd_port gc)),
      ''Device Username              : '' @ device_user_name gc,
      ''Device Password              : '' @ device_password gc,
      ''MQTT broker ip               : '' @ mqtt_broker_ip gc,
      ''MQTT broker port             : '' @ string_of_int (sint (mqtt_broker_port gc)),
      ''Invoke UDP server            : '' @ string_of_bool (udp_server_module gc),
      ''UDP server ip                : '' @ udp_server_ip gc,
      ''UDP server port              : '' @ string_of_int (sint (udp_server_port gc)),
      ''JSD init registration        : '' @ string_of_bool (jsd_init_registration gc)] @
     (if jsd_init_registration gc then
     [''JSD unix socket              : '' @ jsd_unix_socket gc,
      ''JSD number of retries        : '' @ string_of_int (sint (jsd_num_of_retries gc)),
      ''JSD json file path           : '' @ jsd_json_file_path gc,
      ''JSD json file name           : '' @ jsd_json_file_name gc] else []) @
     [''Subscribe topic name         : '' @ subscribe_topic_name gc,
      ''System Mode                  : '' @ system_mode gc] @
     (if system_mode gc = SYSTEM_MODE_FILE then
     [''System file path             : '' @ system_file_path gc,
      ''System file name             : '' @ system_file_name gc] else []) @
     [''Running Mode                 : '' @ running_mode gc,
      ''Validate OCPaths             : '' @ string_of_bool (validate_ocpaths gc)] @
     (if validate_ocpaths gc then
     [''OCPath json file path        : '' @ ocpath_file_path gc,
      ''OCPath json file name        : '' @ ocpath_file_name gc] else []) @ [[]]"

section \<open>Parsing\<close>

text \<open>
  \<open>parse\<close> by section, in the order of the code; each setting defaults to its current value.
  \<open>(int)\<close> truncates the \<open>long\<close> of \<open>GetInteger\<close>.
\<close>

definition parse_grpc :: "ini_reader \<Rightarrow> global_config \<Rightarrow> global_config" where
  "parse_grpc r gc = gc
     \<lparr>grpc_server_unix_socket := ini_Get r ''telemetry-grpc'' ''grpc_server_unix_socket'' (grpc_server_unix_socket gc),
      grpc_server_ip := ini_Get r ''telemetry-grpc'' ''grpc_server_ip'' (grpc_server_ip gc),
      grpc_server_port := of_int (GetInteger r ''telemetry-grpc'' ''grpc_server_port'' (sint (grpc_server_port gc))),
      grpc_log_file_path := ini_Get r ''telemetry-grpc'' ''grpc_log_file_path'' (grpc_log_file_path gc),
      grpc_log_file_name := ini_Get r ''telemetry-grpc'' ''grpc_log_file_name'' (grpc_log_file_name gc)\<rparr>"

definition parse_device :: "ini_reader \<Rightarrow> global_config \<Rightarrow> global_config" where
  "parse_device r gc = gc
     \<lparr>device_mgd_unix_socket := ini_Get r ''junos-device'' ''device_mgd_unix_socket'' (device_mgd_unix_socket gc),
      device_mgd_ip := ini_Get r ''junos-device'' ''device_mgd_ip'' (device_mgd_ip gc),
      device_mgd_port := of_int (GetInteger r ''junos-device'' ''device_mgd_port'' (sint (device_mgd_port gc))),
      device_user_name := ini_Get r ''junos-device'' ''device_user_name'' (device_user_name gc),
      device_password := ini_Get r ''junos-device'' ''device_password'' (device_password gc)\<rparr>"

definition parse_mqtt :: "ini_reader \<Rightarrow> global_config \<Rightarrow> global_config" where
  "parse_mqtt r gc = gc
     \<lparr>mqtt_broker_ip := ini_Get r ''mqtt'' ''mqtt_broker_ip'' (mqtt_broker_ip gc),
      mqtt_broker_port := of_int (GetInteger r ''mqtt'' ''mqtt_broker_port'' (sint (mqtt_broker_port gc)))\<rparr>"

definition parse_udp :: "ini_reader \<Rightarrow> global_config \<Rightarrow> global_config" where
  "parse_udp r gc = gc
     \<lparr>udp_server_module := GetBoolean r ''udp'' ''udp_server_module'' (udp_server_module gc),
      udp_server_ip := ini_Get r ''udp'' ''udp_server_ip'' (udp_server_ip gc),
      udp_server_port := of_int (GetInteger r ''udp'' ''udp_server_port'' (sint (udp_server_port gc)))\<rparr>"

definition parse_jsd :: "ini_reader \<Rightarrow> global_config \<Rightarrow> global_config" where
  "parse_jsd r gc = gc
     \<lparr>jsd_init_registration := GetBoolean r ''jsd'' ''init_registration'' (jsd_init_registration gc),
      jsd_unix_socket := ini_Get r ''jsd'' ''jsd_unix_socket'' (jsd_unix_socket gc),
      jsd_num_of_retries := of_int (GetInteger r ''jsd'' ''number_of_retries'' (sint (jsd_num_of_retries gc))),
      jsd_json_file_path := ini_Get r ''jsd'' ''json_file_path'' (jsd_json_file_path gc),
      jsd_json_file_name := ini_Get r ''jsd'' ''json_file_name'' (jsd_json_file_name gc)\<rparr>"

definition parse_topic :: "ini_reader \<Rightarrow> global_config \<Rightarrow> global_config" where
  "parse_topic r gc =
     (let v = ini_Get r ''other-knobs'' ''subscribe_topic_name'' (subscribe_topic_name gc)
      in if is_valid_subscription_topic_name v then gc\<lparr>subscribe_topic_name := v\<rparr> else gc)"

definition parse_system_mode :: "ini_reader \<Rightarrow> global_config \<Rightarrow> global_config" where
  "parse_system_mode r gc =
     (let v = ini_Get r ''other-knobs'' ''system_mode'' (system_mode gc);
          gc = (if is_valid_system_mode v then gc\<lparr>system_mode := v\<rparr> else gc)
      in if system_mode gc = SYSTEM_MODE_FILE then gc
           \<lparr>system_file_path := ini_Get r ''other-knobs'' ''system_file_path'' (system_file_path gc),
            system_file_name := ini_Get r ''other-knobs'' ''system_file_name'' (system_file_name gc)\<rparr>
         else gc)"

definition parse_running_mode :: "ini_reader \<Rightarrow> global_config \<Rightarrow> global_config" where
  "parse_running_mode r gc =
     (let v = ini_Get r ''other-knobs'' ''running_mode'' (running_mode gc)
      in if is_valid_running_mode v then gc\<lparr>running_mode := v\<rparr> else gc)"

definition parse_ocpaths :: "ini_reader \<Rightarrow> global_config \<Rightarrow> global_config" where
  "parse_ocpaths r gc = gc
     \<lparr>validate_ocpaths := GetBoolean r ''other-knobs'' ''validate_ocpaths'' (validate_ocpaths gc),
      ocpath_file_path := ini_Get r ''other-knobs'' ''ocpath_file_path'' (ocpath_file_path gc),
      ocpath_file_name := ini_Get r ''other-knobs'' ''ocpath_file_name'' (ocpath_file_name gc)\<rparr>"

definition parse_reader :: "ini_reader \<Rightarrow> global_config \<Rightarrow> global_config" where
  "parse_reader r gc =
     parse_ocpaths r (parse_running_mode r (parse_system_mode r (parse_topic r (parse_jsd r
       (parse_udp r (parse_mqtt r (parse_device r (parse_grpc r gc))))))))"

text \<open>\<open>parse\<close>: the file contents (\<open>None\<close> when it cannot be opened), the result and the lines printed.\<close>

definition config_parse ::
    "string \<Rightarrow> string option \<Rightarrow> global_config \<Rightarrow> bool \<times> global_config \<times> string list" where
  "config_parse filename file gc =
     (let r = new_ini_reader file
      in if ParseError r < 0 then (False, gc, [''Can't load INI file = '' @ filename])
         else let gc = parse_reader r gc in (True, gc, config_lines gc))"

section \<open>The invariant of the enumerated settings\<close>

definition config_ok :: "global_config \<Rightarrow> bool" where
  "config_ok gc \<longleftrightarrow> is_valid_subscription_topic_name (subscribe_topic_name gc) \<and>
     is_valid_system_mode (system_mode gc) \<and> is_valid_running_mode (running_mode gc)"

lemma config_ok_default [simp]: "config_ok default_config"
  by (simp add: config_ok_def default_config_def is_valid_subscription_topic_name_def
      is_valid_system_mode_def is_valid_running_mode_def)

lemma parse_sections_frame [frame_simps]:
  "config_ok (parse_grpc r gc) = config_ok gc"
  "config_ok (parse_device r gc) = config_ok gc"
  "config_ok (parse_mqtt r gc) = config_ok gc"
  "config_ok (parse_udp r gc) = config_ok gc"
  "config_ok (parse_jsd r gc) = config_ok gc"
  "config_ok (parse_ocpaths r gc) = config_ok gc"
  by (simp_all add: config_ok_def parse_grpc_def parse_device_def parse_mqtt_def parse_udp_def
      parse_jsd_def parse_ocpaths_def)

lemma parse_modes_ok [inv_intros]:
  "config_ok gc \<Longrightarrow> config_ok (parse_topic r gc)"
  "config_ok gc \<Longrightarrow> config_ok (parse_system_mode r gc)"
  "config_ok gc \<Longrightarrow> config_ok (parse_running_mode r gc)"
  by (auto simp: config_ok_def parse_topic_def parse_system_mode_def parse_running_mode_def Let_def
      is_valid_system_mode_def [of SYSTEM_MODE_FILE])

lemma config_parse_ok: "config_ok gc \<Longrightarrow> config_parse f file gc = (ok, gc', out) \<Longrightarrow> config_ok gc'"
  by (auto simp: config_parse_def Let_def parse_reader_def frame_simps parse_modes_ok split: if_splits)

lemma config_parse_missing: "config_parse f None gc = (False, gc, [''Can't load INI file = '' @ f])"
  by (simp add: config_parse_def new_ini_reader_def ParseError_def)

lemma config_parse_found: "fst (config_parse f (Some text_of) gc)"
  by (simp add: config_parse_def new_ini_reader_def ParseError_def Let_def case_prod_beta)

text \<open>
  A file with a malformed line is accepted, and reads as if it ended before that line: \<open>parse\<close>
  tests only for a file that cannot be opened.
\<close>

lemma reads_ignore_error [simp]:
  "ini_Get (r\<lparr>ini_reader_error := e\<rparr>) = ini_Get r"
  "GetInteger (r\<lparr>ini_reader_error := e\<rparr>) = GetInteger r"
  "GetBoolean (r\<lparr>ini_reader_error := e\<rparr>) = GetBoolean r"
  by (simp_all add: fun_eq_iff ini_Get_def GetInteger_def GetBoolean_def)

lemma sections_ignore_error [simp]:
  "parse_grpc (r\<lparr>ini_reader_error := e\<rparr>) = parse_grpc r"
  "parse_device (r\<lparr>ini_reader_error := e\<rparr>) = parse_device r"
  "parse_mqtt (r\<lparr>ini_reader_error := e\<rparr>) = parse_mqtt r"
  "parse_udp (r\<lparr>ini_reader_error := e\<rparr>) = parse_udp r"
  "parse_jsd (r\<lparr>ini_reader_error := e\<rparr>) = parse_jsd r"
  "parse_topic (r\<lparr>ini_reader_error := e\<rparr>) = parse_topic r"
  "parse_system_mode (r\<lparr>ini_reader_error := e\<rparr>) = parse_system_mode r"
  "parse_running_mode (r\<lparr>ini_reader_error := e\<rparr>) = parse_running_mode r"
  "parse_ocpaths (r\<lparr>ini_reader_error := e\<rparr>) = parse_ocpaths r"
  by (rule ext, simp only: parse_grpc_def parse_device_def parse_mqtt_def parse_udp_def parse_jsd_def
      parse_topic_def parse_system_mode_def parse_running_mode_def parse_ocpaths_def reads_ignore_error)+

lemma parse_reader_error [simp]: "parse_reader (r\<lparr>ini_reader_error := e\<rparr>) gc = parse_reader r gc"
  by (simp only: parse_reader_def sections_ignore_error)

lemma config_parse_malformed:
  "\<forall>i \<in> set items. item_ok i \<Longrightarrow> malformed_line w \<Longrightarrow>
   config_parse f (Some (render_ini items @ w @ newline # rest)) gc =
   config_parse f (Some (render_ini items)) gc"
  by (simp add: config_parse_def ini_malformed_reads ParseError_def)
    (simp add: new_ini_reader_def case_prod_beta)

text \<open>A reader without values leaves a configuration with valid settings as it is.\<close>

lemma GetInteger_absent: "ini_values r = [] \<Longrightarrow> GetInteger r s n d = d"
  by (simp add: GetInteger_def ini_Get_def strtol_def base_prefix_def)

lemma GetBoolean_absent: "ini_values r = [] \<Longrightarrow> GetBoolean r s n d = d"
  by (simp add: GetBoolean_def ini_Get_def lower_string_def)

lemma Get_absent: "ini_values r = [] \<Longrightarrow> ini_Get r s n d = d"
  by (simp add: ini_Get_def)

lemma parse_reader_absent: "ini_values r = [] \<Longrightarrow> parse_reader r gc = gc"
  by (simp add: parse_reader_def parse_grpc_def parse_device_def parse_mqtt_def parse_udp_def
      parse_jsd_def parse_ocpaths_def parse_topic_def parse_system_mode_def parse_running_mode_def
      Get_absent GetInteger_absent GetBoolean_absent Let_def)

text \<open>What a single setting reads after \<open>parse\<close>.\<close>

lemma parse_reader_ports:
  "grpc_server_port (parse_reader r gc) =
     of_int (GetInteger r ''telemetry-grpc'' ''grpc_server_port'' (sint (grpc_server_port gc)))"
  "udp_server_module (parse_reader r gc) =
     GetBoolean r ''udp'' ''udp_server_module'' (udp_server_module gc)"
  by (simp_all add: parse_reader_def parse_grpc_def parse_device_def parse_mqtt_def parse_udp_def
      parse_jsd_def parse_ocpaths_def parse_topic_def parse_system_mode_def parse_running_mode_def
      Let_def)

end
