(* ===== verification/MgdServer.thy ===== *)
theory MgdServer
  imports StdMap ServerLog
begin

text \<open>
  The simulated management daemon (mgd_server/MgdServer.hpp, MgdServer.cpp): the ephemeral
  configuration data base, the login check and the registration service, and the messages of
  protos/mgd_service.proto, authentication_service.proto and registration_service.proto that
  they exchange. The text a request is logged with is the parameter \<open>show\<close>.
\<close>

section \<open>Messages\<close>

datatype config_command = UPDATE_CONFIG | REPLACE_CONFIG | DELETE_CONFIG

datatype response_type =
  RpcSuccess | RpcNok | UnsupportedPath | InvalidPath | InvalidConfiguration | UnsupportedEncoding

fun command_code :: "config_command \<Rightarrow> nat" where
  "command_code UPDATE_CONFIG = 0"
| "command_code REPLACE_CONFIG = 1"
| "command_code DELETE_CONFIG = 2"

fun response_code :: "response_type \<Rightarrow> nat" where
  "response_code RpcSuccess = 0"
| "response_code RpcNok = 1"
| "response_code UnsupportedPath = 2"
| "response_code InvalidPath = 3"
| "response_code InvalidConfiguration = 4"
| "response_code UnsupportedEncoding = 5"

record config_operation =
  co_operation_id :: string
  co_operation :: config_command
  co_path :: string
  co_json_config :: string

record edit_request =
  er_request_id :: u64
  er_operations :: "config_operation list"
  er_instance_name :: string
  er_enable_validation :: bool

record edit_reply =
  ep_operation_id :: string
  ep_status :: response_type
  ep_message :: string

record edit_response =
  es_request_id :: u64
  es_response :: "edit_reply list"

record get_request =
  gr_request_id :: u64
  gr_encoding_json :: bool
  gr_requests :: "(string \<times> string) list"
  gr_instance_name :: string
  gr_merge_view :: bool

record get_reply =
  gp_operation_id :: string
  gp_path :: string
  gp_value :: string
  gp_status :: response_type
  gp_message :: string

record get_response =
  gs_request_id :: u64
  gs_response :: "get_reply list"

text \<open>A \<open>grpc::Status\<close>: a code, 0 for OK, and a message.\<close>

record grpc_status =
  status_code :: nat
  status_message :: string

definition status_OK :: grpc_status where
  "status_OK = \<lparr>status_code = 0, status_message = []\<rparr>"

definition status_CANCELLED :: grpc_status where
  "status_CANCELLED = \<lparr>status_code = 1, status_message = []\<rparr>"

definition status_ok :: "grpc_status \<Rightarrow> bool" where
  "status_ok s \<longleftrightarrow> status_code s = 0"

section \<open>The ephemeral configuration\<close>

text \<open>An entry is a pointer, null (\<open>None\<close>) when \<open>operator[]\<close> created it.\<close>

record mgd_state =
  mgd_log :: server_log
  eph_config_db :: "(u64, config_operation option) smap"

definition new_mgd :: "server_log \<Rightarrow> mgd_state" where
  "new_mgd l = \<lparr>mgd_log = l, eph_config_db = []\<rparr>"

definition mgd_write :: "string \<Rightarrow> mgd_state \<Rightarrow> mgd_state" where
  "mgd_write m s = s\<lparr>mgd_log := log_write m False (mgd_log s)\<rparr>"

definition EditEphemeralConfig ::
    "(edit_request \<Rightarrow> string) \<Rightarrow> edit_request \<Rightarrow> mgd_state \<Rightarrow>
     (grpc_status \<times> edit_response \<times> mgd_state) res" where
  "EditEphemeralConfig show req s =
     (let s = mgd_write (show req) s;
          request_id = er_request_id req
      in case er_operations req of
           [] \<Rightarrow> Inl OutOfRange
         | cmd # _ \<Rightarrow>
             (let s = (if co_operation cmd = UPDATE_CONFIG \<or> co_operation cmd = REPLACE_CONFIG
                       then s\<lparr>eph_config_db := smap_put request_id (Some cmd) (eph_config_db s)\<rparr>
                       else if request_id = 0
                       then (fold (\<lambda>p. mgd_write (string_of_u64 (fst p))) (eph_config_db s)
                               (mgd_write ''Iterate to clear'' s))\<lparr>eph_config_db := []\<rparr>
                       else s\<lparr>eph_config_db := smap_erase request_id (eph_config_db s)\<rparr>)
              in Inr (status_OK,
                   \<lparr>es_request_id = request_id,
                    es_response = [\<lparr>ep_operation_id = co_operation_id cmd,
                                    ep_status = RpcSuccess, ep_message = ''Success''\<rparr>]\<rparr>, s)))"

text \<open>
  A missing entry is answered with \<open>NOK\<close> in the reply under construction, and then read
  through the null pointer that \<open>operator[]\<close> stores.
\<close>

definition GetEphemeralConfig ::
    "(get_request \<Rightarrow> string) \<Rightarrow> get_request \<Rightarrow> mgd_state \<Rightarrow>
     (grpc_status \<times> get_response \<times> mgd_state) res" where
  "GetEphemeralConfig show req s =
     (let s = mgd_write (show req) s
      in case gr_requests req of
           [] \<Rightarrow> Inl OutOfRange
         | (operation_id, path) # _ \<Rightarrow>
             (let s = (if path \<noteq> ''/'' then mgd_write ''Error in requested path not /'' s else s);
                  request_id = gr_request_id req;
                  s = (case smap_find (eph_config_db s) request_id of
                         None \<Rightarrow> (mgd_write (''No data available for request id : '' @
                                     string_of_u64 request_id) s)
                                   \<lparr>eph_config_db := smap_put request_id None (eph_config_db s)\<rparr>
                       | Some _ \<Rightarrow> s)
              in case smap_find (eph_config_db s) request_id of
                   Some (Some cmd) \<Rightarrow>
                     Inr (status_OK,
                       \<lparr>gs_request_id = request_id,
                        gs_response = [\<lparr>gp_operation_id = ''0'', gp_path = path,
                                        gp_value = co_json_config cmd, gp_status = RpcSuccess,
                                        gp_message = ''Success''\<rparr>]\<rparr>, s)
                 | _ \<Rightarrow> Inl NullPointer))"

section \<open>Login and registration\<close>

record login_request =
  lr_user_name :: string
  lr_password :: string
  lr_client_id :: string

definition LoginCheck ::
    "(login_request \<Rightarrow> string) \<Rightarrow> login_request \<Rightarrow> server_log \<Rightarrow> grpc_status \<times> bool \<times> server_log" where
  "LoginCheck show req l =
     (let l = log_write (show req) False l
      in if lr_user_name req = ''regress'' \<and> lr_password req = ''MaRtInI'' then (status_OK, True, l)
         else (status_CANCELLED, False, l))"

datatype input_type = InputNotSet | JsonInput string | FileInput string

record register_request =
  rr_input :: input_type
  rr_target :: string
  rr_register_id :: string
  rr_skip_authentication :: bool

record register_reply =
  rp_result :: bool
  rp_error :: string

definition RegisterService ::
    "(register_request \<Rightarrow> string) \<Rightarrow> register_request \<Rightarrow> server_log \<Rightarrow>
     grpc_status \<times> register_reply \<times> server_log" where
  "RegisterService show req l =
     (let l = log_write (show req) False l
      in if rr_register_id req = [] then
           (status_OK, \<lparr>rp_result = False, rp_error = ''Missing register_id''\<rparr>, l)
         else if rr_target req = [] then
           (status_OK, \<lparr>rp_result = False, rp_error = ''Missing target''\<rparr>, l)
         else if \<not> rr_skip_authentication req then
           (status_OK, \<lparr>rp_result = False, rp_error = ''Missing skip_authentication''\<rparr>, l)
         else
           (case rr_input req of
              FileInput f \<Rightarrow>
                if f = [] then
                  (status_OK, \<lparr>rp_result = False, rp_error = ''File input cannot be empty''\<rparr>, l)
                else (status_OK, \<lparr>rp_result = True, rp_error = []\<rparr>, l)
            | JsonInput j \<Rightarrow>
                if j = [] then
                  (status_OK, \<lparr>rp_result = False, rp_error = ''Json input cannot be empty''\<rparr>, l)
                else (status_OK, \<lparr>rp_result = True, rp_error = []\<rparr>, l)
            | InputNotSet \<Rightarrow>
                (status_OK, \<lparr>rp_result = True, rp_error = []\<rparr>,
                 log_write ''Cannot come here'' False l)))"

section \<open>Lemmas\<close>

lemma mgd_write_db [simp]: "eph_config_db (mgd_write m s) = eph_config_db s"
  by (simp add: mgd_write_def)

lemma mgd_write_fold [simp]: "eph_config_db (fold (\<lambda>p. mgd_write (f p)) ps s) = eph_config_db s"
  by (induction ps arbitrary: s) simp_all

text \<open>
  The abstract state: the configuration stored for an id. An edit is a total function of it,
  and never leaves a null entry.
\<close>

definition stored :: "mgd_state \<Rightarrow> u64 \<Rightarrow> config_operation option" where
  "stored s i = Option.bind (smap_find (eph_config_db s) i) (\<lambda>p. p)"

definition mgd_inv :: "mgd_state \<Rightarrow> bool" where
  "mgd_inv s \<longleftrightarrow> smap_ok (eph_config_db s) \<and> (\<forall>i. smap_find (eph_config_db s) i \<noteq> Some None)"

definition edit_spec :: "edit_request \<Rightarrow> (u64 \<Rightarrow> config_operation option) \<Rightarrow> u64 \<Rightarrow> config_operation option" where
  "edit_spec req m =
     (case er_operations req of
        [] \<Rightarrow> m
      | cmd # _ \<Rightarrow>
          if co_operation cmd \<noteq> DELETE_CONFIG then m(er_request_id req \<mapsto> cmd)
          else if er_request_id req = 0 then Map.empty
          else m(er_request_id req := None))"

lemma EditEphemeralConfig_refines:
  assumes "mgd_inv s" and "er_operations req \<noteq> []"
  obtains r s' where "EditEphemeralConfig show req s = Inr (status_OK, r, s')" "mgd_inv s'"
    "stored s' = edit_spec req (stored s)" "es_request_id r = er_request_id req"
    "map ep_status (es_response r) = [RpcSuccess]"
proof -
  obtain cmd cmds where ops: "er_operations req = cmd # cmds" using assms(2) by (cases "er_operations req") auto
  have ok: "smap_ok (eph_config_db s)" using assms(1) by (simp add: mgd_inv_def)
  have cases: "co_operation cmd = UPDATE_CONFIG \<or> co_operation cmd = REPLACE_CONFIG \<longleftrightarrow>
      co_operation cmd \<noteq> DELETE_CONFIG"
    by (cases "co_operation cmd") auto
  have "\<exists>r s'. EditEphemeralConfig show req s = Inr (status_OK, r, s')"
    by (simp add: EditEphemeralConfig_def Let_def ops)
  then obtain r s' where call: "EditEphemeralConfig show req s = Inr (status_OK, r, s')" by blast
  have "mgd_inv s' \<and> stored s' = edit_spec req (stored s)"
  proof (cases "co_operation cmd = DELETE_CONFIG")
    case False
    then show ?thesis
      using call assms(1) ops ok cases
      by (auto simp: EditEphemeralConfig_def Let_def mgd_inv_def edit_spec_def
          stored_def fun_eq_iff std_map.ok_put std_map.find_put split: if_splits)
  next
    case True
    then show ?thesis
      using call assms(1) ops ok
      by (auto simp: EditEphemeralConfig_def Let_def mgd_inv_def edit_spec_def
          stored_def fun_eq_iff std_map.ok_erase std_map.find_erase split: if_splits)
  qed
  with call show thesis
    by (intro that [of r s']) (auto simp: EditEphemeralConfig_def Let_def ops)
qed

lemma GetEphemeralConfig_stored:
  assumes "mgd_inv s" and "gr_requests req = (oid, path) # rest" and "stored s (gr_request_id req) = Some cmd"
  obtains s' where "GetEphemeralConfig show req s = Inr (status_OK,
      \<lparr>gs_request_id = gr_request_id req,
       gs_response = [\<lparr>gp_operation_id = ''0'', gp_path = path, gp_value = co_json_config cmd,
                       gp_status = RpcSuccess, gp_message = ''Success''\<rparr>]\<rparr>, s')"
    "eph_config_db s' = eph_config_db s"
proof -
  have "smap_find (eph_config_db s) (gr_request_id req) = Some (Some cmd)"
    using assms(3) by (auto simp: stored_def bind_eq_Some_conv)
  then have "\<exists>s'. GetEphemeralConfig show req s = Inr (status_OK,
      \<lparr>gs_request_id = gr_request_id req,
       gs_response = [\<lparr>gp_operation_id = ''0'', gp_path = path, gp_value = co_json_config cmd,
                       gp_status = RpcSuccess, gp_message = ''Success''\<rparr>]\<rparr>, s') \<and>
      eph_config_db s' = eph_config_db s"
    using assms(2) by (simp add: GetEphemeralConfig_def Let_def)
  then show thesis using that by blast
qed

lemma GetEphemeralConfig_missing:
  "gr_requests req = (oid, path) # rest \<Longrightarrow> smap_ok (eph_config_db s) \<Longrightarrow>
   smap_find (eph_config_db s) (gr_request_id req) = None \<Longrightarrow>
   GetEphemeralConfig show req s = Inl NullPointer"
  by (simp add: GetEphemeralConfig_def Let_def std_map.find_put)

lemma RegisterService_result:
  "rp_result (fst (snd (RegisterService show req l))) \<longleftrightarrow>
     rr_register_id req \<noteq> [] \<and> rr_target req \<noteq> [] \<and> rr_skip_authentication req \<and>
     rr_input req \<notin> {JsonInput [], FileInput []}"
  by (auto simp: RegisterService_def Let_def split: input_type.split)

end
