(* ===== verification/SystemBackends.thy ===== *)
theory SystemBackends
  imports AgentSystem JunosConfig GlobalConfig MgdServer
begin

text \<open>
  The backends that provision a request (AgentSystemFile.cpp, AgentSystemProc.cpp in its Junos
  form): one writes the
  configuration to a file, the other sends it to the management daemon. The daemon's RPCs are
  the parameter \<open>mgd_stub\<close>, over a state of the environment; the simulated daemon of MgdServer
  is one of them.
\<close>

section \<open>The file backend\<close>

record file_backend =
  fb_output :: "string list"

text \<open>
  The generated text. When the templates parse the generator does not fail; otherwise jsoncpp
  may throw out of it, and the text is taken empty.
\<close>

definition config_text ::
    "json_lib \<Rightarrow> global_config \<Rightarrow> bool \<Rightarrow> system_id \<Rightarrow> path_msg \<Rightarrow> string" where
  "config_text jl gc add i p =
     (case generate_json_junos_config jl add (udp_server_module gc) (udp_server_ip gc)
             (udp_server_port gc) (of_nat i) p of
        Inr s \<Rightarrow> s | Inl e \<Rightarrow> [])"

definition file_write :: "string list \<Rightarrow> file_backend agent_system \<Rightarrow> file_backend agent_system" where
  "file_write ls s = s\<lparr>as_backend := (as_backend s)\<lparr>fb_output := fb_output (as_backend s) @ ls\<rparr>\<rparr>"

definition AgentSystemFile_systemAdd ::
    "(path_msg \<Rightarrow> string) \<Rightarrow> json_lib \<Rightarrow> global_config \<Rightarrow> system_id \<Rightarrow> path_msg \<Rightarrow>
     file_backend agent_system \<Rightarrow> bool \<times> file_backend agent_system" where
  "AgentSystemFile_systemAdd sp jl gc i p s =
     (let (ignored, s) = AgentSystem_systemAdd sp i p s;
          config = config_text jl gc True i p
      in (True, file_write [''Push config ('' @ string_of_nat i @ ''):'', config] s))"

definition AgentSystemFile_systemRemove ::
    "(path_msg \<Rightarrow> string) \<Rightarrow> json_lib \<Rightarrow> global_config \<Rightarrow> system_id \<Rightarrow> path_msg \<Rightarrow>
     file_backend agent_system \<Rightarrow> bool \<times> file_backend agent_system" where
  "AgentSystemFile_systemRemove sp jl gc i p s =
     (let (ignored, s) = AgentSystem_systemRemove sp i p s;
          config = config_text jl gc False i p
      in (True, file_write [''Remove config ('' @ string_of_nat i @ ''):'', config] s))"

definition AgentSystemFile_systemClearAll ::
    "json_lib \<Rightarrow> file_backend agent_system \<Rightarrow> bool \<times> file_backend agent_system" where
  "AgentSystemFile_systemClearAll jl s =
     (let config = generate_json_clear_all_junos_config jl
      in (True, file_write [''ClearAll config: '', config] s))"

definition AgentSystemFile ::
    "(path_msg \<Rightarrow> string) \<Rightarrow> json_lib \<Rightarrow> global_config \<Rightarrow> file_backend system_ops" where
  "AgentSystemFile sp jl gc =
     \<lparr>op_systemAdd = AgentSystemFile_systemAdd sp jl gc,
      op_systemRemove = AgentSystemFile_systemRemove sp jl gc,
      op_systemGet = (\<lambda>i s. Inr (None, s)),
      op_systemClearAll = AgentSystemFile_systemClearAll jl\<rparr>"

lemma file_write_simps [simp]:
  "add_system_count (file_write ls s) = add_system_count s"
  "remove_system_count (file_write ls s) = remove_system_count s"
  "error_system_count (file_write ls s) = error_system_count s"
  "fb_output (as_backend (file_write ls s)) = fb_output (as_backend s) @ ls"
  by (simp_all add: file_write_def)

interpretation file_system: reliable_backend "AgentSystemFile sp jl gc"
  by unfold_locales
    (auto simp: AgentSystemFile_def AgentSystemFile_systemAdd_def AgentSystemFile_systemRemove_def
      AgentSystem_systemAdd_def AgentSystem_systemRemove_def outstanding_def Let_def)

section \<open>The management daemon backend\<close>

record 'e mgd_stub =
  stub_login :: "string \<Rightarrow> login_request \<Rightarrow> 'e \<Rightarrow> grpc_status \<times> bool \<times> 'e"
  stub_edit :: "string \<Rightarrow> edit_request \<Rightarrow> 'e \<Rightarrow> grpc_status \<times> edit_response \<times> 'e"
  stub_get :: "string \<Rightarrow> get_request \<Rightarrow> 'e \<Rightarrow> grpc_status \<times> get_response \<times> 'e"

record 'e proc_backend =
  pb_authentication_failure :: u64
  pb_env :: 'e

definition new_proc_backend :: "'e \<Rightarrow> 'e proc_backend" where
  "new_proc_backend e = \<lparr>pb_authentication_failure = 0, pb_env = e\<rparr>"

definition set_env :: "'e \<Rightarrow> 'e proc_backend agent_system \<Rightarrow> 'e proc_backend agent_system" where
  "set_env e s = s\<lparr>as_backend := (as_backend s)\<lparr>pb_env := e\<rparr>\<rparr>"

definition authenticateChannel ::
    "'e mgd_stub \<Rightarrow> global_config \<Rightarrow> string \<Rightarrow> 'e proc_backend agent_system \<Rightarrow>
     grpc_status \<times> 'e proc_backend agent_system" where
  "authenticateChannel stub gc address s =
     (let s = sys_log ''Requesting login authentication from device'' s;
          req = \<lparr>lr_user_name = device_user_name gc, lr_password = device_password gc,
                 lr_client_id = ''telemetry-grpc''\<rparr>;
          (status, result, e) = stub_login stub address req (pb_env (as_backend s));
          s = set_env e s
      in if status_ok status \<and> result then (status, sys_log ''Login Authentication Successful'' s)
         else
           let b = as_backend s;
               s = s\<lparr>as_backend := b\<lparr>pb_authentication_failure := pb_authentication_failure b + 1\<rparr>\<rparr>
           in (status_CANCELLED, sys_log ''Login Authentication Failed'' s))"

definition mgd_address :: "global_config \<Rightarrow> string" where
  "mgd_address gc =
     (if running_mode gc = RUNNING_MODE_OFF_BOX
      then device_mgd_ip gc @ '':'' @ string_of_int (sint (device_mgd_port gc))
      else ''unix:'' @ device_mgd_unix_socket gc)"

definition status_UNKNOWN :: grpc_status where
  "status_UNKNOWN = \<lparr>status_code = 2, status_message = []\<rparr>"

definition count_error :: "string \<Rightarrow> 'e proc_backend agent_system \<Rightarrow> 'e proc_backend agent_system" where
  "count_error msg s = sys_log msg (s\<lparr>error_system_count := error_system_count s + 1\<rparr>)"

text \<open>Sending the edit and checking its answer, once the channel may be used.\<close>

definition issue_edit ::
    "'e mgd_stub \<Rightarrow> string \<Rightarrow> string \<Rightarrow> system_id \<Rightarrow> config_command \<Rightarrow>
     'e proc_backend agent_system \<Rightarrow> grpc_status \<times> 'e proc_backend agent_system" where
  "issue_edit stub address config i cmdcode s =
     (let req = \<lparr>er_request_id = of_nat i,
                 er_operations = [\<lparr>co_operation_id = ''0'', co_operation = cmdcode,
                                   co_path = ''/'', co_json_config = config\<rparr>],
                 er_instance_name = [], er_enable_validation = True\<rparr>;
          (status, reply, e) = stub_edit stub address req (pb_env (as_backend s));
          s = set_env e s
      in if \<not> status_ok status then
           (status, count_error (''MGD command failed (cmd = '' @ string_of_nat (command_code cmdcode) @
              ''). Error code: '' @ string_of_nat (status_code status) @ ''. '' @
              ''Error message: '' @ status_message status) s)
         else
           (case es_response reply of
              [] \<Rightarrow> (status_UNKNOWN, count_error (''MGD command failed (cmd = '' @
                      string_of_nat (command_code cmdcode) @ ''). No response received.'') s)
            | r # _ \<Rightarrow>
                if ep_status r \<noteq> RpcSuccess then
                  (status_UNKNOWN, count_error (''MGD command failed (cmd = '' @
                     string_of_nat (command_code cmdcode) @ ''). Error code: '' @
                     string_of_nat (response_code (ep_status r)) @ ''. '' @
                     ''Error message: '' @ ep_message r) s)
                else (status, s)))"

definition sendJunosMessagetoMgd ::
    "'e mgd_stub \<Rightarrow> global_config \<Rightarrow> string \<Rightarrow> system_id \<Rightarrow> config_command \<Rightarrow>
     'e proc_backend agent_system \<Rightarrow> grpc_status \<times> 'e proc_backend agent_system" where
  "sendJunosMessagetoMgd stub gc config i cmdcode s =
     (let address = mgd_address gc
      in if running_mode gc = RUNNING_MODE_OFF_BOX then
           let (status, s) = authenticateChannel stub gc address s
           in if \<not> status_ok status then (status, s)
              else issue_edit stub address config i cmdcode s
         else issue_edit stub address config i cmdcode s)"

definition AgentSystemProc_systemAdd ::
    "(path_msg \<Rightarrow> string) \<Rightarrow> json_lib \<Rightarrow> 'e mgd_stub \<Rightarrow> global_config \<Rightarrow> system_id \<Rightarrow> path_msg \<Rightarrow>
     'e proc_backend agent_system \<Rightarrow> bool \<times> 'e proc_backend agent_system" where
  "AgentSystemProc_systemAdd sp jl stub gc i p s =
     (let config = config_text jl gc True i p;
          (status, s) = sendJunosMessagetoMgd stub gc config i UPDATE_CONFIG s
      in if status_ok status then
           let s = s\<lparr>add_system_count := add_system_count s + 1\<rparr>
           in (True, sys_log (''MGD command to add config passed. Request_id: '' @
                 string_of_nat i @ '' Path: '' @ sp p) s)
         else (False, s))"

text \<open>The Junos form of \<open>systemRemove\<close> increments \<open>_add_system_count\<close>, as in the code.\<close>

definition AgentSystemProc_systemRemove ::
    "(path_msg \<Rightarrow> string) \<Rightarrow> json_lib \<Rightarrow> 'e mgd_stub \<Rightarrow> global_config \<Rightarrow> system_id \<Rightarrow> path_msg \<Rightarrow>
     'e proc_backend agent_system \<Rightarrow> bool \<times> 'e proc_backend agent_system" where
  "AgentSystemProc_systemRemove sp jl stub gc i p s =
     (let config = config_text jl gc False i p;
          (status, s) = sendJunosMessagetoMgd stub gc config i UPDATE_CONFIG s
      in if status_ok status then
           let s = s\<lparr>add_system_count := add_system_count s + 1\<rparr>
           in (True, sys_log (''MGD command to delete config passed. Request_id: '' @
                 string_of_nat i @ '' Path: '' @ sp p) s)
         else (False, s))"

text \<open>\<open>asCString\<close> throws unless the value is a string.\<close>

definition json_cstring :: "json_step list \<Rightarrow> json \<Rightarrow> string res" where
  "json_cstring steps j =
     res_bind (json_get steps j) (\<lambda>v. case v of JStr s \<Rightarrow> Inr s | _ \<Rightarrow> Inl JsonTypeError)"

definition sensor_step :: "string \<Rightarrow> json_step list" where
  "sensor_step k = [Key ''configuration'', Key ''services'', Key ''analytics'', Key ''sensor'', Idx 0, Key k]"

text \<open>The path a stored configuration stands for; text that does not parse reads as null.\<close>

definition path_of_config :: "json_lib \<Rightarrow> string \<Rightarrow> path_msg res" where
  "path_of_config jl response_json_str =
     res_bind (returned (SearchNReplaceString response_json_str ''<configuration-json>'' [])) (\<lambda>s.
     res_bind (returned (SearchNReplaceString s ''</configuration-json>'' [])) (\<lambda>s.
     (let j = (case parse_string_to_json_obj jl s of Some j \<Rightarrow> j | None \<Rightarrow> JNull)
      in res_bind (json_cstring (sensor_step ''resource'') j) (\<lambda>path_str.
         res_bind (json_cstring (sensor_step ''reporting-rate'') j) (\<lambda>freq.
         res_bind (stoi freq) (\<lambda>n.
         Inr (path_cleared\<lparr>p_path := path_str, p_sample_frequency := of_int n\<rparr>)))))))"

definition issue_get ::
    "json_lib \<Rightarrow> 'e mgd_stub \<Rightarrow> string \<Rightarrow> system_id \<Rightarrow> 'e proc_backend agent_system \<Rightarrow>
     (path_msg option \<times> 'e proc_backend agent_system) res" where
  "issue_get jl stub address i s =
     (let req = \<lparr>gr_request_id = of_nat i, gr_encoding_json = True, gr_requests = [(''0'', ''/'')],
                 gr_instance_name = [], gr_merge_view = True\<rparr>;
          (status, reply, e) = stub_get stub address req (pb_env (as_backend s));
          s = set_env e s
      in if gs_request_id reply \<noteq> of_nat i then Inr (None, s)
         else (case gs_response reply of
           [] \<Rightarrow> Inl OutOfRange
         | r # _ \<Rightarrow>
             if gp_path r \<noteq> ''/'' then Inr (None, s)
             else
               let s = sys_log (''Get response : '' @ gp_value r) s
               in res_bind (path_of_config jl (gp_value r)) (\<lambda>p. Inr (Some p, s))))"

definition AgentSystemProc_systemGet ::
    "json_lib \<Rightarrow> 'e mgd_stub \<Rightarrow> global_config \<Rightarrow> system_id \<Rightarrow> 'e proc_backend agent_system \<Rightarrow>
     (path_msg option \<times> 'e proc_backend agent_system) res" where
  "AgentSystemProc_systemGet jl stub gc i s =
     (let address = mgd_address gc
      in if running_mode gc = RUNNING_MODE_OFF_BOX then
           let (status, s) = authenticateChannel stub gc address s
           in if \<not> status_ok status then Inr (None, s) else issue_get jl stub address i s
         else issue_get jl stub address i s)"

definition AgentSystemProc_systemClearAll ::
    "json_lib \<Rightarrow> 'e mgd_stub \<Rightarrow> global_config \<Rightarrow> 'e proc_backend agent_system \<Rightarrow>
     bool \<times> 'e proc_backend agent_system" where
  "AgentSystemProc_systemClearAll jl stub gc s =
     (let config = generate_json_clear_all_junos_config jl;
          (status, s) = sendJunosMessagetoMgd stub gc config 0 UPDATE_CONFIG s
      in if status_ok status then
           (True, sys_log (''MGD command to delete all config passed. Config pushed: '' @ config) s)
         else
           (False, sys_log (''MGD command to delete all config failed. Config pushed: '' @ config) s))"

definition AgentSystemProc ::
    "(path_msg \<Rightarrow> string) \<Rightarrow> json_lib \<Rightarrow> 'e mgd_stub \<Rightarrow> global_config \<Rightarrow> 'e proc_backend system_ops" where
  "AgentSystemProc sp jl stub gc =
     \<lparr>op_systemAdd = AgentSystemProc_systemAdd sp jl stub gc,
      op_systemRemove = AgentSystemProc_systemRemove sp jl stub gc,
      op_systemGet = AgentSystemProc_systemGet jl stub gc,
      op_systemClearAll = AgentSystemProc_systemClearAll jl stub gc\<rparr>"

section \<open>The simulated daemon behind the stub\<close>

text \<open>A call that ends the daemon is seen by the client as an unavailable service.\<close>

definition status_UNAVAILABLE :: grpc_status where
  "status_UNAVAILABLE = \<lparr>status_code = 14, status_message = ''Socket closed''\<rparr>"

definition sim_stub ::
    "(login_request \<Rightarrow> string) \<Rightarrow> (edit_request \<Rightarrow> string) \<Rightarrow> (get_request \<Rightarrow> string) \<Rightarrow> mgd_state mgd_stub" where
  "sim_stub show_login show_edit show_get =
     \<lparr>stub_login = (\<lambda>address req e.
        (case LoginCheck show_login req (mgd_log e) of (st, r, l) \<Rightarrow> (st, r, e\<lparr>mgd_log := l\<rparr>))),
      stub_edit = (\<lambda>address req e.
        (case EditEphemeralConfig show_edit req e of
           Inr reply \<Rightarrow> reply
         | Inl err \<Rightarrow> (status_UNAVAILABLE, \<lparr>es_request_id = 0, es_response = []\<rparr>, e))),
      stub_get = (\<lambda>address req e.
        (case GetEphemeralConfig show_get req e of
           Inr reply \<Rightarrow> reply
         | Inl err \<Rightarrow> (status_UNAVAILABLE, \<lparr>gs_request_id = 0, gs_response = []\<rparr>, e)))\<rparr>"

section \<open>Lemmas\<close>

lemma set_env_simps [simp]:
  "add_system_count (set_env e s) = add_system_count s"
  "remove_system_count (set_env e s) = remove_system_count s"
  "error_system_count (set_env e s) = error_system_count s"
  "pb_env (as_backend (set_env e s)) = e"
  "pb_authentication_failure (as_backend (set_env e s)) = pb_authentication_failure (as_backend s)"
  by (simp_all add: set_env_def)

lemma count_error_simps [simp]:
  "add_system_count (count_error m s) = add_system_count s"
  "remove_system_count (count_error m s) = remove_system_count s"
  "error_system_count (count_error m s) = error_system_count s + 1"
  "as_backend (count_error m s) = as_backend s"
  by (simp_all add: count_error_def)

text \<open>Every exchange either succeeds or is counted as one error, of the login or of the command.\<close>

lemma authenticateChannel_counts:
  "authenticateChannel stub gc a s = (st, s') \<Longrightarrow>
   add_system_count s' = add_system_count s \<and> remove_system_count s' = remove_system_count s \<and>
   error_system_count s' = error_system_count s \<and>
   pb_authentication_failure (as_backend s') =
     pb_authentication_failure (as_backend s) + (if status_ok st then 0 else 1)"
  by (auto simp: authenticateChannel_def Let_def status_CANCELLED_def status_ok_def
      split: prod.splits if_splits)

lemma issue_edit_counts:
  "issue_edit stub a config i cmd s = (st, s') \<Longrightarrow>
   add_system_count s' = add_system_count s \<and> remove_system_count s' = remove_system_count s \<and>
   error_system_count s' = error_system_count s + (if status_ok st then 0 else 1) \<and>
   pb_authentication_failure (as_backend s') = pb_authentication_failure (as_backend s)"
  by (auto simp: issue_edit_def Let_def status_UNKNOWN_def status_ok_def
      split: prod.splits if_splits list.splits)

lemma sendJunosMessagetoMgd_counts:
  "sendJunosMessagetoMgd stub gc config i cmd s = (st, s') \<Longrightarrow>
   add_system_count s' = add_system_count s \<and> remove_system_count s' = remove_system_count s \<and>
   error_system_count s' + pb_authentication_failure (as_backend s') =
     error_system_count s + pb_authentication_failure (as_backend s) + (if status_ok st then 0 else 1)"
  by (auto simp: sendJunosMessagetoMgd_def Let_def split: prod.splits if_splits
      dest!: authenticateChannel_counts issue_edit_counts)

lemma Proc_systemAdd_counts:
  "AgentSystemProc_systemAdd sp jl stub gc i p s = (ok, s') \<Longrightarrow>
   add_system_count s' = add_system_count s + (if ok then 1 else 0) \<and>
   remove_system_count s' = remove_system_count s \<and>
   error_system_count s' + pb_authentication_failure (as_backend s') =
     error_system_count s + pb_authentication_failure (as_backend s) + (if ok then 0 else 1)"
  by (auto simp: AgentSystemProc_systemAdd_def Let_def split: prod.splits if_splits
      dest!: sendJunosMessagetoMgd_counts)

lemma Proc_systemRemove_counts:
  "AgentSystemProc_systemRemove sp jl stub gc i p s = (ok, s') \<Longrightarrow>
   add_system_count s' = add_system_count s + (if ok then 1 else 0) \<and>
   remove_system_count s' = remove_system_count s"
  by (auto simp: AgentSystemProc_systemRemove_def Let_def split: prod.splits if_splits
      dest!: sendJunosMessagetoMgd_counts)

text \<open>With the simulated daemon and the default credentials an edit is stored under the request's id.\<close>

lemma sim_send:
  assumes "mgd_inv (pb_env (as_backend s))"
    and "running_mode gc = RUNNING_MODE_OFF_BOX \<Longrightarrow> device_user_name gc = ''regress'' \<and> device_password gc = ''MaRtInI''"
    and "cmd \<noteq> DELETE_CONFIG"
  shows "\<exists>s'. sendJunosMessagetoMgd (sim_stub f g h) gc config i cmd s = (status_OK, s') \<and>
    mgd_inv (pb_env (as_backend s')) \<and>
    stored (pb_env (as_backend s')) = (stored (pb_env (as_backend s)))(of_nat i \<mapsto>
      \<lparr>co_operation_id = ''0'', co_operation = cmd, co_path = ''/'', co_json_config = config\<rparr>)"
proof -
  let ?op = "\<lparr>co_operation_id = ''0'', co_operation = cmd, co_path = ''/'', co_json_config = config\<rparr>"
  let ?req = "\<lparr>er_request_id = of_nat i, er_operations = [?op], er_instance_name = [],
      er_enable_validation = True\<rparr>"
  have edit: "\<exists>s'. issue_edit (sim_stub f g h) a config i cmd t = (status_OK, s') \<and>
      mgd_inv (pb_env (as_backend s')) \<and>
      stored (pb_env (as_backend s')) = (stored (pb_env (as_backend t)))(of_nat i \<mapsto> ?op)"
    if "mgd_inv (pb_env (as_backend t))" for a t
  proof (rule EditEphemeralConfig_refines [OF that, of ?req g])
    fix r e
    assume r: "EditEphemeralConfig g ?req (pb_env (as_backend t)) = Inr (status_OK, r, e)"
      "mgd_inv e" "stored e = edit_spec ?req (stored (pb_env (as_backend t)))"
      "map ep_status (es_response r) = [RpcSuccess]"
    then obtain q where q: "es_response r = [q]" "ep_status q = RpcSuccess" by auto
    have "issue_edit (sim_stub f g h) a config i cmd t = (status_OK, set_env e t)"
      using r(1) q by (simp add: issue_edit_def sim_stub_def status_OK_def status_ok_def)
    then show ?thesis using r assms(3) by (auto simp: edit_spec_def)
  qed simp
  show ?thesis
  proof (cases "running_mode gc = RUNNING_MODE_OFF_BOX")
    case True
    obtain s1 where "authenticateChannel (sim_stub f g h) gc (mgd_address gc) s = (status_OK, s1)"
      "eph_config_db (pb_env (as_backend s1)) = eph_config_db (pb_env (as_backend s))"
      using assms(2) [OF True]
      by (simp add: authenticateChannel_def sim_stub_def LoginCheck_def status_OK_def status_ok_def Let_def)
    moreover from this have "mgd_inv (pb_env (as_backend s1))"
        "stored (pb_env (as_backend s1)) = stored (pb_env (as_backend s))"
      using assms(1) by (simp_all add: mgd_inv_def stored_def fun_eq_iff)
    ultimately show ?thesis
      using edit [of s1] True by (simp add: sendJunosMessagetoMgd_def status_OK_def status_ok_def)
  next
    case False
    then show ?thesis using edit [OF assms(1)] by (simp add: sendJunosMessagetoMgd_def)
  qed
qed

text \<open>A removal that succeeds leaves one more request outstanding, not one less.\<close>

lemma Proc_remove_outstanding:
  "AgentSystemProc_systemRemove sp jl stub gc i p s = (True, s') \<Longrightarrow> outstanding s' = outstanding s + 1"
  by (auto simp: outstanding_def dest: Proc_systemRemove_counts)

lemma Proc_add_outstanding:
  "AgentSystemProc_systemAdd sp jl stub gc i p s = (ok, s') \<Longrightarrow>
   outstanding s' = outstanding s + (if ok then 1 else 0)"
  by (auto simp: outstanding_def dest: Proc_systemAdd_counts)

lemma sim_systemRemove:
  assumes "mgd_inv (pb_env (as_backend s))"
    and "running_mode gc = RUNNING_MODE_OFF_BOX \<Longrightarrow> device_user_name gc = ''regress'' \<and> device_password gc = ''MaRtInI''"
  shows "\<exists>s'. AgentSystemProc_systemRemove sp jl (sim_stub f g h) gc i p s = (True, s') \<and>
    map_option co_json_config (stored (pb_env (as_backend s')) (of_nat i)) = Some (config_text jl gc False i p)"
  using sim_send [OF assms, of UPDATE_CONFIG f g h "config_text jl gc False i p" i]
  by (auto simp: AgentSystemProc_systemRemove_def status_OK_def status_ok_def Let_def)

section \<open>Reading a path back from the daemon\<close>

lemma path_of_wrapped:
  assumes "CHR ''<'' \<notin> set x" and "js_parse jl x = Some j"
    and "json_get (sensor_step ''resource'') j = Inr (JStr r)"
    and "json_get (sensor_step ''reporting-rate'') j = Inr (JStr (string_of_nat n))" and "n < 2 ^ 31"
  shows "path_of_config jl (wrap_config x) = Inr (path_cleared\<lparr>p_path := r, p_sample_frequency := of_nat n\<rparr>)"
proof -
  let ?open = "''<configuration-json>''" and ?close = "''</configuration-json>''"
  have "str_find ?open (x @ ?close) = None"
    using str_find_skip [OF assms(1), of "tl ?open" ?close] by (simp add: is_prefix_of_def)
  then have 1: "replace_all ?open [] (wrap_config x) = x @ ?close"
    unfolding wrap_config_def by (subst replace_all_prefix) (simp_all add: replace_all_none)
  have 2: "replace_all ?close [] (x @ ?close) = x"
    using replace_all_suffix [OF assms(1), of "tl ?close" "[]"] by simp
  have s1: "SearchNReplaceString (wrap_config x) ?open [] = Some (x @ ?close)"
    and s2: "SearchNReplaceString (x @ ?close) ?close [] = Some x"
    using 1 2 by (simp_all only: SearchNReplaceString_total list.distinct not_False_eq_True)
  show ?thesis
    unfolding path_of_config_def s1 returned_Some res_bind.simps s2
    using assms(2-5) by (simp add: parse_string_to_json_obj_def json_cstring_def stoi_string_of_nat)
qed

lemma sim_get:
  assumes "mgd_inv (pb_env (as_backend s))" and "stored (pb_env (as_backend s)) (of_nat i) = Some cmd"
    and "running_mode gc = RUNNING_MODE_OFF_BOX \<Longrightarrow> device_user_name gc = ''regress'' \<and> device_password gc = ''MaRtInI''"
    and "path_of_config jl (co_json_config cmd) = Inr q"
  shows "\<exists>s'. AgentSystemProc_systemGet jl (sim_stub f g h) gc i s = Inr (Some q, s')"
proof -
  let ?req = "\<lparr>gr_request_id = of_nat i, gr_encoding_json = True, gr_requests = [(''0'', ''/'')],
                 gr_instance_name = [], gr_merge_view = True\<rparr>"
  have get: "\<exists>s'. issue_get jl (sim_stub f g h) a i t = Inr (Some q, s')"
    if t: "eph_config_db (pb_env (as_backend t)) = eph_config_db (pb_env (as_backend s))" for a t
  proof -
    have "mgd_inv (pb_env (as_backend t))" "stored (pb_env (as_backend t)) (gr_request_id ?req) = Some cmd"
      using assms(1,2) t by (simp_all add: mgd_inv_def stored_def)
    from GetEphemeralConfig_stored [OF this(1) _ this(2), of "''0''" "''/''" "[]" h]
    obtain e where "GetEphemeralConfig h ?req (pb_env (as_backend t)) = Inr (status_OK,
        \<lparr>gs_request_id = of_nat i,
         gs_response = [\<lparr>gp_operation_id = ''0'', gp_path = ''/'', gp_value = co_json_config cmd,
                         gp_status = RpcSuccess, gp_message = ''Success''\<rparr>]\<rparr>, e)"
      by auto
    then show ?thesis using assms(4) by (simp add: issue_get_def sim_stub_def)
  qed
  show ?thesis
  proof (cases "running_mode gc = RUNNING_MODE_OFF_BOX")
    case True
    obtain s1 where "authenticateChannel (sim_stub f g h) gc (mgd_address gc) s = (status_OK, s1)"
      "eph_config_db (pb_env (as_backend s1)) = eph_config_db (pb_env (as_backend s))"
      using assms(3) [OF True]
      by (simp add: authenticateChannel_def sim_stub_def LoginCheck_def status_OK_def status_ok_def Let_def)
    then show ?thesis
      using get [of s1] True by (simp add: AgentSystemProc_systemGet_def status_OK_def status_ok_def)
  next
    case False
    then show ?thesis using get [of s] by (simp add: AgentSystemProc_systemGet_def)
  qed
qed

text \<open>
  Adding a request and reading it back: the path returns, the frequency in seconds. The last
  three assumptions say that the written configuration reads back with the name fields renamed.
\<close>

lemma sim_add_get:
  assumes inv: "mgd_inv (pb_env (as_backend s))"
    and cred: "running_mode gc = RUNNING_MODE_OFF_BOX \<Longrightarrow> device_user_name gc = ''regress'' \<and> device_password gc = ''MaRtInI''"
    and templates: "templates_parse jl"
    and x: "x = replace_all ''@name@'' ''name'' (js_fast jl (reference_config True (udp_server_module gc)
              (udp_server_ip gc) (udp_server_port gc) (of_nat i) p))"
    and text_ok: "CHR ''<'' \<notin> set x" "js_parse jl x = Some j"
    and leaves: "json_get (sensor_step ''resource'') j = Inr (JStr (p_path p))"
      "json_get (sensor_step ''reporting-rate'') j = Inr (JStr (string_of_u32 (p_sample_frequency p div 1000)))"
  shows "\<exists>s1 s2. AgentSystemProc_systemAdd sp jl (sim_stub f g h) gc i p s = (True, s1) \<and>
    AgentSystemProc_systemGet jl (sim_stub f g h) gc i s1 =
      Inr (Some (path_cleared\<lparr>p_path := p_path p, p_sample_frequency := p_sample_frequency p div 1000\<rparr>), s2)"
proof -
  let ?n = "unat (p_sample_frequency p div 1000)"
  have n: "?n < 2 ^ 31"
    using unsigned_less [of "p_sample_frequency p", where ?'a = nat] by (simp add: unat_div less_mult_imp_div_less)
  have conf: "config_text jl gc True i p = wrap_config x"
    using generate_reference [OF templates] x by (simp add: config_text_def)
  have q: "path_of_config jl (wrap_config x) =
      Inr (path_cleared\<lparr>p_path := p_path p, p_sample_frequency := p_sample_frequency p div 1000\<rparr>)"
    using path_of_wrapped [OF text_ok leaves(1) _ n] leaves(2) by (simp add: string_of_u32_def)
  obtain s' where s': "sendJunosMessagetoMgd (sim_stub f g h) gc (wrap_config x) i UPDATE_CONFIG s = (status_OK, s')"
    "mgd_inv (pb_env (as_backend s'))"
    "stored (pb_env (as_backend s')) (of_nat i) = Some
      \<lparr>co_operation_id = ''0'', co_operation = UPDATE_CONFIG, co_path = ''/'', co_json_config = wrap_config x\<rparr>"
    using sim_send [OF inv cred, of UPDATE_CONFIG f g h "wrap_config x" i] by auto
  obtain s1 where s1: "AgentSystemProc_systemAdd sp jl (sim_stub f g h) gc i p s = (True, s1)"
    "pb_env (as_backend s1) = pb_env (as_backend s')"
    using s'(1) by (simp add: AgentSystemProc_systemAdd_def conf status_OK_def status_ok_def Let_def)
  show ?thesis
    using sim_get [of s1 i _ gc jl, OF _ _ cred] s' s1 q by fastforce
qed

end
