(* ===== verification/PathValidator.thy ===== *)
theory PathValidator
  imports Json ServerLog Messages
begin

text \<open>
  The validator of requested paths (PathValidator.hpp, PathValidator.cpp): a table of path
  capabilities read from a JSON file, and the adjustment of a requested path to them. A table
  entry is a shared pointer, null (\<open>None\<close>) when a lookup with \<open>operator[]\<close> created it.
\<close>

section \<open>State\<close>

definition SAMPLE_FREQUENCY_MIN :: u32 where
  "SAMPLE_FREQUENCY_MIN = 2000"

definition SAMPLE_FREQUENCY_MAX :: u32 where
  "SAMPLE_FREQUENCY_MAX = 3600000"

record path_information =
  pi_path :: string
  filter_support :: bool
  suppress_unchanged_support :: bool
  max_silent_interval_support :: bool
  sample_frequency_min :: u32
  sample_frequency_max :: u32

definition new_path_information :: "string \<Rightarrow> path_information" where
  "new_path_information p =
     \<lparr>pi_path = p, filter_support = True, suppress_unchanged_support = False,
      max_silent_interval_support = False, sample_frequency_min = SAMPLE_FREQUENCY_MIN,
      sample_frequency_max = SAMPLE_FREQUENCY_MAX\<rparr>"

type_synonym path_information_db = "(string, path_information option) smap"

record path_validator =
  pv_logger :: server_log
  pv_db :: path_information_db

definition pv_log :: "string \<Rightarrow> path_validator \<Rightarrow> path_validator" where
  "pv_log m v = v\<lparr>pv_logger := log_write m False (pv_logger v)\<rparr>"

section \<open>Reading the table\<close>

text \<open>An unreadable file reads as empty text.\<close>

definition read_path_information_file ::
    "json_lib \<Rightarrow> string \<Rightarrow> string \<Rightarrow> path_validator \<Rightarrow> json option \<times> path_validator" where
  "read_path_information_file jl filename contents v =
     (case js_parse jl contents of
        Some j \<Rightarrow> (Some j, pv_log (''Json file \"'' @ filename @ ''\" parsed successfully'') v)
      | None \<Rightarrow> (None, pv_log (''Json file \"'' @ filename @ ''\" parsing error'') v))"

text \<open>The capabilities an entry of the file gives: each field it does not have keeps its default.\<close>

definition set_if_present ::
    "json \<Rightarrow> (json \<Rightarrow> 'a res) \<Rightarrow> ('a \<Rightarrow> path_information \<Rightarrow> path_information) \<Rightarrow>
     path_information \<Rightarrow> path_information res" where
  "set_if_present j conv upd i =
     (if j \<noteq> JNull then res_bind (conv j) (\<lambda>x. Inr (upd x i)) else Inr i)"

definition read_path_information :: "json_lib \<Rightarrow> json \<Rightarrow> path_information res" where
  "read_path_information jl obj =
     res_bind (res_bind (json_member ''path'' obj) (js_asString jl)) (\<lambda>p.
     res_bind (json_member ''filter_support'' obj) (\<lambda>f.
     res_bind (set_if_present f (js_asBool jl) (\<lambda>b i. i\<lparr>filter_support := b\<rparr>)
        (new_path_information p)) (\<lambda>i.
     res_bind (json_member ''suppress_unchanged_support'' obj) (\<lambda>s.
     res_bind (set_if_present s (js_asBool jl) (\<lambda>b i. i\<lparr>suppress_unchanged_support := b\<rparr>) i) (\<lambda>i.
     res_bind (json_member ''max_silent_interval_support'' obj) (\<lambda>m.
     res_bind (set_if_present m (js_asBool jl) (\<lambda>b i. i\<lparr>max_silent_interval_support := b\<rparr>) i) (\<lambda>i.
     res_bind (json_get [Key ''sample_frequency'', Key ''min''] obj) (\<lambda>lo.
     res_bind (set_if_present lo (js_asInt jl) (\<lambda>n i. i\<lparr>sample_frequency_min := n\<rparr>) i) (\<lambda>i.
     res_bind (json_get [Key ''sample_frequency'', Key ''max''] obj) (\<lambda>hi.
     set_if_present hi (js_asInt jl) (\<lambda>n i. i\<lparr>sample_frequency_max := n\<rparr>) i))))))))))"

text \<open>The loop over the entries, from position \<open>n\<close>; it stops at an entry without a path.\<close>

fun build_entries ::
    "json_lib \<Rightarrow> nat \<Rightarrow> json list \<Rightarrow> path_validator \<Rightarrow> (bool \<times> path_validator) res" where
  "build_entries jl n [] v = Inr (True, v)"
| "build_entries jl n (obj # objs) v =
     (let v = pv_log (''Path '' @ string_of_nat n @ '' -->'' @ js_styled jl obj) v
      in res_bind (json_member ''path'' obj) (\<lambda>p.
           if p = JNull then
             Inr (False, pv_log (''Path '' @ string_of_nat n @ '' --> Missing 'path' keyword'') v)
           else
             res_bind (read_path_information jl obj) (\<lambda>i.
               build_entries jl (Suc n) objs (v\<lparr>pv_db := smap_put (pi_path i) (Some i) (pv_db v)\<rparr>))))"

definition build_path_information_db ::
    "json_lib \<Rightarrow> string \<Rightarrow> string \<Rightarrow> path_validator \<Rightarrow> (bool \<times> path_validator) res" where
  "build_path_information_db jl filename contents v =
     (let (j, v) = read_path_information_file jl filename contents v
      in case j of
           None \<Rightarrow> Inr (False, v)
         | Some root \<Rightarrow>
             res_bind (json_member ''valid_paths'' root) (\<lambda>paths.
               if paths = JNull then Inr (False, pv_log '''valid_paths' list keyword missing'' v)
               else case paths of
                 JArr objs \<Rightarrow>
                   build_entries jl 0 objs
                     (pv_log (''Number of paths provided in json file = '' @
                        string_of_nat (length objs)) v)
               | _ \<Rightarrow> Inr (False, pv_log ''Invalid json format'' v)))"

text \<open>Printing dereferences every entry.\<close>

fun print_entries ::
    "(string \<times> path_information option) list \<Rightarrow> path_validator \<Rightarrow> path_validator res" where
  "print_entries [] v = Inr v"
| "print_entries ((k, None) # es) v = Inl NullPointer"
| "print_entries ((k, Some i) # es) v =
     print_entries es (pv_log (''<PathInformation DB>'' @ k @ ''--->'' @
       ''path:'' @ pi_path i @ '','' @
       ''filter_support:'' @ string_of_bool (filter_support i) @ '','' @
       ''suppress_unchanged_support:'' @ string_of_bool (suppress_unchanged_support i) @ '','' @
       ''max_silent_interval_support:'' @ string_of_bool (max_silent_interval_support i) @ '','' @
       ''sample_frequency_min:'' @ string_of_u32 (sample_frequency_min i) @ '','' @
       ''sample_frequency_max:'' @ string_of_u32 (sample_frequency_max i)) v)"

definition print_path_information_db :: "path_validator \<Rightarrow> path_validator res" where
  "print_path_information_db v = print_entries (pv_db v) v"

definition delete_path_information_db :: "path_validator \<Rightarrow> path_validator" where
  "delete_path_information_db v = (pv_log ''Erase the path information db'' v)\<lparr>pv_db := []\<rparr>"

section \<open>Validating a path\<close>

definition roundToThousandths :: "u32 \<Rightarrow> u32 \<Rightarrow> u32" where
  "roundToThousandths num mx =
     (let num = num + 500;
          num = num div 1000;
          num = num * 1000
      in if num > mx then mx else num)"

text \<open>What the capabilities make of a requested path.\<close>

definition adjust_path :: "path_information \<Rightarrow> path_msg \<Rightarrow> path_msg" where
  "adjust_path i p =
     (let p = (if \<not> filter_support i then p\<lparr>p_filter := []\<rparr> else p);
          p = (if \<not> suppress_unchanged_support i then p\<lparr>p_suppress_unchanged := False\<rparr> else p);
          p = (if \<not> max_silent_interval_support i then p\<lparr>p_max_silent_interval := 0\<rparr> else p);
          freq = p_sample_frequency p
      in if freq < sample_frequency_min i then p\<lparr>p_sample_frequency := sample_frequency_min i\<rparr>
         else if freq > sample_frequency_max i then p\<lparr>p_sample_frequency := sample_frequency_max i\<rparr>
         else p\<lparr>p_sample_frequency := roundToThousandths freq (sample_frequency_max i)\<rparr>)"

definition validate_path :: "path_msg \<Rightarrow> path_validator \<Rightarrow> path_msg \<times> path_validator" where
  "validate_path p v =
     (let (i, v) = (case smap_find (pv_db v) (p_path p) of
                      Some i \<Rightarrow> (i, v)
                    | None \<Rightarrow> (None, v\<lparr>pv_db := smap_put (p_path p) None (pv_db v)\<rparr>))
      in case i of None \<Rightarrow> (path_cleared, v) | Some i \<Rightarrow> (adjust_path i p, v))"

section \<open>Lemmas\<close>

lemma pv_log_db [simp]: "pv_db (pv_log m v) = pv_db v"
  by (simp add: pv_log_def)

text \<open>The table as a partial function: a null entry counts as absent.\<close>

definition capability :: "path_validator \<Rightarrow> string \<Rightarrow> path_information option" where
  "capability v k = Option.bind (smap_find (pv_db v) k) (\<lambda>i. i)"

lemma validate_path_known:
  "capability v (p_path p) = Some i \<Longrightarrow> validate_path p v = (adjust_path i p, v)"
  by (auto simp: capability_def validate_path_def bind_eq_Some_conv)

lemma validate_path_unknown:
  "capability v (p_path p) = None \<Longrightarrow> fst (validate_path p v) = path_cleared"
  by (auto simp: capability_def validate_path_def bind_eq_None_conv split: option.splits)

lemma validate_path_table:
  "smap_ok (pv_db v) \<Longrightarrow> smap_ok (pv_db (snd (validate_path p v))) \<and>
   capability (snd (validate_path p v)) = capability v"
  by (auto simp: validate_path_def capability_def std_map.ok_put std_map.find_put fun_eq_iff
      split: option.splits)

text \<open>Rounding: exact to half a thousand while it does not wrap around.\<close>

lemma round_unat:
  assumes "unat num + 500 < 2 ^ 32"
  shows "unat (roundToThousandths num mx) = min (unat mx) ((unat num + 500) div 1000 * 1000)"
proof -
  let ?r = "((num + 500) div 1000) * 1000"
  have s: "unat (num + 500) = unat num + 500"
    using assms by (simp add: unat_word_ariths)
  have d: "unat ((num + 500) div 1000) = (unat num + 500) div 1000"
    by (simp add: unat_div s)
  have le: "(unat num + 500) div 1000 * 1000 \<le> unat num + 500" by simp
  then have "unat ?r = (unat num + 500) div 1000 * 1000"
    using assms by (simp add: unat_word_ariths d)
  then show ?thesis
    by (auto simp: roundToThousandths_def Let_def word_less_nat_alt min_def)
qed

lemma round_le_max: "roundToThousandths num mx \<le> mx"
  by (simp add: roundToThousandths_def Let_def not_less)

lemma adjust_path_fields [simp]:
  "p_path (adjust_path i p) = p_path p"
  "p_filter (adjust_path i p) = (if filter_support i then p_filter p else [])"
  "p_suppress_unchanged (adjust_path i p) = (suppress_unchanged_support i \<and> p_suppress_unchanged p)"
  "p_max_silent_interval (adjust_path i p) =
     (if max_silent_interval_support i then p_max_silent_interval p else 0)"
  by (simp_all add: adjust_path_def Let_def)

lemma adjust_path_frequency:
  "p_sample_frequency (adjust_path i p) =
    (if p_sample_frequency p < sample_frequency_min i then sample_frequency_min i
     else if p_sample_frequency p > sample_frequency_max i then sample_frequency_max i
     else roundToThousandths (p_sample_frequency p) (sample_frequency_max i))"
  by (simp add: adjust_path_def Let_def)

text \<open>Entries with bounds in whole thousands, below the wrap-around of the rounding.\<close>

definition capability_ok :: "path_information \<Rightarrow> bool" where
  "capability_ok i \<longleftrightarrow> sample_frequency_min i \<le> sample_frequency_max i \<and>
     unat (sample_frequency_max i) + 500 < 2 ^ 32 \<and>
     unat (sample_frequency_min i) mod 1000 = 0 \<and> unat (sample_frequency_max i) mod 1000 = 0"

lemma adjusted_frequency:
  assumes "capability_ok i"
  shows "sample_frequency_min i \<le> p_sample_frequency (adjust_path i p) \<and>
    p_sample_frequency (adjust_path i p) \<le> sample_frequency_max i \<and>
    unat (p_sample_frequency (adjust_path i p)) mod 1000 = 0"
proof -
  let ?f = "unat (p_sample_frequency p)" and ?lo = "unat (sample_frequency_min i)"
    and ?hi = "unat (sample_frequency_max i)"
  have ok: "?lo \<le> ?hi" "?hi + 500 < 2 ^ 32" "?lo mod 1000 = 0" "?hi mod 1000 = 0"
    using assms by (simp_all add: capability_ok_def word_le_nat_alt)
  consider "?f < ?lo" | "?hi < ?f" "\<not> ?f < ?lo" | "?lo \<le> ?f" "?f \<le> ?hi" by linarith
  then show ?thesis
  proof cases
    case 3
    let ?r = "(?f + 500) div 1000 * 1000"
    have r: "unat (roundToThousandths (p_sample_frequency p) (sample_frequency_max i)) = min ?hi ?r"
      using 3 ok by (intro round_unat) simp
    obtain q where q: "?lo = 1000 * q" using ok(3) by (auto elim: dvdE)
    then have "q \<le> (?f + 500) div 1000" using 3 by simp
    then have "?lo \<le> ?r" using q by simp
    moreover have "min ?hi ?r mod 1000 = 0" using ok by (auto simp: min_def)
    ultimately show ?thesis
      using 3 ok r by (simp add: adjust_path_frequency word_less_nat_alt word_le_nat_alt not_less)
  qed (use ok in \<open>simp_all add: adjust_path_frequency word_less_nat_alt word_le_nat_alt\<close>)
qed

lemma round_thousand:
  assumes "unat num + 500 < 2 ^ 32" "unat num mod 1000 = 0" "num \<le> mx"
  shows "roundToThousandths num mx = num"
proof -
  obtain q where q: "unat num = 1000 * q" using assms(2) by (auto elim: dvdE)
  then have "(unat num + 500) div 1000 * 1000 = unat num" by simp
  then show ?thesis
    using round_unat [OF assms(1), of mx] assms(3)
    by (simp add: word_unat_eq_iff word_le_nat_alt min_def)
qed

text \<open>Validating what was validated changes nothing.\<close>

lemma adjust_path_idem:
  assumes ok: "capability_ok i"
  shows "adjust_path i (adjust_path i p) = adjust_path i p"
proof -
  let ?q = "adjust_path i p"
  have b: "sample_frequency_min i \<le> p_sample_frequency ?q"
    "p_sample_frequency ?q \<le> sample_frequency_max i" "unat (p_sample_frequency ?q) mod 1000 = 0"
    using adjusted_frequency [OF ok] by auto
  moreover have "unat (p_sample_frequency ?q) + 500 < 2 ^ 32"
    using b(2) ok by (simp add: capability_ok_def word_le_nat_alt)
  ultimately have "p_sample_frequency (adjust_path i ?q) = p_sample_frequency ?q"
    using round_thousand [of "p_sample_frequency ?q" "sample_frequency_max i"]
      leD [OF b(1)] leD [OF b(2)] by (simp add: adjust_path_frequency [of i ?q])
  then show ?thesis by (intro path_msg.equality) simp_all
qed

section \<open>Building the table\<close>

text \<open>The JSON entry that states all capabilities of a path.\<close>

definition information_json :: "path_information \<Rightarrow> json" where
  "information_json i = JObj
     [(''filter_support'', JBool (filter_support i)),
      (''max_silent_interval_support'', JBool (max_silent_interval_support i)),
      (''path'', JStr (pi_path i)),
      (''sample_frequency'', JObj [(''max'', JNum (uint (sample_frequency_max i))),
                                   (''min'', JNum (uint (sample_frequency_min i)))]),
      (''suppress_unchanged_support'', JBool (suppress_unchanged_support i))]"

lemma read_information_json:
  assumes "json_lib_ok jl" and "unat (sample_frequency_min i) < 2 ^ 31" "unat (sample_frequency_max i) < 2 ^ 31"
  shows "read_path_information jl (information_json i) = Inr i"
proof -
  have conv: "js_asInt jl (JNum (uint w)) = Inr w" if "unat w < 2 ^ 31" for w :: u32
  proof -
    have "uint w < 2 ^ 31" using that unfolding unat_eq_nat_uint by (simp only: nat_less_iff uint_ge_0) simp
    moreover have "- (2 ^ 31) \<le> uint w" by (rule order_trans [OF _ uint_ge_0]) simp
    ultimately show ?thesis using json_lib_ok_simps(3) [OF assms(1)] by simp
  qed
  note n = conv [OF assms(2)] conv [OF assms(3)]
  show ?thesis
    unfolding read_path_information_def information_json_def json_get.simps json_member.simps
    by (simp add: smap_find_def set_if_present_def json_lib_ok_simps [OF assms(1)] n
        new_path_information_def)
qed

lemma build_entries_ok:
  assumes "json_lib_ok jl"
  shows "\<forall>i \<in> set is. unat (sample_frequency_min i) < 2 ^ 31 \<and> unat (sample_frequency_max i) < 2 ^ 31 \<Longrightarrow>
   smap_ok (pv_db v) \<Longrightarrow>
   \<exists>v'. build_entries jl n (map information_json is) v = Inr (True, v') \<and>
     pv_db v' = fold (\<lambda>(k, i). smap_put k i) (map (\<lambda>i. (pi_path i, Some i)) is) (pv_db v)"
proof (induction "is" arbitrary: n v)
  case (Cons i "is")
  let ?v = "pv_log (''Path '' @ string_of_nat n @ '' -->'' @ js_styled jl (information_json i)) v"
  let ?v1 = "?v\<lparr>pv_db := smap_put (pi_path i) (Some i) (pv_db ?v)\<rparr>"
  have r: "read_path_information jl (information_json i) = Inr i"
    using Cons.prems assms by (intro read_information_json) auto
  have m: "json_member ''path'' (information_json i) = Inr (JStr (pi_path i))"
    by (simp add: information_json_def smap_find_def)
  have step: "build_entries jl n (map information_json (i # is)) v =
      build_entries jl (Suc n) (map information_json is) ?v1"
    by (simp only: list.map build_entries.simps Let_def m r res_bind.simps json.distinct if_False)
  have "smap_ok (pv_db ?v1)" using Cons.prems(2) by (simp add: std_map.ok_put)
  with Cons.IH [of ?v1 "Suc n"] Cons.prems(1) step show ?case by simp
qed simp

lemma build_db_capability:
  assumes "json_lib_ok jl" and "js_parse jl contents = Some (JObj [(''valid_paths'', JArr (map information_json is))])"
    and "\<forall>i \<in> set is. unat (sample_frequency_min i) < 2 ^ 31 \<and> unat (sample_frequency_max i) < 2 ^ 31"
    and "smap_ok (pv_db v)"
  shows "\<exists>v'. build_path_information_db jl f contents v = Inr (True, v') \<and>
    smap_find (pv_db v') = smap_find (pv_db v) ++ map_of (rev (map (\<lambda>i. (pi_path i, Some i)) is))"
proof -
  let ?kvs = "map (\<lambda>i. (pi_path i, Some i)) is"
  have m: "json_member ''valid_paths'' (JObj [(''valid_paths'', JArr (map information_json is))])
      = Inr (JArr (map information_json is))"
    by (simp add: smap_find_def)
  obtain v1 where v1: "read_path_information_file jl f contents v =
      (Some (JObj [(''valid_paths'', JArr (map information_json is))]), v1)" "pv_db v1 = pv_db v"
    using assms(2) by (simp add: read_path_information_file_def)
  define v2 where "v2 = pv_log (''Number of paths provided in json file = '' @
      string_of_nat (length (map information_json is))) v1"
  have "smap_ok (pv_db v2)" using assms(4) v1 by (simp add: v2_def)
  then obtain v' where v': "build_entries jl 0 (map information_json is) v2 = Inr (True, v')"
    "pv_db v' = fold (\<lambda>(k, i). smap_put k i) ?kvs (pv_db v2)"
    using build_entries_ok [OF assms(1,3), of v2 0] by blast
  have "build_path_information_db jl f contents v = Inr (True, v')"
    unfolding build_path_information_db_def Let_def v1(1) prod.case option.case m res_bind.simps
    using v'(1) unfolding v2_def by (simp only: json.distinct if_False json.case)
  moreover have "smap_find (pv_db v') = smap_find (pv_db v2) ++ map_of (rev ?kvs)"
    unfolding v'(2) using \<open>smap_ok (pv_db v2)\<close> by (rule std_map.find_fold_put)
  ultimately show ?thesis using v1(2) unfolding v2_def by auto
qed

text \<open>Printing after an unknown path was validated dereferences the null entry the lookup left.\<close>

lemma print_null_entry:
  "(k, None) \<in> set es \<Longrightarrow> print_entries es v = Inl NullPointer"
  by (induction es v rule: print_entries.induct) auto

lemma print_after_unknown:
  assumes "smap_ok (pv_db v)" "capability v (p_path p) = None"
  shows "print_path_information_db (snd (validate_path p v)) = Inl NullPointer"
proof -
  have "smap_find (pv_db (snd (validate_path p v))) (p_path p) = Some None"
  proof (cases "smap_find (pv_db v) (p_path p)")
    case None
    then show ?thesis using std_map.find_put [OF assms(1)] by (simp add: validate_path_def)
  next
    case (Some j)
    then have "j = None" using assms(2) by (simp add: capability_def)
    then show ?thesis using Some by (simp add: validate_path_def)
  qed
  then have "(p_path p, None) \<in> set (pv_db (snd (validate_path p v)))"
    using validate_path_table [OF assms(1)] by (simp add: smap_find_set)
  then show ?thesis unfolding print_path_information_db_def by (rule print_null_entry)
qed

end
