(* ===== verification/SensorMessages.thy ===== *)
theory SensorMessages
  imports Messages
begin

text \<open>
  The sensor messages of the devices (protos/telemetry_top.proto and the files that extend it), as
  far as the translators of lib-oc read them. A field that is read through its getter alone is its
  value, the default when unset; a field whose presence is tested is an option. A sub-message read
  through \<open>mutable_x()\<close> or \<open>x()\<close> is its default instance when unset. A message with one repeated
  field is that list.
\<close>

section \<open>Port and logical port\<close>

record interface_stats =
  if_pkts :: u64
  if_octets :: u64
  if_uc_pkts :: u64
  if_mc_pkts :: u64
  if_bc_pkts :: u64
  if_error :: u64

record interface_infos =
  ifd_if_name :: string
  ifd_init_time :: u64
  ifd_snmp_if_index :: u32
  ifd_parent_ae_name :: string
  ifd_ingress_stats :: interface_stats
  ifd_egress_stats :: interface_stats
  ifd_if_in_errors :: u64

record logical_interface_info =
  ifl_if_name :: string
  ifl_init_time :: u64
  ifl_snmp_if_index :: u32
  ifl_parent_ae_name :: string
  ifl_operational_status :: string
  ifl_ingress_pkts :: u64
  ifl_ingress_octets :: u64
  ifl_ingress_ucast_pkts :: u64
  ifl_ingress_mcast_pkts :: u64
  ifl_egress_pkts :: u64
  ifl_egress_octets :: u64

section \<open>Memory and processors\<close>

record cpu_application =
  ca_name :: string
  ca_bytes_allocated :: u64
  ca_allocations :: u64
  ca_frees :: u64
  ca_allocations_failed :: u64

record cpu_summary =
  cs_name :: string
  cs_size :: u64
  cs_bytes_allocated :: u64
  cs_utilization :: i32
  cs_application_utilization :: "cpu_application list"

record npu_memory_summary =
  ns_resource_name :: string
  ns_size :: u64
  ns_allocated :: u64
  ns_utilization :: i32

record npu_memory_partition =
  np_name :: string
  np_application_name :: string
  np_bytes_allocated :: u32
  np_allocation_count :: u32
  np_free_count :: u32

record npu_memory =
  nm_identifier :: string
  nm_summary :: "npu_memory_summary list"
  nm_partition :: "npu_memory_partition list"

record memory_load =
  ml_name :: string
  ml_average_util :: u32
  ml_highest_util :: u32
  ml_lowest_util :: u32
  ml_average_cache_hit_rate :: u32
  ml_highest_cache_hit_rate :: u32
  ml_lowest_cache_hit_rate :: u32

record packet_load =
  pl_identifier :: string
  pl_rate :: u64

record npu_util =
  nu_identifier :: string
  nu_utilization :: u32
  nu_packets :: "packet_load list"
  nu_memory :: "memory_load list"

section \<open>Firewall, packet and label-switched path statistics, key values\<close>

record memory_usage =
  mu_name :: string
  mu_allocated :: u64

record counter_stats =
  cn_name :: string
  cn_packets :: u64
  cn_bytes :: u64

record policer_stats =
  ps_name :: string
  ps_out_of_spec_packets :: u64
  ps_out_of_spec_bytes :: u64

record firewall_stats =
  fw_filter_name :: string
  fw_timestamp :: u64
  fw_memory_usage :: "memory_usage list"
  fw_counter_stats :: "counter_stats list"
  fw_policer_stats :: "policer_stats list"

record packet_stats_class =
  pc_name :: string
  pc_packet_count :: u64

record packet_stats_pfe =
  pp_identifier :: string
  pp_packet_stats :: "packet_stats_class list"

record packet_statistics =
  pk_packet_stats :: "packet_stats_class list"
  pk_packet_stats_pfe :: "packet_stats_pfe list"

record lsp_record =
  lsp_name :: string
  lsp_counter_name :: string
  lsp_packets :: u64
  lsp_bytes :: u64

record kv_pair =
  kvp_key :: string
  kvp_int32_val :: i32
  kvp_uint64_val :: u64
  kvp_string_val :: string

section \<open>Optics\<close>

record lane_stats =
  lane_number :: "u32 option"
  lane_laser_temperature :: "double_bits option"
  lane_laser_output_power_dbm :: "double_bits option"
  lane_laser_receiver_power_dbm :: "double_bits option"
  lane_laser_bias_current :: "double_bits option"
  lane_laser_output_power_high_alarm :: "bool option"
  lane_laser_output_power_low_alarm :: "bool option"
  lane_laser_output_power_high_warning :: "bool option"
  lane_laser_output_power_low_warning :: "bool option"
  lane_laser_receiver_power_high_alarm :: "bool option"
  lane_laser_receiver_power_low_alarm :: "bool option"
  lane_laser_receiver_power_high_warning :: "bool option"
  lane_laser_receiver_power_low_warning :: "bool option"
  lane_laser_bias_current_high_alarm :: "bool option"
  lane_laser_bias_current_low_alarm :: "bool option"
  lane_laser_bias_current_high_warning :: "bool option"
  lane_laser_bias_current_low_warning :: "bool option"
  lane_tx_loss_of_signal_alarm :: "bool option"
  lane_rx_loss_of_signal_alarm :: "bool option"
  lane_tx_laser_disabled_alarm :: "bool option"

record optics_diag =
  optics_type :: "u32 option"
  module_temp :: "double_bits option"
  module_temp_high_alarm_threshold :: "double_bits option"
  module_temp_low_alarm_threshold :: "double_bits option"
  module_temp_high_warning_threshold :: "double_bits option"
  module_temp_low_warning_threshold :: "double_bits option"
  laser_output_power_high_alarm_threshold_dbm :: "double_bits option"
  laser_output_power_low_alarm_threshold_dbm :: "double_bits option"
  laser_output_power_high_warning_threshold_dbm :: "double_bits option"
  laser_output_power_low_warning_threshold_dbm :: "double_bits option"
  laser_rx_power_high_alarm_threshold_dbm :: "double_bits option"
  laser_rx_power_low_alarm_threshold_dbm :: "double_bits option"
  laser_rx_power_high_warning_threshold_dbm :: "double_bits option"
  laser_rx_power_low_warning_threshold_dbm :: "double_bits option"
  laser_bias_current_high_alarm_threshold :: "double_bits option"
  laser_bias_current_low_alarm_threshold :: "double_bits option"
  laser_bias_current_high_warning_threshold :: "double_bits option"
  laser_bias_current_low_warning_threshold :: "double_bits option"
  module_temp_high_alarm :: "bool option"
  module_temp_low_alarm :: "bool option"
  module_temp_high_warning :: "bool option"
  module_temp_low_warning :: "bool option"
  optics_lane_diag_stats :: "lane_stats list"

record optics_infos =
  op_if_name :: string
  op_diag_stats :: optics_diag

section \<open>Inline flow sampling\<close>

text \<open>The fourteen counters of one address family; the float is read as a double.\<close>

record jflow_family =
  jf_flow_packets :: u64
  jf_flow_bytes :: u64
  jf_total_flows :: u64
  jf_active_flows :: u64
  jf_flows_exported :: u64
  jf_packets_exported :: u64
  jf_flows_inactive_timed_out :: u64
  jf_flows_active_timed_out :: u64
  jf_flow_create_failure :: u64
  jf_route_lookup_failure :: u64
  jf_autonomous_system_lookup_failure :: u64
  jf_flow_packet_export_failure :: u64
  jf_flow_table_utilization :: double_bits
  jf_flow_insert_count :: u64

record jflow_npu_stats =
  jn_npu_identifier :: u32
  jn_ipv4 :: jflow_family
  jn_ipv6 :: jflow_family
  jn_vpls :: jflow_family
  jn_mpls :: jflow_family

record inline_jflow =
  jm_ipv4_flows_export_format :: string
  jm_ipv4_route_record_cnt :: u32
  jm_ipv6_route_record_cnt :: u32
  jm_mpls_route_record_cnt :: u32
  jm_memory_alloc_fail_cnt :: u32
  jm_last_clear_timestamp :: u32
  jm_npu_stats :: "jflow_npu_stats list"

definition inline_jflow_cleared :: inline_jflow where
  "inline_jflow_cleared = \<lparr>jm_ipv4_flows_export_format = [], jm_ipv4_route_record_cnt = 0, jm_ipv6_route_record_cnt = 0, jm_mpls_route_record_cnt = 0, jm_memory_alloc_fail_cnt = 0, jm_last_clear_timestamp = 0,
     jm_npu_stats = []\<rparr>"

definition packet_statistics_cleared :: packet_statistics where
  "packet_statistics_cleared = \<lparr>pk_packet_stats = [], pk_packet_stats_pfe = []\<rparr>"

section \<open>The extensible message and the stream that carries it\<close>

record sensors =
  jnpr_npu_utilization_ext :: "npu_util list option"
  jnpr_firewall_ext :: "firewall_stats list option"
  jnpr_packet_statistics_ext :: "packet_statistics option"
  jnpr_interface_ext :: "interface_infos list option"
  jnprLogicalInterfaceExt :: "logical_interface_info list option"
  npu_memory_ext :: "npu_memory list option"
  cpu_memory_util_ext :: "cpu_summary list option"
  jnpr_optics_ext :: "optics_infos list option"
  jnpr_lsp_statistics_ext :: "lsp_record list option"
  kvresponseExt :: "kv_pair list option"
  inline_jflow_stats_ext :: "inline_jflow option"

definition no_sensors :: sensors where
  "no_sensors = \<lparr>jnpr_npu_utilization_ext = None, jnpr_firewall_ext = None,
     jnpr_packet_statistics_ext = None, jnpr_interface_ext = None, jnprLogicalInterfaceExt = None,
     npu_memory_ext = None, cpu_memory_util_ext = None, jnpr_optics_ext = None,
     jnpr_lsp_statistics_ext = None, kvresponseExt = None, inline_jflow_stats_ext = None\<rparr>"

text \<open>
  \<open>ts_sensors\<close> is \<open>enterprise().GetExtension(juniperNetworks)\<close>: the default instance when either is
  unset.
\<close>

record telemetry_stream =
  ts_system_id :: string
  ts_component_id :: u32
  ts_sub_component_id :: u32
  ts_sensor_name :: string
  ts_sequence_number :: u32
  ts_timestamp :: u64
  ts_sensors :: sensors

end
