(* ===== verification/Translators.thy ===== *)
theory Translators
  imports SensorMessages CppString StdMap ServerLog
begin

text \<open>
  The translators of lib-oc: each \<open>iterate\<close> turns one sensor message into key-value pairs of the
  OpenConfig message, with the macros of oc.hpp; the registry of OpenConfig.cpp, filled by
  \<open>lib_oc_init\<close>, and the choice of the translator by the extension that is present (oc.cpp). A
  translator's \<open>*_kvs\<close> function is the pairs its loop body adds, in the order it adds them.
\<close>

section \<open>Helpers of the generated code\<close>

definition oc_set_prefix :: "string \<Rightarrow> string \<Rightarrow> string \<Rightarrow> key_value" where
  "oc_set_prefix base name attr =
     kv_str ''__prefix__'' (base @ ''[name='' @ [CHR 0x27] @ name @ [CHR 0x27] @ '']/'' @ attr @ ''/'')"

definition oc_set_prefix_no_attr :: "string \<Rightarrow> string \<Rightarrow> key_value" where
  "oc_set_prefix_no_attr base name =
     kv_str ''__prefix__'' (base @ ''[name='' @ [CHR 0x27] @ name @ [CHR 0x27] @ '']/'')"

text \<open>\<open>if (v) { ... }\<close> around pairs that are added.\<close>

definition unless_zero :: "u64 \<Rightarrow> key_value list \<Rightarrow> key_value list" where
  "unless_zero v kvs = (if v = 0 then [] else kvs)"

definition nonzero_uint :: "string \<Rightarrow> u64 \<Rightarrow> key_value list" where
  "nonzero_uint k v = unless_zero v [kv_uint k v]"

text \<open>A double is true unless it is one of the two zeros.\<close>

definition double_true :: "double_bits \<Rightarrow> bool" where
  "double_true d \<longleftrightarrow> d \<noteq> 0 \<and> d \<noteq> 0x8000000000000000"

definition nonzero_double :: "string \<Rightarrow> double_bits \<Rightarrow> key_value list" where
  "nonzero_double k d = (if double_true d then [kv_double k d] else [])"

definition has_double :: "string \<Rightarrow> double_bits option \<Rightarrow> key_value list" where
  "has_double k x = (case x of None \<Rightarrow> [] | Some d \<Rightarrow> [kv_double k d])"

definition has_bool :: "string \<Rightarrow> bool option \<Rightarrow> key_value list" where
  "has_bool k x = (case x of None \<Rightarrow> [] | Some b \<Rightarrow> [kv_bool k b])"

definition has_uint :: "string \<Rightarrow> u32 option \<Rightarrow> key_value list" where
  "has_uint k x = (case x of None \<Rightarrow> [] | Some n \<Rightarrow> [kv_uint k (ucast n)])"

text \<open>\<open>MutableExtension\<close>: the extension, its default instance when it is absent.\<close>

definition mutable_extension :: "'a \<Rightarrow> 'a option \<Rightarrow> 'a" where
  "mutable_extension d x = (case x of None \<Rightarrow> d | Some m \<Rightarrow> m)"

definition component_base :: string where
  "component_base = ''/oc-path/components/component/subcomponents/subcomponent''"

definition interface_base :: string where
  "interface_base = ''/oc-path/interfaces/interface''"

definition cpu_name :: "u32 \<Rightarrow> string" where
  "cpu_name component = ''FPC'' @ string_of_u32 component @ '':CPU0''"

section \<open>Port (OpenConfigPort.cpp)\<close>

definition port_kvs :: "interface_infos \<Rightarrow> key_value list" where
  "port_kvs ifd =
     (let eg = ifd_egress_stats ifd; ing = ifd_ingress_stats ifd
      in [oc_set_prefix_no_attr interface_base (ifd_if_name ifd),
          kv_int ''init_time'' (ifd_init_time ifd),
          kv_int ''snmp_index'' (ucast (ifd_snmp_if_index ifd)),
          kv_str ''parent_ae_name'' (ifd_parent_ae_name ifd)] @
         unless_zero (if_octets eg)
           [kv_int ''counters/out_octets'' (if_octets eg),
            kv_int ''counters/out_packets'' (if_pkts eg),
            kv_int ''counters/out-unicast-pkts'' (if_uc_pkts eg),
            kv_int ''counters/out-multicast-pkts'' (if_mc_pkts eg),
            kv_int ''counters/out-broadcast-pkts'' (if_bc_pkts eg),
            kv_int ''counters/out-discards'' (if_error eg)] @
         unless_zero (if_octets ing)
           [kv_int ''counters/in-octets'' (if_octets ing),
            kv_int ''counters/in-packets'' (if_pkts ing),
            kv_int ''counters/in-unicast-pkts'' (if_uc_pkts ing),
            kv_int ''counters/in-multicast-pkts'' (if_mc_pkts ing),
            kv_int ''counters/in-broadcast-pkts'' (if_bc_pkts ing)] @
         unless_zero (ifd_if_in_errors ifd)
           [kv_int ''counters/in-errors'' (ifd_if_in_errors ifd)])"

definition OpenConfigPort_iterate :: "sensors \<Rightarrow> open_config_data \<Rightarrow> open_config_data" where
  "OpenConfigPort_iterate h d =
     add_kvs (concat (map port_kvs (mutable_extension [] (jnpr_interface_ext h)))) d"

section \<open>Logical port (OpenConfigLogicalPort.cpp)\<close>

definition split_ifl_name :: "string \<Rightarrow> string \<times> string" where
  "split_ifl_name ifl =
     (case str_find_from ''.'' ifl 0 of
        Some pos \<Rightarrow> (take pos ifl, drop (pos + 1) ifl)
      | None \<Rightarrow> (ifl, ''0''))"

definition logical_port_kvs :: "logical_interface_info \<Rightarrow> key_value list" where
  "logical_port_kvs ifl =
     (let (port_name, unit) = split_ifl_name (ifl_if_name ifl);
          sub_unit = ''subinterfaces/subinterface[index='' @ [CHR 0x27] @ unit @ [CHR 0x27] @ '']''
      in [oc_set_prefix interface_base port_name sub_unit,
          kv_int ''init_time'' (ifl_init_time ifl),
          kv_int ''snmp_index'' (ucast (ifl_snmp_if_index ifl)),
          kv_str ''parent_ae_name'' (ifl_parent_ae_name ifl),
          kv_str ''operational_state'' (ifl_operational_status ifl)] @
         unless_zero (ifl_egress_octets ifl)
           [kv_int ''counters/out_octets'' (ifl_egress_octets ifl),
            kv_int ''counters/out_packets'' (ifl_egress_pkts ifl)] @
         unless_zero (ifl_ingress_octets ifl)
           [kv_int ''counters/in-octets'' (ifl_ingress_octets ifl),
            kv_int ''counters/in-packets'' (ifl_ingress_pkts ifl),
            kv_int ''counters/in-unicast-pkts'' (ifl_ingress_ucast_pkts ifl),
            kv_int ''counters/in-multicast-pkts'' (ifl_ingress_mcast_pkts ifl)])"

definition OpenConfigLogicalPort_iterate :: "sensors \<Rightarrow> open_config_data \<Rightarrow> open_config_data" where
  "OpenConfigLogicalPort_iterate h d =
     add_kvs (concat (map logical_port_kvs (mutable_extension [] (jnprLogicalInterfaceExt h)))) d"

section \<open>CPU memory (OpenConfigCpuMemoryUtilization.cpp)\<close>

definition cpu_application_kvs :: "string \<Rightarrow> cpu_application \<Rightarrow> key_value list" where
  "cpu_application_kvs summary app =
     (let key = summary @ ''/applications/'' @ ca_name app
      in unless_zero (ca_bytes_allocated app)
           [kv_uint (key @ ''/bytes_allocated'') (ca_bytes_allocated app),
            kv_uint (key @ ''/allocations'') (ca_allocations app),
            kv_uint (key @ ''/frees'') (ca_frees app),
            kv_uint (key @ ''/allocations_failed'') (ca_allocations_failed app)])"

definition cpu_summary_kvs :: "cpu_summary \<Rightarrow> key_value list" where
  "cpu_summary_kvs summary =
     unless_zero (cs_bytes_allocated summary)
       ([kv_uint (cs_name summary @ ''/size'') (cs_size summary),
         kv_uint (cs_name summary @ ''/bytes_allocated'') (cs_bytes_allocated summary),
         kv_int (cs_name summary @ ''/utilization'') (scast (cs_utilization summary))] @
        concat (map (cpu_application_kvs (cs_name summary)) (cs_application_utilization summary)))"

definition OpenConfigCpuMemoryUtilization_iterate ::
    "sensors \<Rightarrow> open_config_data \<Rightarrow> open_config_data" where
  "OpenConfigCpuMemoryUtilization_iterate h d =
     add_kvs (oc_set_prefix component_base (cpu_name (oc_component_id d)) ''memory_utilization'' #
       concat (map cpu_summary_kvs (mutable_extension [] (cpu_memory_util_ext h)))) d"

section \<open>NPU memory (OpenConfigNpuMem.cpp)\<close>

definition npu_summary_kvs :: "npu_memory_summary \<Rightarrow> key_value list" where
  "npu_summary_kvs summary =
     (let key = ''summary/'' @ ns_resource_name summary
      in unless_zero (ns_allocated summary)
           [kv_uint (key @ ''/size'') (ns_size summary),
            kv_uint (key @ ''/allocated'') (ns_allocated summary),
            kv_int (key @ ''/utilization'') (scast (ns_utilization summary))])"

definition npu_partition_kvs :: "npu_memory_partition \<Rightarrow> key_value list" where
  "npu_partition_kvs part =
     (let key = ''partition/'' @ np_application_name part
      in unless_zero (ucast (np_bytes_allocated part))
           [kv_str (key @ ''/partition_name'') (np_name part),
            kv_int (key @ ''/bytes_allocated'') (ucast (np_bytes_allocated part)),
            kv_int (key @ ''/allocation_count'') (ucast (np_allocation_count part)),
            kv_int (key @ ''/free_count'') (ucast (np_free_count part))])"

definition npu_mem_kvs :: "npu_memory \<Rightarrow> key_value list" where
  "npu_mem_kvs m =
     oc_set_prefix component_base (nm_identifier m) ''memory'' #
     concat (map npu_summary_kvs (nm_summary m)) @
     concat (map npu_partition_kvs (nm_partition m))"

definition OpenConfigNpuMem_iterate :: "sensors \<Rightarrow> open_config_data \<Rightarrow> open_config_data" where
  "OpenConfigNpuMem_iterate h d =
     add_kvs (concat (map npu_mem_kvs (mutable_extension [] (npu_memory_ext h)))) d"

section \<open>NPU utilization (OpenConfigNpuUtilization.cpp)\<close>

definition memory_load_kvs :: "memory_load \<Rightarrow> key_value list" where
  "memory_load_kvs mem =
     (let key = ''memory/'' @ ml_name mem
      in [kv_int (key @ ''/average_util'') (ucast (ml_average_util mem)),
          kv_int (key @ ''/highest_util'') (ucast (ml_highest_util mem)),
          kv_int (key @ ''/lowest_util'') (ucast (ml_lowest_util mem)),
          kv_int (key @ ''/average_cache_hit_rate'') (ucast (ml_average_cache_hit_rate mem)),
          kv_int (key @ ''/highest_cache_hit_rate'') (ucast (ml_highest_cache_hit_rate mem)),
          kv_int (key @ ''/lowest_cache_hit_rate'') (ucast (ml_lowest_cache_hit_rate mem))])"

definition packet_load_kvs :: "packet_load \<Rightarrow> key_value list" where
  "packet_load_kvs p =
     unless_zero (pl_rate p) [kv_uint (''packet/'' @ pl_identifier p @ ''/rate'') (pl_rate p)]"

definition npu_util_kvs :: "npu_util \<Rightarrow> key_value list" where
  "npu_util_kvs util =
     [oc_set_prefix component_base (nu_identifier util) ''utilization'',
      kv_int ''metric'' (ucast (nu_utilization util))] @
     concat (map memory_load_kvs (nu_memory util)) @
     concat (map packet_load_kvs (nu_packets util))"

definition OpenConfigNpuUtilization_iterate :: "sensors \<Rightarrow> open_config_data \<Rightarrow> open_config_data" where
  "OpenConfigNpuUtilization_iterate h d =
     add_kvs (concat (map npu_util_kvs (mutable_extension [] (jnpr_npu_utilization_ext h)))) d"

section \<open>Firewall (OpenConfigFirewall.cpp)\<close>

definition memory_usage_kvs :: "memory_usage \<Rightarrow> key_value list" where
  "memory_usage_kvs mem =
     unless_zero (mu_allocated mem) [kv_int (''memory_usage/'' @ mu_name mem) (mu_allocated mem)]"

definition counter_stats_kvs :: "counter_stats \<Rightarrow> key_value list" where
  "counter_stats_kvs cntr =
     unless_zero (cn_packets cntr)
       [kv_int (''counters/packets/'' @ cn_name cntr) (cn_packets cntr),
        kv_int (''counters/bytes/'' @ cn_name cntr) (cn_bytes cntr)]"

definition policer_stats_kvs :: "policer_stats \<Rightarrow> key_value list" where
  "policer_stats_kvs pol =
     unless_zero (ps_out_of_spec_packets pol)
       [kv_int (''policers/out-of-spec-packets/'' @ ps_name pol) (ps_out_of_spec_packets pol),
        kv_int (''policers/out-of-spec-bytes/'' @ ps_name pol) (ps_out_of_spec_bytes pol)]"

definition firewall_kvs :: "firewall_stats \<Rightarrow> key_value list" where
  "firewall_kvs fw =
     [oc_set_prefix_no_attr ''/oc-path/firewalls/'' (fw_filter_name fw),
      kv_int ''timestamp'' (fw_timestamp fw)] @
     concat (map memory_usage_kvs (fw_memory_usage fw)) @
     concat (map counter_stats_kvs (fw_counter_stats fw)) @
     concat (map policer_stats_kvs (fw_policer_stats fw))"

definition OpenConfigFirewall_iterate :: "sensors \<Rightarrow> open_config_data \<Rightarrow> open_config_data" where
  "OpenConfigFirewall_iterate h d =
     add_kvs (concat (map firewall_kvs (mutable_extension [] (jnpr_firewall_ext h)))) d"

section \<open>Packet statistics (OpenConfigPacketStats.cpp)\<close>

definition packet_class_kvs :: "packet_stats_class \<Rightarrow> key_value list" where
  "packet_class_kvs c = unless_zero (pc_packet_count c) [kv_int (pc_name c) (pc_packet_count c)]"

definition packet_pfe_kvs :: "packet_stats_pfe \<Rightarrow> key_value list" where
  "packet_pfe_kvs pfe =
     oc_set_prefix component_base (pp_identifier pfe) ''packet_statistics'' #
     concat (map packet_class_kvs (pp_packet_stats pfe))"

definition OpenConfigPacketStats_iterate :: "sensors \<Rightarrow> open_config_data \<Rightarrow> open_config_data" where
  "OpenConfigPacketStats_iterate h d =
     (let m = mutable_extension packet_statistics_cleared (jnpr_packet_statistics_ext h)
      in add_kvs (oc_set_prefix component_base (cpu_name (oc_component_id d)) ''packet_statistics'' #
           concat (map packet_class_kvs (pk_packet_stats m)) @
           concat (map packet_pfe_kvs (pk_packet_stats_pfe m))) d)"

section \<open>Label-switched paths (OpenConfigLspStats.cpp)\<close>

definition lsp_kvs :: "lsp_record \<Rightarrow> key_value list" where
  "lsp_kvs r =
     unless_zero (lsp_packets r)
       [oc_set_prefix ''/mpls/lsps/constrained-path/tunnels/tunnel'' (lsp_name r) ''state/counters'',
        kv_int (lsp_counter_name r @ ''/packets'') (lsp_packets r),
        kv_int (lsp_counter_name r @ ''/bytes'') (lsp_bytes r)]"

definition OpenConfigLspStats_iterate :: "sensors \<Rightarrow> open_config_data \<Rightarrow> open_config_data" where
  "OpenConfigLspStats_iterate h d =
     add_kvs (concat (map lsp_kvs (mutable_extension [] (jnpr_lsp_statistics_ext h)))) d"

section \<open>Key values (OpenConfigKeyvalue.cpp)\<close>

definition keyvalue_kv :: "kv_pair \<Rightarrow> key_value" where
  "keyvalue_kv p =
     (if kvp_string_val p \<noteq> [] then kv_str (kvp_key p) (kvp_string_val p)
      else if kvp_int32_val p \<noteq> 0 then kv_int (kvp_key p) (scast (kvp_int32_val p))
      else if kvp_uint64_val p \<noteq> 0 then kv_uint (kvp_key p) (kvp_uint64_val p)
      else \<lparr>kv_key = kvp_key p, kv_val = ValueNotSet\<rparr>)"

definition OpenConfigKeyvalue_iterate :: "sensors \<Rightarrow> open_config_data \<Rightarrow> open_config_data" where
  "OpenConfigKeyvalue_iterate h d =
     add_kvs (map keyvalue_kv (mutable_extension [] (kvresponseExt h))) d"

section \<open>Optics (OpenConfigOptics.cpp)\<close>

definition lane_kvs :: "lane_stats \<Rightarrow> key_value list" where
  "lane_kvs lane =
     (let lanenumber = (case lane_number lane of None \<Rightarrow> ''unknown'' | Some n \<Rightarrow> string_of_u32 n);
          key = ''lanediags/'' @ lanenumber
      in has_uint (key @ ''/lane_number'') (lane_number lane) @
         has_double (key @ ''/lane_laser_temperature'') (lane_laser_temperature lane) @
         has_double (key @ ''/lane_laser_output_power_dbm'') (lane_laser_output_power_dbm lane) @
         has_double (key @ ''/lane_laser_receiver_power_dbm'') (lane_laser_receiver_power_dbm lane) @
         has_double (key @ ''/lane_laser_bias_current'') (lane_laser_bias_current lane) @
         has_bool (key @ ''/lane_laser_output_power_high_alarm'') (lane_laser_output_power_high_alarm lane) @
         has_bool (key @ ''/lane_laser_output_power_low_alarm'') (lane_laser_output_power_low_alarm lane) @
         has_bool (key @ ''/lane_laser_output_power_high_warning'') (lane_laser_output_power_high_warning lane) @
         has_bool (key @ ''/lane_laser_output_power_low_warning'') (lane_laser_output_power_low_warning lane) @
         has_bool (key @ ''/lane_laser_receiver_power_high_alarm'') (lane_laser_receiver_power_high_alarm lane) @
         has_bool (key @ ''/lane_laser_receiver_power_low_alarm'') (lane_laser_receiver_power_low_alarm lane) @
         has_bool (key @ ''/lane_laser_receiver_power_high_warning'') (lane_laser_receiver_power_high_warning lane) @
         has_bool (key @ ''/lane_laser_receiver_power_low_warning'') (lane_laser_receiver_power_low_warning lane) @
         has_bool (key @ ''/lane_laser_bias_current_high_alarm'') (lane_laser_bias_current_high_alarm lane) @
         has_bool (key @ ''/lane_laser_bias_current_low_alarm'') (lane_laser_bias_current_low_alarm lane) @
         has_bool (key @ ''/lane_laser_bias_current_high_warning'') (lane_laser_bias_current_high_warning lane) @
         has_bool (key @ ''/lane_laser_bias_current_low_warning'') (lane_laser_bias_current_low_warning lane) @
         has_bool (key @ ''/lane_tx_loss_of_signal_alarm'') (lane_tx_loss_of_signal_alarm lane) @
         has_bool (key @ ''/lane_rx_loss_of_signal_alarm'') (lane_rx_loss_of_signal_alarm lane) @
         has_bool (key @ ''/lane_tx_laser_disabled_alarm'') (lane_tx_laser_disabled_alarm lane))"

definition optics_kvs :: "optics_infos \<Rightarrow> key_value list" where
  "optics_kvs element =
     (let diags = op_diag_stats element
      in [oc_set_prefix interface_base (op_if_name element) ''optics''] @
         has_uint ''optics_type'' (optics_type diags) @
         has_double ''module_temp'' (module_temp diags) @
         has_double ''module_temp_high_alarm_threshold'' (module_temp_high_alarm_threshold diags) @
         has_double ''module_temp_low_alarm_threshold'' (module_temp_low_alarm_threshold diags) @
         has_double ''module_temp_high_warning_threshold''
           (module_temp_high_warning_threshold diags) @
         has_double ''module_temp_low_warning_threshold''
           (module_temp_low_warning_threshold diags) @
         has_double ''laser_output_power_high_alarm_threshold_dbm''
           (laser_output_power_high_alarm_threshold_dbm diags) @
         has_double ''laser_output_power_low_alarm_threshold_dbm''
           (laser_output_power_low_alarm_threshold_dbm diags) @
         has_double ''laser_output_power_high_warning_threshold_dbm''
           (laser_output_power_high_warning_threshold_dbm diags) @
         has_double ''laser_output_power_low_warning_threshold_dbm''
           (laser_output_power_low_warning_threshold_dbm diags) @
         has_double ''laser_rx_power_high_alarm_threshold_dbm''
           (laser_rx_power_high_alarm_threshold_dbm diags) @
         has_double ''laser_rx_power_low_alarm_threshold_dbm''
           (laser_rx_power_low_alarm_threshold_dbm diags) @
         has_double ''laser_rx_power_high_warning_threshold_dbm''
           (laser_rx_power_high_warning_threshold_dbm diags) @
         has_double ''laser_rx_power_low_warning_threshold_dbm''
           (laser_rx_power_low_warning_threshold_dbm diags) @
         has_double ''laser_bias_current_high_alarm_threshold''
           (laser_bias_current_high_alarm_threshold diags) @
         has_double ''laser_bias_current_low_alarm_threshold''
           (laser_bias_current_low_alarm_threshold diags) @
         has_double ''laser_bias_current_high_warning_threshold''
           (laser_bias_current_high_warning_threshold diags) @
         has_double ''laser_bias_current_low_warning_threshold''
           (laser_bias_current_low_warning_threshold diags) @
         has_bool ''module_temp_high_alarm'' (module_temp_high_alarm diags) @
         has_bool ''module_temp_low_alarm'' (module_temp_low_alarm diags) @
         has_bool ''module_temp_high_warning'' (module_temp_high_warning diags) @
         has_bool ''module_temp_low_warning'' (module_temp_low_warning diags) @
         concat (map lane_kvs (optics_lane_diag_stats diags)))"

definition OpenConfigOptics_iterate :: "sensors \<Rightarrow> open_config_data \<Rightarrow> open_config_data" where
  "OpenConfigOptics_iterate h d =
     add_kvs (concat (map optics_kvs (mutable_extension [] (jnpr_optics_ext h)))) d"

section \<open>Inline flow sampling (OpenConfigInlineJflow.cpp)\<close>

text \<open>The four families are written out in the code with the same fields in the same order.\<close>

definition jflow_family_kvs :: "string \<Rightarrow> jflow_family \<Rightarrow> key_value list" where
  "jflow_family_kvs fam f =
     nonzero_uint (fam @ ''_flow_packets'') (jf_flow_packets f) @
     nonzero_uint (fam @ ''_flow_bytes'') (jf_flow_bytes f) @
     nonzero_uint (fam @ ''_total_flows'') (jf_total_flows f) @
     nonzero_uint (fam @ ''_active_flows'') (jf_active_flows f) @
     nonzero_uint (fam @ ''_flows_exported'') (jf_flows_exported f) @
     nonzero_uint (fam @ ''_packets_exported'') (jf_packets_exported f) @
     nonzero_uint (fam @ ''_flows_inactive_timed_out'') (jf_flows_inactive_timed_out f) @
     nonzero_uint (fam @ ''_flows_active_timed_out'') (jf_flows_active_timed_out f) @
     nonzero_uint (fam @ ''_flow_create_failure'') (jf_flow_create_failure f) @
     nonzero_uint (fam @ ''_route_lookup_failure'') (jf_route_lookup_failure f) @
     nonzero_uint (fam @ ''_autonomous_system_lookup_failure'') (jf_autonomous_system_lookup_failure f) @
     nonzero_uint (fam @ ''_flow_packet_export_failure'') (jf_flow_packet_export_failure f) @
     nonzero_double (fam @ ''_flow_table_utilization'') (jf_flow_table_utilization f) @
     nonzero_uint (fam @ ''_flow_insert_count'') (jf_flow_insert_count f)"

definition npu_slot_name :: "u32 \<Rightarrow> u32 \<Rightarrow> string" where
  "npu_slot_name component npu_identifier =
     (let lc_slot = (ucast component :: u8); pfe_slot = (ucast (and npu_identifier 0xf) :: u8)
      in ''FPC'' @ string_of_nat (unat lc_slot) @ '':'' @ ''NPU'' @ string_of_nat (unat pfe_slot))"

definition jflow_ipv4_kvs :: "jflow_npu_stats \<Rightarrow> key_value list" where
  "jflow_ipv4_kvs pfe = jflow_family_kvs ''ipv4'' (jn_ipv4 pfe)"

definition jflow_ipv6_kvs :: "jflow_npu_stats \<Rightarrow> key_value list" where
  "jflow_ipv6_kvs pfe = jflow_family_kvs ''ipv6'' (jn_ipv6 pfe)"

definition jflow_vpls_kvs :: "jflow_npu_stats \<Rightarrow> key_value list" where
  "jflow_vpls_kvs pfe = jflow_family_kvs ''vpls'' (jn_vpls pfe)"

definition jflow_mpls_kvs :: "jflow_npu_stats \<Rightarrow> key_value list" where
  "jflow_mpls_kvs pfe = jflow_family_kvs ''mpls'' (jn_mpls pfe)"

lemmas jflow_families = jflow_ipv4_kvs_def jflow_ipv6_kvs_def jflow_vpls_kvs_def jflow_mpls_kvs_def

definition jflow_npu_kvs :: "u32 \<Rightarrow> jflow_npu_stats \<Rightarrow> key_value list" where
  "jflow_npu_kvs component pfe =
     oc_set_prefix component_base (npu_slot_name component (jn_npu_identifier pfe)) ''jflow'' #
     jflow_ipv4_kvs pfe @ jflow_ipv6_kvs pfe @ jflow_vpls_kvs pfe @ jflow_mpls_kvs pfe"

definition OpenConfigInlineJflow_iterate :: "sensors \<Rightarrow> open_config_data \<Rightarrow> open_config_data" where
  "OpenConfigInlineJflow_iterate h d =
     (let m = mutable_extension inline_jflow_cleared (inline_jflow_stats_ext h)
      in add_kvs (oc_set_prefix component_base (cpu_name (oc_component_id d)) ''jflow'' #
           kv_str ''ipv4_flows_export_format'' (jm_ipv4_flows_export_format m) #
           nonzero_uint ''ipv4_route_record_cnt'' (ucast (jm_ipv4_route_record_cnt m)) @
           nonzero_uint ''ipv6_route_record_cnt'' (ucast (jm_ipv6_route_record_cnt m)) @
           nonzero_uint ''mpls_route_record_cnt'' (ucast (jm_mpls_route_record_cnt m)) @
           nonzero_uint ''memory_alloc_fail_cnt'' (ucast (jm_memory_alloc_fail_cnt m)) @
           nonzero_uint ''last_clear_timestamp'' (ucast (jm_last_clear_timestamp m)) @
           concat (map (jflow_npu_kvs (oc_component_id d)) (jm_npu_stats m))) d)"

section \<open>The registry (OpenConfig.cpp, oc.cpp)\<close>

datatype translator =
    OpenConfigNpuUtilization | OpenConfigFirewall | OpenConfigPacketStats | OpenConfigPort
  | OpenConfigLogicalPort | OpenConfigNpuMem | OpenConfigCpuMemoryUtilization | OpenConfigOptics
  | OpenConfigLspStats | OpenConfigKeyvalue | OpenConfigInlineJflow

fun iterate :: "translator \<Rightarrow> sensors \<Rightarrow> open_config_data \<Rightarrow> open_config_data" where
  "iterate OpenConfigNpuUtilization = OpenConfigNpuUtilization_iterate"
|   "iterate OpenConfigFirewall = OpenConfigFirewall_iterate"
|   "iterate OpenConfigPacketStats = OpenConfigPacketStats_iterate"
|   "iterate OpenConfigPort = OpenConfigPort_iterate"
|   "iterate OpenConfigLogicalPort = OpenConfigLogicalPort_iterate"
|   "iterate OpenConfigNpuMem = OpenConfigNpuMem_iterate"
|   "iterate OpenConfigCpuMemoryUtilization = OpenConfigCpuMemoryUtilization_iterate"
|   "iterate OpenConfigOptics = OpenConfigOptics_iterate"
|   "iterate OpenConfigLspStats = OpenConfigLspStats_iterate"
|   "iterate OpenConfigKeyvalue = OpenConfigKeyvalue_iterate"
|   "iterate OpenConfigInlineJflow = OpenConfigInlineJflow_iterate"

type_synonym oc_registry = "(string, translator) smap"

definition registerSelf :: "string \<Rightarrow> translator \<Rightarrow> oc_registry \<Rightarrow> oc_registry" where
  "registerSelf path_name handler reg = smap_put path_name handler reg"

definition oc_find :: "string \<Rightarrow> oc_registry \<Rightarrow> translator option" where
  "oc_find name reg = smap_find reg name"

definition display :: "oc_registry \<Rightarrow> server_log \<Rightarrow> server_log" where
  "display reg l =
     foldl (\<lambda>l e. log_write (''OC Translator = '' @ fst e) False l)
       (log_write ''Registered Translators:'' False l) reg"

definition lib_oc_init :: "oc_registry \<Rightarrow> oc_registry" where
  "lib_oc_init reg =
     (let reg = registerSelf ''jnpr_npu_utilization_ext'' OpenConfigNpuUtilization reg;
          reg = registerSelf ''jnpr_firewall_ext'' OpenConfigFirewall reg;
          reg = registerSelf ''jnpr_packet_statistics_ext'' OpenConfigPacketStats reg;
          reg = registerSelf ''jnpr_interface_ext'' OpenConfigPort reg;
          reg = registerSelf ''jnprLogicalInterfaceExt'' OpenConfigLogicalPort reg;
          reg = registerSelf ''npu_memory_ext'' OpenConfigNpuMem reg;
          reg = registerSelf ''cpu_memory_util_ext'' OpenConfigCpuMemoryUtilization reg;
          reg = registerSelf ''jnpr_optics_ext'' OpenConfigOptics reg;
          reg = registerSelf ''jnpr_lsp_statistics_ext'' OpenConfigLspStats reg;
          reg = registerSelf ''kvresponseExt'' OpenConfigKeyvalue reg
      in registerSelf ''inline_jflow_stats_ext'' OpenConfigInlineJflow reg)"

definition get_oc_extension_type :: "sensors \<Rightarrow> string" where
  "get_oc_extension_type h =
     (if jnpr_npu_utilization_ext h \<noteq> None then ''jnpr_npu_utilization_ext''
      else if jnpr_firewall_ext h \<noteq> None then ''jnpr_firewall_ext''
      else if jnpr_packet_statistics_ext h \<noteq> None then ''jnpr_packet_statistics_ext''
      else if jnpr_interface_ext h \<noteq> None then ''jnpr_interface_ext''
      else if jnprLogicalInterfaceExt h \<noteq> None then ''jnprLogicalInterfaceExt''
      else if npu_memory_ext h \<noteq> None then ''npu_memory_ext''
      else if cpu_memory_util_ext h \<noteq> None then ''cpu_memory_util_ext''
      else if jnpr_optics_ext h \<noteq> None then ''jnpr_optics_ext''
      else if jnpr_lsp_statistics_ext h \<noteq> None then ''jnpr_lsp_statistics_ext''
      else if kvresponseExt h \<noteq> None then ''kvresponseExt''
      else if inline_jflow_stats_ext h \<noteq> None then ''inline_jflow_stats_ext''
      else ''unknown'')"

text \<open>The time of \<open>gettimeofday\<close> is an argument.\<close>

definition insertExportTimestamp :: "int \<Rightarrow> int \<Rightarrow> open_config_data \<Rightarrow> open_config_data" where
  "insertExportTimestamp tv_sec tv_usec d =
     (let mstime = (of_int tv_sec :: u64) * 1000 + of_int (tv_usec div 1000)
      in add_kvs [kv_uint ''__timestamp__'' mstime] d)"

section \<open>What a translation is to its reader\<close>

text \<open>
  A reader resolves each key against the last \<open>__prefix__\<close> before it. \<open>leaves p kvs\<close> is the
  resulting list of absolute paths with their values, \<open>p\<close> being the prefix in force at first.
\<close>

fun leaves :: "string \<Rightarrow> key_value list \<Rightarrow> (string \<times> kv_value) list" where
  "leaves p [] = []"
| "leaves p (kv # kvs) =
     (if kv_key kv = ''__prefix__'' then leaves (kv_str_value kv) kvs
      else (p @ kv_key kv, kv_val kv) # leaves p kvs)"

definition unprefixed :: "key_value list \<Rightarrow> bool" where
  "unprefixed kvs \<longleftrightarrow> (\<forall>kv \<in> set kvs. kv_key kv \<noteq> ''__prefix__'')"

lemma leaves_unprefixed:
  "unprefixed kvs \<Longrightarrow> leaves p (kvs @ rest) = map (\<lambda>kv. (p @ kv_key kv, kv_val kv)) kvs @ leaves p rest"
  by (induction kvs) (auto simp: unprefixed_def)

lemma leaves_unprefixed_all:
  "unprefixed kvs \<Longrightarrow> leaves p kvs = map (\<lambda>kv. (p @ kv_key kv, kv_val kv)) kvs"
  using leaves_unprefixed [of kvs p "[]"] by simp

lemma unprefixed_simps [simp]:
  "unprefixed []"
  "unprefixed (kv # kvs) \<longleftrightarrow> kv_key kv \<noteq> ''__prefix__'' \<and> unprefixed kvs"
  "unprefixed (as @ bs) \<longleftrightarrow> unprefixed as \<and> unprefixed bs"
  by (auto simp: unprefixed_def)

lemma unprefixed_unless_zero [intro]: "unprefixed kvs \<Longrightarrow> unprefixed (unless_zero v kvs)"
  by (simp add: unless_zero_def)

lemma add_kvs_simps [simp]:
  "add_kvs [] d = d"
  "add_kvs as (add_kvs bs d) = add_kvs (bs @ as) d"
  "oc_kv (add_kvs as d) = oc_kv d @ as"
  "oc_system_id (add_kvs as d) = oc_system_id d"
  "oc_component_id (add_kvs as d) = oc_component_id d"
  "oc_sub_component_id (add_kvs as d) = oc_sub_component_id d"
  "oc_path (add_kvs as d) = oc_path d"
  "oc_sequence_number (add_kvs as d) = oc_sequence_number d"
  "oc_timestamp (add_kvs as d) = oc_timestamp d"
  by (simp_all add: add_kvs_def)

section \<open>The contract of a translator\<close>

text \<open>
  A translator only appends pairs, which depend on the message and on the component of the header.
\<close>

locale oc_translator =
  fixes iter :: "sensors \<Rightarrow> open_config_data \<Rightarrow> open_config_data"
    and kvs_of :: "u32 \<Rightarrow> sensors \<Rightarrow> key_value list"
  assumes appends: "iter h d = add_kvs (kvs_of (oc_component_id d) h) d"
begin

lemma header_kept:
  "oc_system_id (iter h d) = oc_system_id d \<and> oc_component_id (iter h d) = oc_component_id d \<and>
   oc_sub_component_id (iter h d) = oc_sub_component_id d \<and> oc_path (iter h d) = oc_path d \<and>
   oc_sequence_number (iter h d) = oc_sequence_number d \<and> oc_timestamp (iter h d) = oc_timestamp d"
  by (simp add: appends)

lemma kv_extended: "oc_kv (iter h d) = oc_kv d @ kvs_of (oc_component_id d) h"
  by (simp add: appends)

lemma after_add: "iter h (add_kvs kvs d) = add_kvs (kvs @ kvs_of (oc_component_id d) h) d"
  by (simp add: appends)

end

lemma cleared_component [simp]:
  "oc_kv (open_config_data_cleared\<lparr>oc_component_id := c\<rparr>) = []"
  "oc_component_id (open_config_data_cleared\<lparr>oc_component_id := c\<rparr>) = c"
  by (simp_all add: open_config_data_cleared_def)

definition translation :: "translator \<Rightarrow> u32 \<Rightarrow> sensors \<Rightarrow> key_value list" where
  "translation t c h = oc_kv (iterate t h (open_config_data_cleared\<lparr>oc_component_id := c\<rparr>))"

lemmas iterate_defs =
  OpenConfigPort_iterate_def OpenConfigLogicalPort_iterate_def
  OpenConfigCpuMemoryUtilization_iterate_def OpenConfigNpuMem_iterate_def
  OpenConfigNpuUtilization_iterate_def OpenConfigFirewall_iterate_def
  OpenConfigPacketStats_iterate_def OpenConfigLspStats_iterate_def OpenConfigKeyvalue_iterate_def
  OpenConfigOptics_iterate_def OpenConfigInlineJflow_iterate_def

interpretation oc: oc_translator "iterate t" "translation t"
  by unfold_locales
    (cases t; simp only: translation_def iterate.simps iterate_defs add_kvs_simps cleared_component
      append_Nil Let_def)

lemma translation_simps:
  "translation OpenConfigPort c h = concat (map port_kvs (mutable_extension [] (jnpr_interface_ext h)))"
  "translation OpenConfigInlineJflow c h =
     (let m = mutable_extension inline_jflow_cleared (inline_jflow_stats_ext h)
      in oc_set_prefix component_base (cpu_name c) ''jflow'' #
         kv_str ''ipv4_flows_export_format'' (jm_ipv4_flows_export_format m) #
         nonzero_uint ''ipv4_route_record_cnt'' (ucast (jm_ipv4_route_record_cnt m)) @
         nonzero_uint ''ipv6_route_record_cnt'' (ucast (jm_ipv6_route_record_cnt m)) @
         nonzero_uint ''mpls_route_record_cnt'' (ucast (jm_mpls_route_record_cnt m)) @
         nonzero_uint ''memory_alloc_fail_cnt'' (ucast (jm_memory_alloc_fail_cnt m)) @
         nonzero_uint ''last_clear_timestamp'' (ucast (jm_last_clear_timestamp m)) @
         concat (map (jflow_npu_kvs c) (jm_npu_stats m)))"
  unfolding translation_def iterate.simps OpenConfigPort_iterate_def OpenConfigInlineJflow_iterate_def
    Let_def add_kvs_simps cleared_component append_Nil
  by (rule refl)+

section \<open>Groups of pairs under a prefix\<close>

text \<open>A group: a prefix followed by pairs that are not prefixes.\<close>

definition prefix_group :: "string \<Rightarrow> key_value list \<Rightarrow> key_value list" where
  "prefix_group P kvs = kv_str ''__prefix__'' P # kvs"

definition under_prefix :: "string \<Rightarrow> key_value list \<Rightarrow> (string \<times> kv_value) list" where
  "under_prefix P kvs = map (\<lambda>kv. (P @ kv_key kv, kv_val kv)) kvs"

lemma leaves_group:
  "unprefixed kvs \<Longrightarrow> leaves p (prefix_group P kvs @ rest) = under_prefix P kvs @ leaves P rest"
  by (simp add: prefix_group_def under_prefix_def leaves_unprefixed kv_str_value_def)

lemma leaves_groups:
  assumes "\<And>x. x \<in> set xs \<Longrightarrow> unprefixed (body x)"
  shows "leaves p (concat (map (\<lambda>x. prefix_group (P x) (body x)) xs)) =
         concat (map (\<lambda>x. under_prefix (P x) (body x)) xs)"
  using assms
proof (induction xs arbitrary: p)
  case (Cons x xs)
  then show ?case by (simp add: leaves_group)
qed simp

lemma under_keys: "fst ` set (under_prefix P kvs) = (\<lambda>kv. P @ kv_key kv) ` set kvs"
  by (auto simp: under_prefix_def image_iff)

lemma map_of_under: "map_of (under_prefix P kvs) (P @ k) = map_of (map (\<lambda>kv. (kv_key kv, kv_val kv)) kvs) k"
  by (induction kvs) (auto simp: under_prefix_def)

text \<open>Looking a leaf up when the groups' prefixes do not overlap.\<close>

lemma map_of_concat_under:
  assumes "x \<in> set xs"
    and "\<And>y kv. y \<in> set xs \<Longrightarrow> kv \<in> set (body y) \<Longrightarrow> P y @ kv_key kv = P x @ k \<Longrightarrow> y = x"
  shows "map_of (concat (map (\<lambda>y. under_prefix (P y) (body y)) xs)) (P x @ k) =
         map_of (map (\<lambda>kv. (kv_key kv, kv_val kv)) (body x)) k"
  using assms
proof (induction xs)
  case (Cons y ys)
  show ?case
  proof (cases "y = x")
    case True
    show ?thesis
    proof (cases "x \<in> set ys")
      case True
      then show ?thesis using Cons \<open>y = x\<close>
        by (auto simp: map_of_under map_add_def split: option.split)
    next
      case False
      have "map_of (concat (map (\<lambda>y. under_prefix (P y) (body y)) ys)) (P x @ k) = None"
        using Cons.prems False by (force simp: map_of_eq_None_iff under_prefix_def)
      then show ?thesis using \<open>y = x\<close>
        by (simp add: map_of_under map_add_def split: option.split)
    qed
  next
    case False
    have "map_of (under_prefix (P y) (body y)) (P x @ k) = None"
      using Cons.prems False by (force simp: map_of_eq_None_iff under_prefix_def)
    moreover have "x \<in> set ys" using Cons.prems False by simp
    ultimately show ?thesis using Cons by (simp add: map_add_def split: option.split)
  qed
qed simp

section \<open>Port\<close>

definition bracket_name :: "string \<Rightarrow> string" where
  "bracket_name name = ''[name='' @ [CHR 0x27] @ name @ [CHR 0x27] @ '']/''"

lemma bracket_name_cancel:
  assumes "CHR 0x27 \<notin> set a" "CHR 0x27 \<notin> set b" "bracket_name a @ r = bracket_name b @ s"
  shows "a = b"
proof -
  have "a @ CHR 0x27 # ('']/'' @ r) = b @ CHR 0x27 # ('']/'' @ s)"
    using assms(3) by (simp add: bracket_name_def)
  then show ?thesis
    using str_find_char_append [OF assms(1)] str_find_char_append [OF assms(2)]
    by (metis append_eq_append_conv option.inject)
qed

definition port_path :: "string \<Rightarrow> string" where
  "port_path name = interface_base @ bracket_name name"

text \<open>The pairs of an interface without its prefix.\<close>

definition port_leaves :: "interface_infos \<Rightarrow> key_value list" where
  "port_leaves ifd = tl (port_kvs ifd)"

lemma port_kvs_group: "port_kvs ifd = prefix_group (port_path (ifd_if_name ifd)) (port_leaves ifd)"
  by (simp add: port_kvs_def Let_def port_leaves_def prefix_group_def oc_set_prefix_no_attr_def
      port_path_def bracket_name_def)

lemma port_leaves_unprefixed: "unprefixed (port_leaves ifd)"
  by (auto simp: port_leaves_def port_kvs_def Let_def intro!: unprefixed_unless_zero)

lemma port_leaves_eq:
  "leaves p (concat (map port_kvs ifds)) =
   concat (map (\<lambda>ifd. under_prefix (port_path (ifd_if_name ifd)) (port_leaves ifd)) ifds)"
proof -
  have "port_kvs = (\<lambda>ifd. prefix_group (port_path (ifd_if_name ifd)) (port_leaves ifd))"
    by (rule ext) (rule port_kvs_group)
  then show ?thesis
    by (elim ssubst) (rule leaves_groups, rule port_leaves_unprefixed)
qed

lemma port_leaves_lookup:
  assumes "ifd \<in> set ifds" and "distinct (map ifd_if_name ifds)"
    and "\<And>i. i \<in> set ifds \<Longrightarrow> CHR 0x27 \<notin> set (ifd_if_name i)"
  shows "map_of (leaves p (concat (map port_kvs ifds))) (port_path (ifd_if_name ifd) @ k) =
         map_of (map (\<lambda>kv. (kv_key kv, kv_val kv)) (port_leaves ifd)) k"
  unfolding port_leaves_eq
proof (rule map_of_concat_under [OF assms(1)])
  fix y kv
  assume y: "y \<in> set ifds"
    and eq: "port_path (ifd_if_name y) @ kv_key kv = port_path (ifd_if_name ifd) @ k"
  then have "ifd_if_name y = ifd_if_name ifd"
    unfolding port_path_def using bracket_name_cancel assms(1,3) by (metis append_assoc same_append_eq)
  then show "y = ifd" using assms(1,2) y by (simp add: distinct_map inj_on_def)
qed

section \<open>Logical port\<close>

lemma split_ifl_name_dot:
  "CHR ''.'' \<notin> set port \<Longrightarrow> split_ifl_name (port @ CHR ''.'' # unit) = (port, unit)"
  using str_find_char_append [of "CHR ''.''" port unit]
  by (simp add: split_ifl_name_def str_find_from_def)

lemma split_ifl_name_plain: "CHR ''.'' \<notin> set ifl \<Longrightarrow> split_ifl_name ifl = (ifl, ''0'')"
  by (simp add: split_ifl_name_def str_find_from_def str_find_char_None [THEN iffD2])

section \<open>Dispatch\<close>

text \<open>The extensions in the order \<open>get_oc_extension_type\<close> tests them.\<close>

definition present :: "translator \<Rightarrow> sensors \<Rightarrow> bool" where
  "present t h =
     (case t of
        OpenConfigNpuUtilization \<Rightarrow> jnpr_npu_utilization_ext h \<noteq> None
      | OpenConfigFirewall \<Rightarrow> jnpr_firewall_ext h \<noteq> None
      | OpenConfigPacketStats \<Rightarrow> jnpr_packet_statistics_ext h \<noteq> None
      | OpenConfigPort \<Rightarrow> jnpr_interface_ext h \<noteq> None
      | OpenConfigLogicalPort \<Rightarrow> jnprLogicalInterfaceExt h \<noteq> None
      | OpenConfigNpuMem \<Rightarrow> npu_memory_ext h \<noteq> None
      | OpenConfigCpuMemoryUtilization \<Rightarrow> cpu_memory_util_ext h \<noteq> None
      | OpenConfigOptics \<Rightarrow> jnpr_optics_ext h \<noteq> None
      | OpenConfigLspStats \<Rightarrow> jnpr_lsp_statistics_ext h \<noteq> None
      | OpenConfigKeyvalue \<Rightarrow> kvresponseExt h \<noteq> None
      | OpenConfigInlineJflow \<Rightarrow> inline_jflow_stats_ext h \<noteq> None)"

definition translators :: "translator list" where
  "translators = [OpenConfigNpuUtilization, OpenConfigFirewall, OpenConfigPacketStats, OpenConfigPort,
     OpenConfigLogicalPort, OpenConfigNpuMem, OpenConfigCpuMemoryUtilization, OpenConfigOptics,
     OpenConfigLspStats, OpenConfigKeyvalue, OpenConfigInlineJflow]"

lemma smap_ok_lib_oc_init: "smap_ok reg \<Longrightarrow> smap_ok (lib_oc_init reg)"
  by (simp add: lib_oc_init_def registerSelf_def Let_def smap_ok_put)

lemma oc_find_registerSelf:
  "smap_ok reg \<Longrightarrow>
   oc_find name (registerSelf k t reg) = (if name = k then Some t else oc_find name reg)"
  by (simp add: oc_find_def registerSelf_def smap_find_put)

definition oc_lookup :: "oc_registry \<Rightarrow> sensors \<Rightarrow> translator option" where
  "oc_lookup reg h = oc_find (get_oc_extension_type h) reg"

fun extension_name :: "translator \<Rightarrow> string" where
  "extension_name OpenConfigNpuUtilization = ''jnpr_npu_utilization_ext''"
| "extension_name OpenConfigFirewall = ''jnpr_firewall_ext''"
| "extension_name OpenConfigPacketStats = ''jnpr_packet_statistics_ext''"
| "extension_name OpenConfigPort = ''jnpr_interface_ext''"
| "extension_name OpenConfigLogicalPort = ''jnprLogicalInterfaceExt''"
| "extension_name OpenConfigNpuMem = ''npu_memory_ext''"
| "extension_name OpenConfigCpuMemoryUtilization = ''cpu_memory_util_ext''"
| "extension_name OpenConfigOptics = ''jnpr_optics_ext''"
| "extension_name OpenConfigLspStats = ''jnpr_lsp_statistics_ext''"
| "extension_name OpenConfigKeyvalue = ''kvresponseExt''"
| "extension_name OpenConfigInlineJflow = ''inline_jflow_stats_ext''"

lemma extension_type_first:
  "get_oc_extension_type h =
     (case find (\<lambda>t. present t h) translators of Some t \<Rightarrow> extension_name t | None \<Rightarrow> ''unknown'')"
  by (simp only: get_oc_extension_type_def translators_def present_def find.simps translator.case
      extension_name.simps if_distrib [of "case_option _ _"] option.case)

lemma smap_ok_registerSelf [intro, simp]: "smap_ok reg \<Longrightarrow> smap_ok (registerSelf k t reg)"
  by (simp add: registerSelf_def smap_ok_put)

lemma oc_find_extension: "oc_find (extension_name t) (lib_oc_init []) = Some t"
  by (cases t; simp add: lib_oc_init_def Let_def oc_find_registerSelf)

lemma oc_find_unknown: "oc_find ''unknown'' (lib_oc_init []) = None"
  by (simp add: lib_oc_init_def Let_def oc_find_registerSelf) (simp add: oc_find_def)

lemma oc_lookup_first:
  "oc_lookup (lib_oc_init []) h = find (\<lambda>t. present t h) translators"
  by (cases "find (\<lambda>t. present t h) translators")
    (simp_all add: oc_lookup_def extension_type_first oc_find_extension oc_find_unknown)

section \<open>Suppressed zeros\<close>

text \<open>A value that reads as false: what the zero-suppressing translators never send.\<close>

definition zero_value :: "kv_value \<Rightarrow> bool" where
  "zero_value v \<longleftrightarrow> v \<in> {IntValue 0, UintValue 0} \<or> (\<exists>d. v = DoubleValue d \<and> \<not> double_true d)"

lemma nonzero_uint_values: "kv \<in> set (nonzero_uint k v) \<Longrightarrow> \<not> zero_value (kv_val kv)"
  by (auto simp: nonzero_uint_def unless_zero_def zero_value_def split: if_splits)

lemma nonzero_double_values: "kv \<in> set (nonzero_double k v) \<Longrightarrow> \<not> zero_value (kv_val kv)"
  by (auto simp: nonzero_double_def zero_value_def split: if_splits)

lemma set_prefix_values: "\<not> zero_value (kv_val (oc_set_prefix b n a))"
  by (simp add: oc_set_prefix_def zero_value_def)

lemma jflow_family_values:
  "kv \<in> set (jflow_family_kvs fam f) \<Longrightarrow> \<not> zero_value (kv_val kv)"
  unfolding jflow_family_kvs_def set_append Un_iff
  using nonzero_uint_values nonzero_double_values by blast

lemma jflow_npu_values: "kv \<in> set (jflow_npu_kvs c pfe) \<Longrightarrow> \<not> zero_value (kv_val kv)"
  unfolding jflow_npu_kvs_def jflow_families list.set(2) set_append Un_iff insert_iff
  using jflow_family_values set_prefix_values by blast

lemma jflow_values:
  "kv \<in> set (translation OpenConfigInlineJflow c h) \<Longrightarrow> \<not> zero_value (kv_val kv)"
proof -
  assume "kv \<in> set (translation OpenConfigInlineJflow c h)"
  moreover have "\<not> zero_value (kv_val (kv_str k s))" for k s by (simp add: zero_value_def)
  ultimately show ?thesis
    unfolding translation_simps Let_def list.set(2) set_append Un_iff insert_iff set_concat set_map
    using nonzero_uint_values jflow_npu_values set_prefix_values by blast
qed

lemma keyvalue_values:
  "kv_val (keyvalue_kv p) = ValueNotSet \<longleftrightarrow>
   kvp_string_val p = [] \<and> kvp_int32_val p = 0 \<and> kvp_uint64_val p = 0"
  by (auto simp: keyvalue_kv_def)

section \<open>Processor names\<close>

lemma npu_slot_name_eq:
  "npu_slot_name c n =
     ''FPC'' @ string_of_nat (unat c mod 256) @ '':NPU'' @ string_of_nat (unat n mod 16)"
proof -
  have "unat (ucast c :: u8) = unat c mod 256" by (simp add: unsigned_ucast_eq take_bit_eq_mod)
  moreover have "unat (ucast (and n 0xf) :: u8) = unat n mod 16"
  proof -
    have "and n 0xf = n mod 16"
      using take_bit_eq_mask [of 4 n] by (simp add: mask_eq_exp_minus_1 take_bit_eq_mod)
    then have "unat (and n 0xf) = unat n mod 16" by (simp add: unat_mod_distrib)
    then show ?thesis by (simp add: unsigned_ucast_eq take_bit_eq_mod)
  qed
  ultimately show ?thesis by (simp add: npu_slot_name_def Let_def)
qed


section \<open>An example message\<close>

definition example_interface :: "string \<Rightarrow> u64 \<Rightarrow> interface_infos" where
  "example_interface name octets =
     (let st = \<lparr>if_pkts = 5, if_octets = octets, if_uc_pkts = 5, if_mc_pkts = 0, if_bc_pkts = 0, if_error = 0\<rparr>
      in \<lparr>ifd_if_name = name, ifd_init_time = 1, ifd_snmp_if_index = 5, ifd_parent_ae_name = [],
          ifd_ingress_stats = st, ifd_egress_stats = st, ifd_if_in_errors = 0\<rparr>)"

lemma example_interface_simps [simp]:
  "ifd_if_name (example_interface name octets) = name"
  "if_octets (ifd_ingress_stats (example_interface name octets)) = octets"
  by (simp_all add: example_interface_def Let_def)

end
