(* ===== verification/Startup.thy ===== *)
theory Startup
  imports CmdOptions SystemBackends PathValidator Translators
begin

text \<open>
  How the server comes up (main.cpp, AgentRestart.cpp, PidFileUtils.cpp, AgentSystemFactory.cpp)
  and the simulated management daemon (mgd_server/main.cpp): the options and the
  configuration file, the log file, the lock on the pid file, the system handle, clearing the
  system and registering with the JSD, the path table, the UDP receiver. The answers of the
  operating system are the record \<open>pid_os\<close>, the JSD's RPCs the parameter \<open>jsd_stub\<close> over a
  state of the environment; files are given by their contents.
\<close>

section \<open>The pid file\<close>

text \<open>An error of a system call is its text.\<close>

record pid_os =
  po_open :: "string + nat"
  po_flock :: "string option"
  po_lseek :: "string option"
  po_write :: "string option"
  po_pid :: nat

definition pid_open :: "string \<Rightarrow> pid_os \<Rightarrow> server_log \<Rightarrow> nat option \<times> server_log" where
  "pid_open filename os l =
     (case po_open os of
        Inl err \<Rightarrow>
          (None, log_write (''<pid> Error opening '' @ filename @ '' for writing: '' @ err) False l)
      | Inr fd \<Rightarrow>
          (case po_flock os of
             Some err \<Rightarrow>
               (None, log_write ''<pid> Is another copy of this program running ?'' False
                  (log_write (''<pid> Unable to lock '' @ filename @ '': '' @ err) False l))
           | None \<Rightarrow> (Some fd, l)))"

text \<open>\<open>snprintf\<close> into a buffer of 11 characters, the last one the terminator.\<close>

definition pid_text :: "nat \<Rightarrow> string" where
  "pid_text pid = take 10 (string_of_nat pid @ [CHR 0x0A])"

definition pid_update :: "pid_os \<Rightarrow> server_log \<Rightarrow> string option \<times> server_log" where
  "pid_update os l =
     (case po_lseek os of
        Some err \<Rightarrow> (None, log_write (''<pid> lseek: '' @ err) False l)
      | None \<Rightarrow>
          (case po_write os of
             Some err \<Rightarrow> (None, log_write (''<pid> write: '' @ err) False l)
           | None \<Rightarrow> (Some (pid_text (po_pid os)), l)))"

text \<open>The descriptor that holds the lock and what the file now starts with, or a failure.\<close>

definition pid_lock :: "string \<Rightarrow> pid_os \<Rightarrow> server_log \<Rightarrow> (nat \<times> string) option \<times> server_log" where
  "pid_lock filename os l =
     (case pid_open filename os l of
        (None, l) \<Rightarrow> (None, l)
      | (Some fd, l) \<Rightarrow>
          (case pid_update os l of
             (None, l) \<Rightarrow> (None, l)
           | (Some txt, l) \<Rightarrow> (Some (fd, txt), l)))"

section \<open>The system handle\<close>

text \<open>The backends share the base class; the file backend keeps the name of its file.\<close>

datatype 'd sys_handle =
    NullHandle "unit agent_system"
  | FileHandle string "file_backend agent_system"
  | ProcHandle "'d proc_backend agent_system"

definition createNull :: "server_log \<Rightarrow> 'd sys_handle" where
  "createNull l = NullHandle (new_agent_system l ())"

definition createFile :: "server_log \<Rightarrow> string \<Rightarrow> 'd sys_handle" where
  "createFile l file_name = FileHandle file_name (new_agent_system l \<lparr>fb_output = []\<rparr>)"

definition createSystemProcess :: "server_log \<Rightarrow> 'd \<Rightarrow> 'd sys_handle" where
  "createSystemProcess l env = ProcHandle (new_agent_system l (new_proc_backend env))"

text \<open>A string made from a null pointer is undefined.\<close>

definition CreateSystemHandle :: "cmd_options \<Rightarrow> server_log \<Rightarrow> 'd \<Rightarrow> 'd sys_handle res" where
  "CreateSystemHandle opts l env =
     (if opt_file_mode opts then
        (case opt_system_file_name opts of
           None \<Rightarrow> Inl NullPointer | Some f \<Rightarrow> Inr (createFile l f))
      else if opt_proc_mode opts then Inr (createSystemProcess l env)
      else Inr (createNull l))"

text \<open>The logger of the process is the one the handle holds.\<close>

fun handle_log :: "'d sys_handle \<Rightarrow> server_log" where
  "handle_log (NullHandle s) = as_log s"
| "handle_log (FileHandle f s) = as_log s"
| "handle_log (ProcHandle s) = as_log s"

fun handle_set_log :: "server_log \<Rightarrow> 'd sys_handle \<Rightarrow> 'd sys_handle" where
  "handle_set_log l (NullHandle s) = NullHandle (s\<lparr>as_log := l\<rparr>)"
| "handle_set_log l (FileHandle f s) = FileHandle f (s\<lparr>as_log := l\<rparr>)"
| "handle_set_log l (ProcHandle s) = ProcHandle (s\<lparr>as_log := l\<rparr>)"

definition handle_write :: "string \<Rightarrow> 'd sys_handle \<Rightarrow> 'd sys_handle" where
  "handle_write m h = handle_set_log (log_write m False (handle_log h)) h"

text \<open>The virtual call of \<open>systemClearAll\<close>.\<close>

fun handle_clear_all ::
    "json_lib \<Rightarrow> 'd mgd_stub \<Rightarrow> global_config \<Rightarrow> 'd sys_handle \<Rightarrow> bool \<times> 'd sys_handle" where
  "handle_clear_all jl stub gc (NullHandle s) =
     (case AgentSystem_systemClearAll s of (r, s) \<Rightarrow> (r, NullHandle s))"
| "handle_clear_all jl stub gc (FileHandle f s) =
     (case AgentSystemFile_systemClearAll jl s of (r, s) \<Rightarrow> (r, FileHandle f s))"
| "handle_clear_all jl stub gc (ProcHandle s) =
     (case AgentSystemProc_systemClearAll jl stub gc s of (r, s) \<Rightarrow> (r, ProcHandle s))"

section \<open>Registration with the JSD\<close>

record 'e jsd_stub =
  jsd_login :: "string \<Rightarrow> login_request \<Rightarrow> 'e \<Rightarrow> grpc_status \<times> bool \<times> 'e"
  jsd_register_service :: "string \<Rightarrow> register_request \<Rightarrow> 'e \<Rightarrow> grpc_status \<times> register_reply \<times> 'e"

definition restart_authenticateChannel ::
    "'e jsd_stub \<Rightarrow> global_config \<Rightarrow> string \<Rightarrow> server_log \<times> 'e \<Rightarrow> grpc_status \<times> server_log \<times> 'e" where
  "restart_authenticateChannel stub gc address s =
     (case s of (l, e) \<Rightarrow>
        let l = log_write ''Requesting login authentication from device'' False l;
            login_request = \<lparr>lr_user_name = device_user_name gc, lr_password = device_password gc,
                             lr_client_id = ''telemetry-grpc''\<rparr>;
            (status, result, e) = jsd_login stub address login_request e
        in if status_ok status \<and> result
           then (status, log_write ''Login Authentication Successful'' False l, e)
           else (status_CANCELLED, log_write ''Login Authentication Failed'' False l, e))"

definition jsd_address :: "global_config \<Rightarrow> string" where
  "jsd_address gc =
     (if running_mode gc = RUNNING_MODE_OFF_BOX
      then device_mgd_ip gc @ '':'' @ string_of_int (sint (device_mgd_port gc))
      else ''unix:'' @ jsd_unix_socket gc)"

definition jsd_request :: "json_lib \<Rightarrow> global_config \<Rightarrow> json \<Rightarrow> register_request" where
  "jsd_request jl gc registration_obj =
     \<lparr>rr_input = JsonInput (write_json_obj_to_string jl registration_obj),
      rr_target = (if running_mode gc = RUNNING_MODE_OFF_BOX
                   then grpc_server_ip gc @ '':'' @ string_of_int (sint (grpc_server_port gc))
                   else ''unix:'' @ grpc_server_unix_socket gc),
      rr_register_id = ''na-grpcd'', rr_skip_authentication = True\<rparr>"

definition issue_register ::
    "json_lib \<Rightarrow> 'e jsd_stub \<Rightarrow> global_config \<Rightarrow> json \<Rightarrow> server_log \<times> 'e \<Rightarrow> bool \<times> server_log \<times> 'e" where
  "issue_register jl stub gc obj s =
     (case s of (l, e) \<Rightarrow>
        let (status, reg_reply, e) = jsd_register_service stub (jsd_address gc) (jsd_request jl gc obj) e
        in if \<not> status_ok status then
             (False, log_write (''Could not register with JSD. Error code: '' @
                string_of_nat (status_code status) @ ''. '' @ ''Error message: '' @
                status_message status) False l, e)
           else if \<not> rp_result reg_reply then
             (False, log_write (''JSD replied with error. Error code: '' @ rp_error reg_reply) False l, e)
           else (True, l, e))"

definition jsd_register ::
    "json_lib \<Rightarrow> 'e jsd_stub \<Rightarrow> global_config \<Rightarrow> json \<Rightarrow> server_log \<times> 'e \<Rightarrow> bool \<times> server_log \<times> 'e" where
  "jsd_register jl stub gc obj s =
     (if running_mode gc = RUNNING_MODE_OFF_BOX then
        (case restart_authenticateChannel stub gc (jsd_address gc) s of
           (status, s) \<Rightarrow> if \<not> status_ok status then (False, s) else issue_register jl stub gc obj s)
      else issue_register jl stub gc obj s)"

text \<open>The loop over the attempts \<open>retry\<close>, ..., of which \<open>n\<close> are left.\<close>

fun register_attempts ::
    "json_lib \<Rightarrow> 'e jsd_stub \<Rightarrow> global_config \<Rightarrow> json \<Rightarrow> nat \<Rightarrow> nat \<Rightarrow> server_log \<times> 'e \<Rightarrow> bool \<times> server_log \<times> 'e" where
  "register_attempts jl stub gc obj retry 0 s = (False, s)"
| "register_attempts jl stub gc obj retry (Suc n) s =
     (case jsd_register jl stub gc obj s of
        (True, l, e) \<Rightarrow>
          (True, log_write (''Successful to register with JSD - Attempt '' @ string_of_nat retry) False l, e)
      | (False, l, e) \<Rightarrow>
          register_attempts jl stub gc obj (Suc retry) n
            (log_write (''Failed to register with JSD - Attempt '' @ string_of_nat retry) False l, e))"

definition read_json_from_file :: "json_lib \<Rightarrow> string \<Rightarrow> json option" where
  "read_json_from_file jl contents = js_parse jl contents"

definition result_word :: "bool \<Rightarrow> string" where
  "result_word b = (if b then ''Success'' else ''Fail'')"

definition on_startup ::
    "json_lib \<Rightarrow> 'd mgd_stub \<Rightarrow> 'e jsd_stub \<Rightarrow> global_config \<Rightarrow> (string \<Rightarrow> string) \<Rightarrow>
     'd sys_handle \<times> 'e \<Rightarrow> bool \<times> 'd sys_handle \<times> 'e" where
  "on_startup jl mgd jsd gc files s =
     (case s of (h, e) \<Rightarrow>
        let h = handle_write ''Issue systemCleanAll'' h;
            (result, h) = handle_clear_all jl mgd gc h;
            h = handle_write (''systemClearAll: '' @ result_word result) h
        in if \<not> result then (False, h, e)
           else if \<not> jsd_init_registration gc then (True, h, e)
           else
             let filename = jsd_json_file_path gc @ ''/'' @ jsd_json_file_name gc;
                 content = read_json_from_file jl (files filename);
                 h = handle_write (''Registration json file parsing '' @ result_word (content \<noteq> None)) h
             in case content of
                  None \<Rightarrow> (False, h, e)
                | Some obj \<Rightarrow>
                    (case register_attempts jl jsd gc obj 1 (nat (sint (jsd_num_of_retries gc))) (handle_log h, e) of
                       (True, l, e) \<Rightarrow> (True, handle_set_log l h, e)
                     | (False, l, e) \<Rightarrow>
                         (False, handle_set_log (log_write ''Could not register with JSD'' False l) h, e)))"
section \<open>The program\<close>

definition NA_GRPCD_PID :: string where
  "NA_GRPCD_PID = ''/var/run/na-grpcd.pid''"

text \<open>What the program finds when it starts, and the initial states of the daemons.\<close>

record ('d, 'e) main_world =
  mw_posixly :: bool
  mw_rootpath :: "string option"
  mw_ini :: "string \<Rightarrow> string option"
  mw_files :: "string \<Rightarrow> string"
  mw_pid :: pid_os
  mw_mgd :: 'd
  mw_jsd :: 'e

text \<open>A service that listens: its address, system, path table and UDP address and port.\<close>

record 'd running =
  run_address :: string
  run_system :: "'d sys_handle"
  run_validator :: "path_validator option"
  run_udp :: "(int \<times> u32) option"

text \<open>The end of \<open>main\<close> or of \<open>exit\<close>: the lines printed, and the log once there is one.\<close>

datatype 'd main_outcome = Exited "string list" "server_log option" | Serving "string list" "'d running"

text \<open>The configuration file, when one was given, decides log file and system mode.\<close>

definition apply_ini ::
    "(string \<Rightarrow> string option) \<Rightarrow> global_config \<Rightarrow> cmd_options \<Rightarrow>
     bool \<times> string list \<times> global_config \<times> cmd_options" where
  "apply_ini ini gc opts =
     (case opt_ini_config_file opts of
        None \<Rightarrow> (True, [], gc, opts)
      | Some f \<Rightarrow>
          (let (parse_status, gc, out) = config_parse f (ini f) gc
           in if \<not> parse_status then (False, out @ [''INI config file parse failed''], gc, opts)
              else
                let opts = setLogFile (grpc_log_file_path gc @ ''/'' @ grpc_log_file_name gc) opts;
                    opts = (if system_mode gc = SYSTEM_MODE_PROC then setProcMode True opts
                            else if system_mode gc = SYSTEM_MODE_FILE then
                              setFileName (system_file_path gc @ ''/'' @ system_file_name gc)
                                (setFileMode True opts)
                            else setNullMode True opts)
                in (True, out, gc, opts)))"

text \<open>
  Without a log file the default name is taken from a string that is destroyed before the
  logger is made from it.
\<close>

definition main_log_file :: "string option \<Rightarrow> cmd_options \<Rightarrow> string option res" where
  "main_log_file rootpath opts =
     (case opt_logfile opts of
        Some f \<Rightarrow> Inr (Some f)
      | None \<Rightarrow> (case rootpath of Some r \<Rightarrow> Inl UseAfterFree | None \<Rightarrow> Inr None))"

definition server_address :: "global_config \<Rightarrow> string" where
  "server_address gc =
     (if running_mode gc = RUNNING_MODE_OFF_BOX
      then grpc_server_ip gc @ '':'' @ string_of_int (sint (grpc_server_port gc))
      else ''unix:'' @ grpc_server_unix_socket gc)"

text \<open>The path table, when it is asked for: \<open>None\<close> when the program has to end.\<close>

definition build_validator ::
    "json_lib \<Rightarrow> global_config \<Rightarrow> (string \<Rightarrow> string) \<Rightarrow> server_log \<Rightarrow>
     (path_validator option option \<times> server_log) res" where
  "build_validator jl gc files l =
     (if \<not> validate_ocpaths gc then Inr (Some None, l)
      else
        let f = ocpath_file_path gc @ ''/'' @ ocpath_file_name gc
        in res_bind (build_path_information_db jl f (files f) \<lparr>pv_logger = l, pv_db = []\<rparr>) (\<lambda>(ok, v).
             if \<not> ok then
               Inr (None, log_write ''PathValidator build_path failed. Terminating'' False (pv_logger v))
             else res_bind (print_path_information_db v) (\<lambda>v. Inr (Some (Some v), pv_logger v))))"

text \<open>From the created logger on.\<close>

definition bring_up ::
    "json_lib \<Rightarrow> 'd mgd_stub \<Rightarrow> 'e jsd_stub \<Rightarrow> ('d, 'e) main_world \<Rightarrow> global_config \<Rightarrow>
     cmd_options \<Rightarrow> string list \<Rightarrow> server_log \<Rightarrow> 'd main_outcome res" where
  "bring_up jl mgd jsd w gc opts out l =
     (let reg = lib_oc_init [];
          l = display reg l
      in res_bind (CreateSystemHandle opts l (mw_mgd w)) (\<lambda>h.
         let (result, h, e) = on_startup jl mgd jsd gc (mw_files w) (h, mw_jsd w)
         in if \<not> result then
              Inr (Exited out (Some (log_write ''Failed in startup module. Terminating'' False (handle_log h))))
            else
              res_bind (build_validator jl gc (mw_files w) (handle_log h)) (\<lambda>(v, l).
                case v of
                  None \<Rightarrow> Inr (Exited out (Some l))
                | Some v \<Rightarrow>
                    res_bind (if udp_server_module gc
                        then res_bind (stoi (udp_server_ip gc)) (\<lambda>ip. Inr (Some (ip, udp_server_port gc)))
                        else Inr None) (\<lambda>udp.
                      Inr (Serving (out @ [''Server listening on '' @ server_address gc])
                        \<lparr>run_address = server_address gc, run_system = handle_set_log l h,
                         run_validator = v, run_udp = udp\<rparr>)))))"

definition server_main ::
    "json_lib \<Rightarrow> 'd mgd_stub \<Rightarrow> 'e jsd_stub \<Rightarrow> ('d, 'e) main_world \<Rightarrow> string list \<Rightarrow> 'd main_outcome res" where
  "server_main jl mgd jsd w args =
     (case parseArgs (mw_posixly w) args new_cmd_options of
        (False, opts, out) \<Rightarrow> Inr (Exited out None)
      | (True, opts, out) \<Rightarrow>
          (case apply_ini (mw_ini w) default_config opts of
             (False, out, gc, opts) \<Rightarrow> Inr (Exited out None)
           | (True, out, gc, opts) \<Rightarrow>
               res_bind (main_log_file (mw_rootpath w) opts) (\<lambda>f.
                 case f of
                   None \<Rightarrow> Inr (Exited (out @
                     [''Please setup ROOTPATH environment variable or use -l to set log file.'']) None)
                 | Some file \<Rightarrow>
                     (let l = log_enable (new_log file)
                      in if running_mode gc = RUNNING_MODE_ON_BOX then
                           (case pid_lock NA_GRPCD_PID (mw_pid w) l of
                              (None, l) \<Rightarrow> Inr (Exited out
                                (Some (log_write ''Already running. Check pid. Terminating'' False l)))
                            | (Some lock, l) \<Rightarrow> bring_up jl mgd jsd w gc opts out l)
                         else bring_up jl mgd jsd w gc opts out l))))"

section \<open>The simulated management daemon\<close>

definition mgd_main :: "string option \<Rightarrow> string list \<Rightarrow> string + mgd_state" where
  "mgd_main rootpath args =
     (case args of
        logfile # _ \<Rightarrow> Inr (new_mgd (log_enable (new_log logfile)))
      | [] \<Rightarrow>
          (case rootpath of
             Some r \<Rightarrow> Inr (new_mgd (log_enable (new_log (r @ ''/logs/mgd_server.log''))))
           | None \<Rightarrow> Inl ''Please setup ROOTPATH environment variable or run as \"mgd_server_binary logfile\"''))"

text \<open>Its login and registration services behind the JSD's stub; the log is its state.\<close>

definition sim_jsd :: "(login_request \<Rightarrow> string) \<Rightarrow> (register_request \<Rightarrow> string) \<Rightarrow> server_log jsd_stub" where
  "sim_jsd show_login show_register =
     \<lparr>jsd_login = (\<lambda>address req l. LoginCheck show_login req l),
      jsd_register_service = (\<lambda>address req l. RegisterService show_register req l)\<rparr>"

section \<open>Lemmas\<close>

lemma handle_log_set [simp]:
  "handle_log (handle_set_log l h) = l"
  "handle_set_log l (handle_set_log l' h) = handle_set_log l h"
  "handle_log (handle_write m h) = log_write m False (handle_log h)"
  by (cases h; simp add: handle_write_def)+

text \<open>
  An attempt as the environment sees it: its answer and the environment after it, whatever the
  log.
\<close>

definition attempt ::
    "json_lib \<Rightarrow> 'e jsd_stub \<Rightarrow> global_config \<Rightarrow> json \<Rightarrow> 'e \<Rightarrow> bool \<times> 'e" where
  "attempt jl stub gc obj e =
     (let register = (\<lambda>e. case jsd_register_service stub (jsd_address gc) (jsd_request jl gc obj) e of
            (status, reply, e) \<Rightarrow> (status_ok status \<and> rp_result reply, e))
      in if running_mode gc = RUNNING_MODE_OFF_BOX then
           (case jsd_login stub (jsd_address gc)
               \<lparr>lr_user_name = device_user_name gc, lr_password = device_password gc,
                lr_client_id = ''telemetry-grpc''\<rparr> e of
              (status, result, e) \<Rightarrow> if status_ok status \<and> result then register e else (False, e))
         else register e)"

lemma jsd_register_attempt:
  "\<exists>l'. jsd_register jl stub gc obj (l, e) =
     (fst (attempt jl stub gc obj e), l', snd (attempt jl stub gc obj e))"
  by (auto simp: jsd_register_def attempt_def restart_authenticateChannel_def issue_register_def
      Let_def status_ok_def status_CANCELLED_def split: prod.split)

text \<open>
  The registration succeeds exactly when one of the allowed attempts does, and makes no further
  one after it.
\<close>

lemma register_attempts_eq:
  "(\<exists>l'. register_attempts jl stub gc obj retry n (l, e) = (True, l', e')) \<longleftrightarrow>
   (\<exists>k < n. (\<forall>j < k. \<not> fst (attempt jl stub gc obj (((snd \<circ> attempt jl stub gc obj) ^^ j) e))) \<and>
      attempt jl stub gc obj (((snd \<circ> attempt jl stub gc obj) ^^ k) e) = (True, e'))"
proof (induction n arbitrary: retry l e)
  case (Suc n)
  let ?a = "attempt jl stub gc obj"
  obtain l1 where r: "jsd_register jl stub gc obj (l, e) = (fst (?a e), l1, snd (?a e))"
    using jsd_register_attempt [of jl stub gc obj l e] by blast
  have shift: "((snd \<circ> ?a) ^^ j) (snd (?a e)) = ((snd \<circ> ?a) ^^ Suc j) e" for j
    by (simp add: funpow_swap1)
  have ex: "(\<exists>k < Suc n. P k) \<longleftrightarrow> P 0 \<or> (\<exists>k < n. P (Suc k))" for P :: "nat \<Rightarrow> bool"
    by (auto simp: less_Suc_eq_0_disj)
  have all: "(\<forall>j < Suc k. P j) \<longleftrightarrow> P 0 \<and> (\<forall>j < k. P (Suc j))" for P :: "nat \<Rightarrow> bool" and k
    by (auto simp: less_Suc_eq_0_disj)
  show ?case
  proof (cases "fst (?a e)")
    case True
    then obtain e1 where "?a e = (True, e1)" by (cases "?a e") auto
    then show ?thesis unfolding ex all using r by simp
  next
    case False
    then have "?a e \<noteq> (True, e')" by auto
    then show ?thesis unfolding ex all using False r by (simp add: Suc.IH shift del: funpow.simps(2) o_apply)
  qed
qed simp

text \<open>The simulated daemon accepts the first attempt when it is given its credentials.\<close>

lemma attempt_sim:
  assumes "running_mode gc = RUNNING_MODE_OFF_BOX \<Longrightarrow> device_user_name gc = ''regress'' \<and> device_password gc = ''MaRtInI''"
    and "js_fast jl obj \<noteq> []"
  shows "fst (attempt jl (sim_jsd f g) gc obj e)"
  using assms
  by (auto simp: attempt_def sim_jsd_def LoginCheck_def RegisterService_def jsd_request_def Let_def
      status_OK_def status_ok_def write_json_obj_to_string_def)

lemma register_sim:
  assumes "running_mode gc = RUNNING_MODE_OFF_BOX \<Longrightarrow> device_user_name gc = ''regress'' \<and> device_password gc = ''MaRtInI''"
    and "js_fast jl obj \<noteq> []" and "0 < n"
  shows "\<exists>l' e'. register_attempts jl (sim_jsd f g) gc obj retry n (l, e) = (True, l', e')"
proof -
  obtain m where n: "n = Suc m" using assms(3) by (cases n) auto
  obtain l1 where "jsd_register jl (sim_jsd f g) gc obj (l, e) =
      (True, l1, snd (attempt jl (sim_jsd f g) gc obj e))"
    using jsd_register_attempt [of jl "sim_jsd f g" gc obj l e] attempt_sim [OF assms(1,2), of f g e] by auto
  then show ?thesis by (simp add: n)
qed

text \<open>The end of the start-up after a clean system, when a registration is asked for.\<close>

lemma register_attempts_outcome:
  "fst (register_attempts jl stub gc obj retry n (l, e)) \<longleftrightarrow>
   (\<exists>k < n. fst (attempt jl stub gc obj (((snd \<circ> attempt jl stub gc obj) ^^ k) e)))"
proof -
  let ?a = "attempt jl stub gc obj"
  let ?P = "\<lambda>k. k < n \<and> fst (?a (((snd \<circ> ?a) ^^ k) e))"
  have "fst (register_attempts jl stub gc obj retry n (l, e)) \<longleftrightarrow>
      (\<exists>l' e'. register_attempts jl stub gc obj retry n (l, e) = (True, l', e'))"
    by (cases "register_attempts jl stub gc obj retry n (l, e)") auto
  also have "\<dots> \<longleftrightarrow> (\<exists>e'. \<exists>k < n. (\<forall>j < k. \<not> fst (?a (((snd \<circ> ?a) ^^ j) e))) \<and> ?a (((snd \<circ> ?a) ^^ k) e) = (True, e'))"
    using register_attempts_eq [of jl stub gc obj retry n l e] by blast
  also have "\<dots> \<longleftrightarrow> (\<exists>k. ?P k)"
  proof
    assume "\<exists>k. ?P k"
    then obtain k where "?P k" "\<forall>j < k. \<not> ?P j" using exists_least_iff [of ?P] by blast
    moreover from this obtain e' where "?a (((snd \<circ> ?a) ^^ k) e) = (True, e')"
      by (cases "?a (((snd \<circ> ?a) ^^ k) e)") auto
    ultimately show "\<exists>e'. \<exists>k < n. (\<forall>j < k. \<not> fst (?a (((snd \<circ> ?a) ^^ j) e))) \<and>
        ?a (((snd \<circ> ?a) ^^ k) e) = (True, e')"
      by (meson order_less_trans)
  qed auto
  finally show ?thesis .
qed

lemma fst_answer: "fst (case x of (True, l, e) \<Rightarrow> (True, f l, e) | (False, l, e) \<Rightarrow> (False, g l, e)) = fst x"
  by (simp split: prod.split bool.split)

lemma startup_registration:
  assumes "handle_clear_all jl mgd gc (handle_write ''Issue systemCleanAll'' h) = (True, h1)"
    and "jsd_init_registration gc"
  shows "fst (on_startup jl mgd jsd gc files (h, e)) \<longleftrightarrow>
    (\<exists>obj. js_parse jl (files (jsd_json_file_path gc @ ''/'' @ jsd_json_file_name gc)) = Some obj \<and>
      (\<exists>k < nat (sint (jsd_num_of_retries gc)).
         fst (attempt jl jsd gc obj (((snd \<circ> attempt jl jsd gc obj) ^^ k) e))))"
proof (cases "js_parse jl (files (jsd_json_file_path gc @ ''/'' @ jsd_json_file_name gc))")
  case None
  then show ?thesis using assms by (simp add: on_startup_def Let_def read_json_from_file_def)
next
  case (Some obj)
  then show ?thesis using assms
    by (simp add: on_startup_def Let_def read_json_from_file_def register_attempts_outcome fst_answer)
qed

text \<open>The pid fits the buffer with its newline as long as it has at most nine digits.\<close>

lemma pid_text_whole: "length (string_of_nat pid) < 10 \<Longrightarrow> pid_text pid = string_of_nat pid @ [CHR 0x0A]"
  by (simp add: pid_text_def)

text \<open>Without a log file on the command line or in a configuration file, the default name dangles.\<close>

lemma main_log_file_dangling:
  assumes "mw_rootpath w = Some root"
  shows "server_main jl mgd jsd w [] = Inl UseAfterFree"
  using assms
  by (simp add: server_main_def parseArgs_def new_cmd_options_def apply_ini_def main_log_file_def)

end
