(* ===== verification/BrokerPid.thy ===== *)
theory BrokerPid
  imports Startup
begin

text \<open>
  The pid file of the packaged message bus (occam/makefiles/mosquitto/pid_file_utils.c): the
  code from which the server's PidFileUtils.cpp was made. It prints its errors, one after the
  other without a line end, where the server logs them; the standard output is a string.
\<close>

definition broker_pid_open :: "string \<Rightarrow> pid_os \<Rightarrow> string \<Rightarrow> nat option \<times> string" where
  "broker_pid_open filename os out =
     (case po_open os of
        Inl err \<Rightarrow> (None, out @ ''error opening '' @ filename @ '' for writing: '' @ err)
      | Inr fd \<Rightarrow>
          (case po_flock os of
             Some err \<Rightarrow>
               (None, out @ ''unable to lock '' @ filename @ '': '' @ err
                        @ ''is another copy of this program running?'')
           | None \<Rightarrow> (Some fd, out)))"

definition broker_pid_update :: "pid_os \<Rightarrow> string \<Rightarrow> string option \<times> string" where
  "broker_pid_update os out =
     (case po_lseek os of
        Some err \<Rightarrow> (None, out @ ''pid_update: lseek: '' @ err)
      | None \<Rightarrow>
          (case po_write os of
             Some err \<Rightarrow> (None, out @ ''pid_update: write: '' @ err)
           | None \<Rightarrow> (Some (pid_text (po_pid os)), out)))"

definition broker_pid_lock :: "string \<Rightarrow> pid_os \<Rightarrow> string \<Rightarrow> (nat \<times> string) option \<times> string" where
  "broker_pid_lock filename os out =
     (case broker_pid_open filename os out of
        (None, out) \<Rightarrow> (None, out)
      | (Some fd, out) \<Rightarrow>
          (case broker_pid_update os out of
             (None, out) \<Rightarrow> (None, out)
           | (Some txt, out) \<Rightarrow> (Some (fd, txt), out)))"

text \<open>
  Broker and server lock and write their files alike, whatever the operating system answers;
  on success neither prints anything.
\<close>

lemma broker_pid_lock_agrees: "fst (broker_pid_lock f os out) = fst (pid_lock f os l)"
  by (simp add: broker_pid_lock_def broker_pid_open_def broker_pid_update_def pid_lock_def pid_open_def
      pid_update_def split: sum.split option.split)

lemma broker_pid_lock_silent:
  "fst (broker_pid_lock f os out) \<noteq> None \<Longrightarrow> snd (broker_pid_lock f os out) = out"
  by (auto simp: broker_pid_lock_def broker_pid_open_def broker_pid_update_def
      split: sum.split option.split)

end
