(* ===== verification/ClientLag.thy ===== *)
theory ClientLag
  imports Translators ServerLog StdMap
begin

text \<open>
  What the client does with a message it receives: the statistics of link aggregation groups
  (AgentClientLag.hpp, AgentClientLag.cpp) and the telegraf lines (AgentTelegrafLog.hpp). A
  group and a member belong to one map entry each, so the pointers are values; a null pointer
  is \<open>None\<close>.
\<close>

section \<open>Groups\<close>

record lag_member =
  mem_name :: string
  mem_packets :: u64

definition new_member :: "string \<Rightarrow> lag_member" where
  "new_member name = \<lparr>mem_name = name, mem_packets = 0\<rparr>"

definition incPackets :: "u64 \<Rightarrow> lag_member \<Rightarrow> lag_member" where
  "incPackets n m = m\<lparr>mem_packets := mem_packets m + n\<rparr>"

record lag =
  lag_name :: string
  lag_interfaces :: "(string, lag_member option) smap"

definition new_lag :: "string \<Rightarrow> lag" where
  "new_lag name = \<lparr>lag_name = name, lag_interfaces = []\<rparr>"

definition addMember :: "lag_member \<Rightarrow> lag \<Rightarrow> lag" where
  "addMember child g = g\<lparr>lag_interfaces := smap_put (mem_name child) (Some child) (lag_interfaces g)\<rparr>"

text \<open>The entry stays, with a null pointer.\<close>

definition deleteMember :: "lag_member \<Rightarrow> lag \<Rightarrow> lag" where
  "deleteMember m g =
     (case smap_find (lag_interfaces g) (mem_name m) of
        None \<Rightarrow> g
      | Some _ \<Rightarrow> g\<lparr>lag_interfaces := smap_put (mem_name m) None (lag_interfaces g)\<rparr>)"

definition findMember :: "string \<Rightarrow> lag \<Rightarrow> lag_member option" where
  "findMember name g = (case smap_find (lag_interfaces g) name of None \<Rightarrow> None | Some p \<Rightarrow> p)"

text \<open>The lines of the members and the total, which wraps around.\<close>

fun member_lines :: "(string \<times> lag_member option) list \<Rightarrow> (string list \<times> u64) res" where
  "member_lines [] = Inr ([], 0)"
| "member_lines ((k, None) # ms) = Inl NullPointer"
| "member_lines ((k, Some m) # ms) =
     res_bind (member_lines ms) (\<lambda>(ls, count).
       Inr ((''  '' @ mem_name m @ '':'' @ string_of_u64 (mem_packets m)) # ls, mem_packets m + count))"

definition printMembers :: "lag \<Rightarrow> string list res" where
  "printMembers g =
     res_bind (member_lines (lag_interfaces g)) (\<lambda>(ls, count).
       Inr (''-----------'' # ls @ [''Total = '' @ string_of_u64 count, ''-----------'']))"

section \<open>The database\<close>

type_synonym lag_db = "(string, lag) smap"

definition addLag :: "lag \<Rightarrow> lag_db \<Rightarrow> lag_db" where
  "addLag g db = smap_put (lag_name g) g db"

definition findLag :: "string \<Rightarrow> lag_db \<Rightarrow> lag option" where
  "findLag name db = smap_find db name"

text \<open>The counts are below \<open>2 ^ 31\<close>, so that the loop variables do not overflow.\<close>

definition member_path :: "nat \<Rightarrow> nat \<Rightarrow> string" where
  "member_path i j =
     ''oc-path/interfaces/xe-'' @ string_of_nat j @ ''/0/'' @ string_of_nat i @ ''/''"

definition build_lag :: "nat \<Rightarrow> nat \<Rightarrow> lag" where
  "build_lag lc_count i =
     fold (\<lambda>j. addMember (new_member (member_path i j))) [0..<lc_count] (new_lag (''ae'' @ string_of_nat i))"

definition lag_build :: "u32 \<Rightarrow> u32 \<Rightarrow> lag_db \<Rightarrow> lag_db" where
  "lag_build lag_count lc_count db =
     fold (\<lambda>i. addLag (build_lag (unat lc_count) i)) [0..<unat lag_count] db"

fun lag_print :: "lag_db \<Rightarrow> string list res" where
  "lag_print [] = Inr []"
| "lag_print ((k, g) # db) =
     res_bind (printMembers g) (\<lambda>ls. res_bind (lag_print db) (\<lambda>ls'. Inr (k # ls @ ls')))"

definition lag_reset :: "lag_db \<Rightarrow> lag_db \<times> string list res" where
  "lag_reset db = ([], lag_print [])"

text \<open>
  The loop over the pairs of a message, with the last prefix and the last group name seen. The
  member is reached through the group's map.
\<close>

definition count_packets :: "string \<Rightarrow> string \<Rightarrow> u64 \<Rightarrow> lag_db \<Rightarrow> lag_db" where
  "count_packets lag_name' member_name packets' db =
     (case findLag lag_name' db of
        None \<Rightarrow> db
      | Some g \<Rightarrow>
          (case findMember member_name g of
             None \<Rightarrow> db
           | Some m \<Rightarrow>
               smap_put lag_name'
                 (g\<lparr>lag_interfaces := smap_put member_name (Some (incPackets packets' m)) (lag_interfaces g)\<rparr>) db))"

fun lag_loop :: "key_value list \<Rightarrow> string \<Rightarrow> string \<Rightarrow> lag_db \<Rightarrow> lag_db" where
  "lag_loop [] member_name lag_name' db = db"
| "lag_loop (kv # kvs) member_name lag_name' db =
     (let member_name = (if kv_key kv = ''__prefix__'' then kv_str_value kv else member_name);
          lag_name' = (if kv_key kv = ''parent_ae_name'' then kv_str_value kv else lag_name')
      in lag_loop kvs member_name lag_name'
           (if kv_key kv = ''output_packets''
            then count_packets lag_name' member_name (kv_int_value kv) db else db))"

definition lag_updateStats :: "open_config_data \<Rightarrow> lag_db \<Rightarrow> lag_db" where
  "lag_updateStats d db = lag_loop (oc_kv d) [] [] db"

section \<open>Telegraf lines\<close>

definition new_telegraf :: "string \<Rightarrow> server_log" where
  "new_telegraf logfile = log_enable (new_log (logfile @ ''.teldata''))"

text \<open>The text between the first \<open>=\<close> and the next \<open>]\<close>.\<close>

definition telegraf_ifname :: "string \<Rightarrow> string" where
  "telegraf_ifname port_name =
     (case str_find_from ''='' port_name 0 of
        None \<Rightarrow> ''XXXX''
      | Some pos \<Rightarrow>
          (let ifname = drop (pos + 1) port_name
           in case str_find_from '']'' ifname 0 of None \<Rightarrow> ifname | Some p \<Rightarrow> take p ifname))"

definition buildLine :: "string \<Rightarrow> string \<Rightarrow> string \<Rightarrow> u64 \<Rightarrow> server_log \<Rightarrow> server_log" where
  "buildLine resource sysname ifname ts l =
     log_write (resource @ '','' @ sysname @ '','' @ ifname @ '' '' @ string_of_u64 ts) True l"

definition telegraf_updateStats :: "open_config_data \<Rightarrow> server_log \<Rightarrow> server_log" where
  "telegraf_updateStats d l =
     (case oc_kv d of
        kv # kv1 # _ \<Rightarrow>
          (let ts = (if kv_key kv = ''__timestamp__'' then kv_uint_value kv else oc_timestamp d)
           in if kv_key kv1 \<noteq> ''__prefix__'' then l
              else buildLine ''interface'' (''sysname='' @ oc_system_id d)
                     (''ifname='' @ telegraf_ifname (kv_str_value kv1)) ts l)
      | _ \<Rightarrow> l)"

section \<open>Lemmas\<close>

text \<open>The packets of all members of a database, modulo \<open>2 ^ 64\<close>; null members count nothing.\<close>

definition member_total :: "lag \<Rightarrow> u64" where
  "member_total g = sum_list (map (\<lambda>p. case snd p of None \<Rightarrow> 0 | Some m \<Rightarrow> mem_packets m) (lag_interfaces g))"

text \<open>Every entry is filed under its name and is there; members are never deleted by the client.\<close>

definition lag_ok :: "lag \<Rightarrow> bool" where
  "lag_ok g \<longleftrightarrow> smap_ok (lag_interfaces g) \<and>
     (\<forall>p \<in> set (lag_interfaces g). \<exists>m. snd p = Some m \<and> mem_name m = fst p)"

definition lag_db_ok :: "lag_db \<Rightarrow> bool" where
  "lag_db_ok db \<longleftrightarrow> smap_ok db \<and> (\<forall>p \<in> set db. lag_name (snd p) = fst p \<and> lag_ok (snd p))"

lemma lag_ok_new [simp]: "lag_ok (new_lag n)" "lag_name (new_lag n) = n"
  by (simp_all add: new_lag_def lag_ok_def)

lemma lag_ok_put:
  "lag_ok g \<Longrightarrow> mem_name m = k \<Longrightarrow> lag_ok (g\<lparr>lag_interfaces := smap_put k (Some m) (lag_interfaces g)\<rparr>)"
  using set_smap_put [of k "Some m" "lag_interfaces g"] by (auto simp: lag_ok_def smap_ok_put)

lemma lag_db_ok_put: "lag_db_ok db \<Longrightarrow> lag_ok g \<Longrightarrow> lag_name g = k \<Longrightarrow> lag_db_ok (smap_put k g db)"
  using set_smap_put [of k g db] by (auto simp: lag_db_ok_def smap_ok_put)

lemma lag_ok_find: "lag_db_ok db \<Longrightarrow> findLag n db = Some g \<Longrightarrow> lag_ok g \<and> lag_name g = n"
  by (auto simp: lag_db_ok_def findLag_def smap_find_set)

lemma member_find: "lag_ok g \<Longrightarrow> findMember n g = Some m \<Longrightarrow> mem_name m = n"
  by (auto simp: lag_ok_def findMember_def smap_find_set split: option.splits)

lemma build_lag_ok: "lag_ok (build_lag n i) \<and> lag_name (build_lag n i) = ''ae'' @ string_of_nat i"
proof -
  have "lag_ok (fold (\<lambda>j. addMember (new_member (member_path i j))) js g) \<and>
      lag_name (fold (\<lambda>j. addMember (new_member (member_path i j))) js g) = lag_name g" if "lag_ok g" for js g
    using that
    by (induction js arbitrary: g) (simp_all add: addMember_def lag_ok_put new_member_def)
  then show ?thesis by (simp add: build_lag_def)
qed

lemma lag_build_ok: "lag_db_ok db \<Longrightarrow> lag_db_ok (lag_build n m db)"
proof -
  have "lag_db_ok (fold (\<lambda>i. addLag (build_lag k i)) js db)" if "lag_db_ok db" for js k db
    using that build_lag_ok by (induction js arbitrary: db) (simp_all add: addLag_def lag_db_ok_put)
  then show "lag_db_ok db \<Longrightarrow> ?thesis" by (simp add: lag_build_def)
qed

lemma count_packets_ok: "lag_db_ok db \<Longrightarrow> lag_db_ok (count_packets l m n db)"
  using lag_ok_find [of db l] member_find
  by (fastforce simp: count_packets_def incPackets_def intro!: lag_db_ok_put lag_ok_put split: option.split)

lemma lag_loop_ok: "lag_db_ok db \<Longrightarrow> lag_db_ok (lag_loop kvs m l db)"
  by (induction kvs m l db rule: lag_loop.induct) (simp add: Let_def count_packets_ok)+

text \<open>A database that is in order can be printed.\<close>

lemma member_lines_total:
  "\<forall>p \<in> set ms. \<exists>m. snd p = Some m \<Longrightarrow> \<exists>ls. member_lines ms =
     Inr (ls, sum_list (map (\<lambda>p. case snd p of None \<Rightarrow> 0 | Some m \<Rightarrow> mem_packets m) ms))"
  by (induction ms rule: member_lines.induct) auto

lemma lag_print_total: "lag_db_ok db \<Longrightarrow> \<exists>ls. lag_print db = Inr ls"
proof (induction db)
  case (Cons p db)
  obtain k g where p: "p = (k, g)" by (cases p)
  have "\<forall>q \<in> set (lag_interfaces g). \<exists>m. snd q = Some m"
    using Cons.prems p by (auto simp: lag_db_ok_def lag_ok_def)
  then obtain ls where "printMembers g = Inr ls"
    using member_lines_total [of "lag_interfaces g"] by (auto simp: printMembers_def)
  moreover have "lag_db_ok db" using Cons.prems by (simp add: lag_db_ok_def smap_ok_Cons)
  ultimately show ?case using Cons.IH p by auto
qed simp

text \<open>Printing after a deletion dereferences the null pointer the deletion left.\<close>

lemma print_after_delete:
  assumes "lag_ok g" and "findMember n g = Some m"
  shows "printMembers (deleteMember m g) = Inl NullPointer"
proof -
  have ok: "smap_ok (lag_interfaces g)" using assms(1) by (simp add: lag_ok_def)
  have "smap_find (lag_interfaces g) (mem_name m) \<noteq> None"
    using assms member_find [OF assms] by (auto simp: findMember_def split: option.splits)
  then have "deleteMember m g = g\<lparr>lag_interfaces := smap_put (mem_name m) None (lag_interfaces g)\<rparr>"
    by (auto simp: deleteMember_def)
  moreover have "(mem_name m, None) \<in> set (smap_put (mem_name m) None (lag_interfaces g))"
    using ok by (subst smap_find_set [symmetric]) (simp_all add: smap_ok_put smap_find_put)
  moreover have "(k, None) \<in> set ms \<Longrightarrow> member_lines ms = Inl NullPointer" for k ms
    by (induction ms rule: member_lines.induct) auto
  ultimately show ?thesis by (auto simp: printMembers_def)
qed

text \<open>The groups count nothing from messages without the key they look for.\<close>

lemma lag_loop_none: "\<forall>kv \<in> set kvs. kv_key kv \<noteq> ''output_packets'' \<Longrightarrow> lag_loop kvs m l db = db"
  by (induction kvs m l db rule: lag_loop.induct) (simp_all add: Let_def)

lemma port_keys:
  "kv \<in> set (port_kvs ifd) \<Longrightarrow> kv_key kv \<noteq> ''output_packets''"
  "kv \<in> set (logical_port_kvs ifl) \<Longrightarrow> kv_key kv \<noteq> ''output_packets''"
  by (auto simp: port_kvs_def logical_port_kvs_def Let_def oc_set_prefix_def oc_set_prefix_no_attr_def
      unless_zero_def split: if_splits prod.splits)

text \<open>The telegraf line of a port message names its first interface.\<close>

lemma telegraf_port_name:
  assumes "CHR '']'' \<notin> set name"
  shows "telegraf_ifname (port_path name) = [CHR 0x27] @ name @ [CHR 0x27]"
proof -
  let ?pre = "interface_base @ ''[name''" and ?rest = "[CHR 0x27] @ name @ [CHR 0x27] @ '']/''"
  have path: "port_path name = ?pre @ CHR ''='' # ?rest" by (simp add: port_path_def bracket_name_def)
  have "CHR ''='' \<notin> set ?pre" by (simp add: interface_base_def)
  then have f: "str_find ''='' (port_path name) = Some (length ?pre)"
    unfolding path by (rule str_find_char_append)
  have d: "drop (length ?pre + 1) (port_path name) = ?rest" unfolding path by simp
  have "str_find '']'' (([CHR 0x27] @ name @ [CHR 0x27]) @ CHR '']'' # ''/'') =
      Some (length ([CHR 0x27] @ name @ [CHR 0x27]))"
    using assms by (intro str_find_char_append) auto
  then show ?thesis
    unfolding telegraf_ifname_def str_find_from_def using f d by simp
qed

lemma telegraf_port_line:
  assumes "log_level l \<noteq> 0" and "CHR '']'' \<notin> set (ifd_if_name ifd)"
    and "oc_kv d = kv_uint ''__timestamp__'' ts # concat (map port_kvs (ifd # ifds))"
  shows "telegraf_updateStats d l = l\<lparr>log_output := log_output l @
    [RawLine (''interface,sysname='' @ oc_system_id d @ '',ifname='' @ [CHR 0x27] @ ifd_if_name ifd @ [CHR 0x27] @
       '' '' @ string_of_u64 ts)]\<rparr>"
proof -
  have "port_kvs ifd = kv_str ''__prefix__'' (port_path (ifd_if_name ifd)) # port_leaves ifd"
    by (simp add: port_kvs_group prefix_group_def)
  then show ?thesis
    using assms telegraf_port_name [OF assms(2)]
    by (simp add: telegraf_updateStats_def kv_str_value_def kv_uint_value_def buildLine_def log_write_def)
qed

end
