(* ===== verification/Client.thy ===== *)
theory Client
  imports ClientLag
begin

text \<open>
  The client (AgentClient.hpp, AgentClient.cpp) and the handlers of its commands
  (AgentClientParser.cpp). A client is an object on the heap, found by name in
  \<open>active_clients\<close>; every handler runs in a thread of its own, so a subscription is split at
  the points where its thread waits: the request, the metadata, each message, the end. The
  server is the parameter \<open>client_rpc\<close> over a state of the environment; a call that fails
  leaves the reply as it was created.
\<close>

section \<open>State\<close>

type_synonym client_addr = nat

record agent_client =
  ac_name :: string
  ac_logfile :: string
  ac_active :: bool
  ac_debug_log :: bool
  ac_id :: u32
  ac_subscription_id_valid :: bool
  ac_subscription_id :: u32
  ac_stub :: string

definition new_agent_client :: "string \<Rightarrow> string \<Rightarrow> u32 \<Rightarrow> string \<Rightarrow> agent_client" where
  "new_agent_client channel name i logfile_dir =
     \<lparr>ac_name = name, ac_logfile = logfile_dir @ name, ac_active = True, ac_debug_log = False,
      ac_id = i, ac_subscription_id_valid = False, ac_subscription_id = 0, ac_stub = channel\<rparr>"

record client_state =
  cl_clients :: "(string, client_addr) smap"
  cl_heap :: "client_addr \<Rightarrow> agent_client"
  cl_live :: "client_addr \<Rightarrow> bool"
  cl_next :: client_addr
  cl_server_ip :: string
  cl_server_port :: string
  cl_global_id :: u32
  cl_some_id :: int
  cl_log_dir :: string
  cl_lag :: lag_db
  cl_out :: string

definition AGENTCLIENT_MGMT :: string where
  "AGENTCLIENT_MGMT = ''Management-Client''"

definition new_client_state :: "string \<Rightarrow> client_state" where
  "new_client_state log_dir =
     \<lparr>cl_clients = [], cl_heap = (\<lambda>_. new_agent_client [] [] 0 []), cl_live = (\<lambda>_. False), cl_next = 0,
      cl_server_ip = ''localhost'', cl_server_port = ''50051'', cl_global_id = 0, cl_some_id = 0,
      cl_log_dir = log_dir, cl_lag = [], cl_out = []\<rparr>"

definition server_ip_port :: "client_state \<Rightarrow> string" where
  "server_ip_port c = cl_server_ip c @ '':'' @ cl_server_port c"

text \<open>Lines written to the standard output.\<close>

definition say :: "string list \<Rightarrow> client_state \<Rightarrow> client_state" where
  "say ls c = c\<lparr>cl_out := cl_out c @ concat (map (\<lambda>l. l @ [CHR 0x0A]) ls)\<rparr>"

section \<open>Clients\<close>

definition client_create :: "string \<Rightarrow> string \<Rightarrow> u32 \<Rightarrow> string \<Rightarrow> client_state \<Rightarrow> client_addr \<times> client_state" where
  "client_create channel name i logfile_dir c =
     (let a = cl_next c
      in (a, c\<lparr>cl_next := Suc a, cl_live := (cl_live c)(a := True),
               cl_heap := (cl_heap c)(a := new_agent_client channel name i logfile_dir),
               cl_clients := smap_put name a (cl_clients c)\<rparr>))"

definition client_find :: "string \<Rightarrow> client_state \<Rightarrow> client_addr option" where
  "client_find name c = smap_find (cl_clients c) name"

definition deref_client :: "client_addr \<Rightarrow> client_state \<Rightarrow> agent_client res" where
  "deref_client a c = (if cl_live c a then Inr (cl_heap c a) else Inl UseAfterFree)"

text \<open>\<open>delete\<close>: the destructor erases the entry under the client's name, whosever it is.\<close>

definition client_delete :: "client_addr \<Rightarrow> client_state \<Rightarrow> client_state res" where
  "client_delete a c =
     res_bind (deref_client a c) (\<lambda>x.
       Inr (c\<lparr>cl_clients := smap_erase (ac_name x) (cl_clients c), cl_live := (cl_live c)(a := False)\<rparr>))"

definition update_client :: "client_addr \<Rightarrow> (agent_client \<Rightarrow> agent_client) \<Rightarrow> client_state \<Rightarrow> client_state" where
  "update_client a f c = c\<lparr>cl_heap := (cl_heap c)(a := f (cl_heap c a))\<rparr>"

definition rehome :: "client_addr \<Rightarrow> client_state \<Rightarrow> client_state res" where
  "rehome a c =
     res_bind (deref_client a c) (\<lambda>x.
       Inr (update_client a (\<lambda>x. x\<lparr>ac_stub := server_ip_port c\<rparr>) c))"

fun client_lines :: "(string \<times> client_addr) list \<Rightarrow> client_state \<Rightarrow> string list res" where
  "client_lines [] c = Inr []"
| "client_lines ((n, a) # es) c =
     res_bind (deref_client a c) (\<lambda>x. res_bind (client_lines es c) (\<lambda>ls.
       Inr ([] # (''Subscription = '' @ ac_name x @ '', ID = '' @ string_of_u32 (ac_id x) @ '' (Active = '' @
              string_of_bool (ac_active x) @ '')'') #
            (''   Server/Subscription ID  = '' @ string_of_u32 (ac_subscription_id x) @ '' (Valid = '' @
              string_of_bool (ac_subscription_id_valid x) @ '')'') # ls)))"

definition client_print :: "client_state \<Rightarrow> client_state res" where
  "client_print c = res_bind (client_lines (cl_clients c) c) (\<lambda>ls. Inr (say ls c))"

section \<open>A subscription\<close>

definition subscribe_request :: "string list \<Rightarrow> u32 \<Rightarrow> u32 \<Rightarrow> u32 \<Rightarrow> subscription_request" where
  "subscribe_request path_list sample_frequency records seconds =
     (let paths = map (\<lambda>p. path_cleared\<lparr>p_path := p, p_sample_frequency := sample_frequency\<rparr>) path_list;
          cfg = additional_config_cleared;
          cfg = (if records \<noteq> 0 then cfg\<lparr>limit_records := records\<rparr> else cfg);
          cfg = (if seconds \<noteq> 0 then cfg\<lparr>limit_time_seconds := seconds\<rparr> else cfg)
      in \<lparr>sr_collectors = [], sr_path_list = paths, sr_additional_config = cfg\<rparr>)"

text \<open>The thread of a subscription that is open: its client and the two loggers.\<close>

record client_session =
  cse_client :: client_addr
  cse_telegraf :: bool
  cse_logger :: server_log
  cse_telegraf_logger :: server_log

text \<open>
  The initial metadata: \<open>None\<close> when it has no \<open>init-response\<close>; then the thread is at its end. A
  message is printed by the parameter \<open>sp\<close>.
\<close>

definition client_metadata ::
    "(path_msg \<Rightarrow> string) \<Rightarrow> client_addr \<Rightarrow> bool \<Rightarrow> subscription_reply option \<Rightarrow> client_state \<Rightarrow>
     (client_session option \<times> client_state) res" where
  "client_metadata sp a telegraf metadata c =
     res_bind (deref_client a c) (\<lambda>x.
       case metadata of
         None \<Rightarrow> Inr (None, say [''Error in Metadata iterator.''] c)
       | Some reply \<Rightarrow>
           (let c = update_client a (\<lambda>x. x\<lparr>ac_subscription_id_valid := True,
                      ac_subscription_id := rep_subscription_id reply\<rparr>) c;
                c = say [[], ''Received Subcription Id = '' @ string_of_u32 (rep_subscription_id reply)] c;
                c = (if rep_path_list reply \<noteq> []
                     then say (map (\<lambda>(i, p). ''Path['' @ string_of_nat i @ '']: '' @ sp p)
                                (enumerate 0 (rep_path_list reply))) c
                     else say [''*** No Paths accepted ***''] c)
            in Inr (Some \<lparr>cse_client = a, cse_telegraf = telegraf,
                          cse_logger = log_enable (new_log (ac_logfile x)),
                          cse_telegraf_logger = new_telegraf (ac_logfile x)\<rparr>, c)))"

text \<open>
  A message was read: when the client is no longer active the loop ends (\<open>None\<close>). The size and
  the text of a message are parameters.
\<close>

definition client_message ::
    "(open_config_data \<Rightarrow> int) \<Rightarrow> (open_config_data \<Rightarrow> string) \<Rightarrow> open_config_data \<Rightarrow> client_session \<Rightarrow>
     client_state \<Rightarrow> (client_session option \<times> client_state) res" where
  "client_message sz show d s c =
     res_bind (deref_client (cse_client s) c) (\<lambda>x.
       if \<not> ac_active x then Inr (None, c)
       else
         let l = log_write (''Message Size = '' @ string_of_int (sz d)) False (cse_logger s);
             l = log_write (show d) False l;
             l = log_write ''-----'' False l;
             c = c\<lparr>cl_lag := lag_updateStats d (cl_lag c)\<rparr>;
             s = s\<lparr>cse_logger := l\<rparr>;
             s = (if cse_telegraf s
                  then s\<lparr>cse_telegraf_logger := telegraf_updateStats d (cse_telegraf_logger s)\<rparr> else s)
         in Inr (Some s, c))"

text \<open>The end of \<open>subscribeTelemetry\<close>, and the \<open>delete client\<close> of the handler.\<close>

definition client_stream_end :: "client_addr \<Rightarrow> client_state \<Rightarrow> client_state res" where
  "client_stream_end a c =
     res_bind (deref_client a c) (\<lambda>x.
       Inr (say [''Ending subscription session for Id = '' @ string_of_u32 (ac_subscription_id x)] c))"

section \<open>Requests to the server\<close>

record 'e client_rpc =
  rpc_cancel :: "string \<Rightarrow> u32 \<Rightarrow> 'e \<Rightarrow> cancel_reply option \<times> 'e"
  rpc_list :: "string \<Rightarrow> u32 \<Rightarrow> 'e \<Rightarrow> subscription_reply list option \<times> 'e"
  rpc_operational :: "string \<Rightarrow> u32 \<Rightarrow> verbosity_level \<Rightarrow> 'e \<Rightarrow> key_value list option \<times> 'e"

fun return_code_number :: "return_code \<Rightarrow> nat" where
  "return_code_number SUCCESS = 0"
| "return_code_number NO_SUBSCRIPTION_ENTRY = 1"
| "return_code_number UNKNOWN_ERROR = 2"

definition cancel_reply_of :: "cancel_reply option \<Rightarrow> cancel_reply" where
  "cancel_reply_of r = (case r of None \<Rightarrow> \<lparr>cr_code = SUCCESS, cr_code_str = []\<rparr> | Some x \<Rightarrow> x)"

definition say_cancel_reply :: "cancel_reply \<Rightarrow> client_state \<Rightarrow> client_state" where
  "say_cancel_reply r c =
     say [''Server Response code : '' @ string_of_nat (return_code_number (cr_code r)),
          ''Server Response string : '' @ cr_code_str r] c"

definition cancelSubscribeTelemetry ::
    "'e client_rpc \<Rightarrow> client_addr \<Rightarrow> client_state \<times> 'e \<Rightarrow> (client_state \<times> 'e) res" where
  "cancelSubscribeTelemetry rpc a s =
     (case s of (c, e) \<Rightarrow>
        res_bind (deref_client a c) (\<lambda>x.
          let c = say [[], ''Unsubscribe Subcription Id = '' @ string_of_u32 (ac_subscription_id x)] c
          in if \<not> ac_subscription_id_valid x
             then Inr (say [''Failed to find Server/Subscription Id''] c, e)
             else
               let (r, e) = rpc_cancel rpc (ac_stub x) (ac_subscription_id x) e;
                   r = cancel_reply_of r;
                   c = say_cancel_reply r c
               in Inr (if cr_code r = SUCCESS then update_client a (\<lambda>x. x\<lparr>ac_active := False\<rparr>) c else c, e)))"

definition cancelSubscribeTelemetryId ::
    "'e client_rpc \<Rightarrow> client_addr \<Rightarrow> u32 \<Rightarrow> client_state \<times> 'e \<Rightarrow> (client_state \<times> 'e) res" where
  "cancelSubscribeTelemetryId rpc a subscription_id s =
     (case s of (c, e) \<Rightarrow>
        res_bind (deref_client a c) (\<lambda>x.
          let c = say [[], ''Unsubscribe Subcription Id = '' @ string_of_u32 subscription_id] c;
              (r, e) = rpc_cancel rpc (ac_stub x) subscription_id e
          in Inr (say_cancel_reply (cancel_reply_of r) c, e)))"

definition list_path_lines :: "nat \<times> path_msg \<Rightarrow> string list" where
  "list_path_lines ip =
     (case ip of (lz, path) \<Rightarrow>
        let i = ''['' @ string_of_nat lz @ '']: ''
        in [''Path'' @ i @ p_path path, ''Filter'' @ i @ p_filter path,
            ''Sup Unchanged'' @ i @ string_of_bool (p_suppress_unchanged path),
            ''Max Silent Interval'' @ i @ string_of_u32 (p_max_silent_interval path),
            ''Sample Freq'' @ i @ string_of_u32 (p_sample_frequency path)])"

definition list_reply_lines :: "nat \<times> subscription_reply \<Rightarrow> string list" where
  "list_reply_lines ir =
     (case ir of (i, r) \<Rightarrow>
        [[], ''['' @ string_of_nat i @ ''] ---> Subscription Id = '' @ string_of_u32 (rep_subscription_id r)] @
        concat (map list_path_lines (enumerate 0 (rep_path_list r))))"

definition listSubscriptions ::
    "'e client_rpc \<Rightarrow> client_addr \<Rightarrow> u32 \<Rightarrow> client_state \<times> 'e \<Rightarrow> (client_state \<times> 'e) res" where
  "listSubscriptions rpc a subscription_id s =
     (case s of (c, e) \<Rightarrow>
        res_bind (deref_client a c) (\<lambda>x.
          let (r, e) = rpc_list rpc (ac_stub x) subscription_id e;
              replies = (case r of None \<Rightarrow> [] | Some rs \<Rightarrow> rs)
          in Inr (say (concat (map list_reply_lines (enumerate 0 replies))) c, e)))"

text \<open>A double is printed by the parameter \<open>sd\<close>.\<close>

definition kv_value_text :: "(double_bits \<Rightarrow> string) \<Rightarrow> kv_value \<Rightarrow> string" where
  "kv_value_text sd v =
     (case v of
        DoubleValue d \<Rightarrow> sd d
      | IntValue n \<Rightarrow> string_of_int (sint n)
      | UintValue n \<Rightarrow> string_of_u64 n
      | SintValue n \<Rightarrow> string_of_int (sint n)
      | BoolValue b \<Rightarrow> string_of_bool b
      | StrValue t \<Rightarrow> t
      | BytesValue t \<Rightarrow> t
      | ValueNotSet \<Rightarrow> ''Value Error'')"

definition operational_lines :: "(double_bits \<Rightarrow> string) \<Rightarrow> key_value \<Rightarrow> string list" where
  "operational_lines sd kv =
     (if kv_key kv = ''subscription_id'' then [[]] else []) @
     (if kv_key kv = ''agent-stats'' \<and> kv_str_value kv = ''begin'' then [[]] else []) @
     [kv_key kv @ '': '' @ kv_value_text sd (kv_val kv)]"

definition getOperational ::
    "(double_bits \<Rightarrow> string) \<Rightarrow> 'e client_rpc \<Rightarrow> client_addr \<Rightarrow> u32 \<Rightarrow> verbosity_level \<Rightarrow>
     client_state \<times> 'e \<Rightarrow> (client_state \<times> 'e) res" where
  "getOperational sd rpc a subscription_id verbosity s =
     (case s of (c, e) \<Rightarrow>
        res_bind (deref_client a c) (\<lambda>x.
          let (r, e) = rpc_operational rpc (ac_stub x) subscription_id verbosity e
          in Inr (say (concat (map (operational_lines sd) (case r of None \<Rightarrow> [] | Some kvs \<Rightarrow> kvs))) c, e)))"

section \<open>Lemmas\<close>

text \<open>A cancellation whose call fails ends the subscription all the same.\<close>

lemma cancel_failure_ends:
  assumes "deref_client a c = Inr x" and "ac_subscription_id_valid x"
    and "rpc_cancel rpc (ac_stub x) (ac_subscription_id x) e = (None, e')"
  shows "\<exists>c'. cancelSubscribeTelemetry rpc a (c, e) = Inr (c', e') \<and> \<not> ac_active (cl_heap c' a)"
  using assms by (simp add: cancelSubscribeTelemetry_def cancel_reply_of_def update_client_def Let_def)

end
