(* ===== verification/ClientCommands.thy ===== *)
theory ClientCommands
  imports Client
begin

text \<open>
  The handlers of the client's commands and its command line (AgentClientParser.hpp,
  AgentClientParser.cpp, client/main.cpp). A handler gets the words of its line; a word that is
  missing is a null pointer. The handlers that subscribe end when their thread waits for the
  server; \<open>Client\<close> has the rest of the thread.
\<close>

section \<open>Handlers\<close>

definition argv_at :: "string list \<Rightarrow> nat \<Rightarrow> string res" where
  "argv_at argv i = (if i < length argv then Inr (argv ! i) else Inl NullPointer)"

text \<open>A client that was created and whose request is on its way.\<close>

record pending_session =
  pe_client :: client_addr
  pe_telegraf :: bool
  pe_request :: subscription_request

text \<open>What a command leaves to do: nothing, one subscription, or threads that subscribe.\<close>

datatype started = NoSession | Session pending_session | ManySessions u32

definition create_named :: "string \<Rightarrow> client_state \<Rightarrow> client_addr \<times> client_state" where
  "create_named name c =
     (let (a, c) = client_create (server_ip_port c) name (cl_global_id c) (cl_log_dir c) c
      in (a, c\<lparr>cl_global_id := cl_global_id c + 1\<rparr>))"

definition begin_subscription ::
    "string \<Rightarrow> u32 \<Rightarrow> u32 \<Rightarrow> u32 \<Rightarrow> string list \<Rightarrow> bool \<Rightarrow> client_state \<Rightarrow> started \<times> client_state" where
  "begin_subscription name freq records seconds paths telegraf c =
     (case client_find name c of
        Some _ \<Rightarrow> (NoSession, say [''Client already exist: '' @ name] c)
      | None \<Rightarrow>
          (case create_named name c of (a, c) \<Rightarrow>
             (Session \<lparr>pe_client = a, pe_telegraf = telegraf,
                       pe_request = subscribe_request paths freq records seconds\<rparr>, c)))"

definition handle_subscribe :: "string list \<Rightarrow> client_state \<Rightarrow> (started \<times> client_state) res" where
  "handle_subscribe argv c =
     res_bind (argv_at argv 1) (\<lambda>name. res_bind (argv_at argv 2) (\<lambda>freq.
       Inr (begin_subscription name (atoi freq) 0 0 (drop 3 argv) False c)))"

definition handle_subscribe_telegraf :: "string list \<Rightarrow> client_state \<Rightarrow> (started \<times> client_state) res" where
  "handle_subscribe_telegraf argv c =
     res_bind (argv_at argv 1) (\<lambda>name. res_bind (argv_at argv 2) (\<lambda>freq.
       Inr (begin_subscription name (atoi freq) 0 0 (drop 3 argv) True c)))"

definition handle_subscribe_limits :: "string list \<Rightarrow> client_state \<Rightarrow> (started \<times> client_state) res" where
  "handle_subscribe_limits argv c =
     res_bind (argv_at argv 1) (\<lambda>name. res_bind (argv_at argv 2) (\<lambda>freq.
     res_bind (argv_at argv 3) (\<lambda>records. res_bind (argv_at argv 4) (\<lambda>seconds.
       Inr (begin_subscription name (atoi freq) (atoi records) (atoi seconds) (drop 5 argv) False c)))))"

text \<open>The thread \<open>proc\<close> of \<open>subscribe_n\<close>; the names count on.\<close>

definition proc_begin :: "string list \<Rightarrow> client_state \<Rightarrow> (started \<times> client_state) res" where
  "proc_begin argv c =
     res_bind (argv_at argv 2) (\<lambda>name. res_bind (argv_at argv 3) (\<lambda>freq.
       let n = name @ string_of_int (cl_some_id c);
           c = c\<lparr>cl_some_id := cl_some_id c + 1\<rparr>
       in Inr (begin_subscription n (atoi freq) 0 0 (drop 4 argv) False c)))"

definition handle_subscribe_multiple :: "string list \<Rightarrow> client_state \<Rightarrow> (started \<times> client_state) res" where
  "handle_subscribe_multiple argv c =
     res_bind (argv_at argv 1) (\<lambda>count. Inr (ManySessions (atoi count), c))"

text \<open>After the sleep.\<close>

definition reset_some_id :: "client_state \<Rightarrow> client_state" where
  "reset_some_id c = c\<lparr>cl_some_id := 0\<rparr>"

definition find_mgmt :: "client_state \<Rightarrow> client_addr res" where
  "find_mgmt c = (case client_find AGENTCLIENT_MGMT c of None \<Rightarrow> Inl NullPointer | Some a \<Rightarrow> Inr a)"

definition handle_unsubscribe ::
    "'e client_rpc \<Rightarrow> string list \<Rightarrow> client_state \<times> 'e \<Rightarrow> (client_state \<times> 'e) res" where
  "handle_unsubscribe rpc argv s =
     (case s of (c, e) \<Rightarrow>
        res_bind (argv_at argv 1) (\<lambda>name.
          if name = AGENTCLIENT_MGMT then Inr (say [AGENTCLIENT_MGMT @ '' cannot be deleted''] c, e)
          else (case client_find name c of
                  None \<Rightarrow> Inr (say [''Failed to find client: '' @ name] c, e)
                | Some a \<Rightarrow> cancelSubscribeTelemetry rpc a (c, e))))"

definition handle_unsubscribe_id ::
    "'e client_rpc \<Rightarrow> string list \<Rightarrow> client_state \<times> 'e \<Rightarrow> (client_state \<times> 'e) res" where
  "handle_unsubscribe_id rpc argv s =
     (case s of (c, e) \<Rightarrow>
        res_bind (argv_at argv 1) (\<lambda>i.
          case client_find AGENTCLIENT_MGMT c of
            None \<Rightarrow> Inr (say [''Failed to find client: '' @ AGENTCLIENT_MGMT] c, e)
          | Some a \<Rightarrow> cancelSubscribeTelemetryId rpc a (atoi i) (c, e)))"

definition handle_list_all :: "'e client_rpc \<Rightarrow> client_state \<times> 'e \<Rightarrow> (client_state \<times> 'e) res" where
  "handle_list_all rpc s =
     res_bind (find_mgmt (fst s)) (\<lambda>a. listSubscriptions rpc a 0xFFFFFFFF s)"

definition handle_list :: "'e client_rpc \<Rightarrow> string list \<Rightarrow> client_state \<times> 'e \<Rightarrow> (client_state \<times> 'e) res" where
  "handle_list rpc argv s =
     res_bind (find_mgmt (fst s)) (\<lambda>a.
       listSubscriptions rpc a (if 1 < length argv then atoi (argv ! 1) else 0) s)"

text \<open>
  The choice of the verbosity: \<open>strcmp\<close> is not zero when the words differ, so the tests are
  the wrong way round.
\<close>

definition choose_verbosity :: "string \<Rightarrow> verbosity_level" where
  "choose_verbosity word =
     (if word \<noteq> ''brief'' then BRIEF else if word \<noteq> ''terse'' then TERSE else DETAIL)"

definition handle_get_oper_all ::
    "(double_bits \<Rightarrow> string) \<Rightarrow> 'e client_rpc \<Rightarrow> string list \<Rightarrow> client_state \<times> 'e \<Rightarrow> (client_state \<times> 'e) res" where
  "handle_get_oper_all sd rpc argv s =
     (let verbosity = (if 1 < length argv then choose_verbosity (argv ! 1) else DETAIL)
      in res_bind (find_mgmt (fst s)) (\<lambda>a. getOperational sd rpc a 0xFFFFFFFF verbosity s))"

text \<open>Here the word compared is the identifier.\<close>

definition handle_get_oper ::
    "(double_bits \<Rightarrow> string) \<Rightarrow> 'e client_rpc \<Rightarrow> string list \<Rightarrow> client_state \<times> 'e \<Rightarrow> (client_state \<times> 'e) res" where
  "handle_get_oper sd rpc argv s =
     (let subscription_id = (if 1 < length argv then atoi (argv ! 1) else 0)
      in if subscription_id = 0 then Inr (say [''Invalid Subscription id = 0''] (fst s), snd s)
         else
           let verbosity = (if 2 < length argv then choose_verbosity (argv ! 1) else DETAIL)
           in res_bind (find_mgmt (fst s)) (\<lambda>a. getOperational sd rpc a subscription_id verbosity s))"

definition handle_get_oper_mgmt ::
    "(double_bits \<Rightarrow> string) \<Rightarrow> 'e client_rpc \<Rightarrow> string list \<Rightarrow> client_state \<times> 'e \<Rightarrow> (client_state \<times> 'e) res" where
  "handle_get_oper_mgmt sd rpc argv s =
     (let verbosity = (if 1 < length argv then choose_verbosity (argv ! 1) else DETAIL)
      in res_bind (find_mgmt (fst s)) (\<lambda>a. getOperational sd rpc a 0 verbosity s))"

definition handle_build_lag :: "string list \<Rightarrow> client_state \<Rightarrow> client_state res" where
  "handle_build_lag argv c =
     res_bind (argv_at argv 1) (\<lambda>n. res_bind (argv_at argv 2) (\<lambda>m.
       let c = c\<lparr>cl_lag := lag_build (atoi n) (atoi m) (cl_lag c)\<rparr>
       in res_bind (lag_print (cl_lag c)) (\<lambda>ls. Inr (say ls c))))"

definition handle_clean_lag :: "client_state \<Rightarrow> client_state res" where
  "handle_clean_lag c =
     (case lag_reset (cl_lag c) of (db, r) \<Rightarrow> res_bind r (\<lambda>ls. Inr (say ls (c\<lparr>cl_lag := db\<rparr>))))"

text \<open>The rounds, five seconds apart, print the group as it was found.\<close>

definition handle_print_lag :: "string list \<Rightarrow> client_state \<Rightarrow> client_state res" where
  "handle_print_lag argv c =
     res_bind (argv_at argv 1) (\<lambda>name.
       case findLag name (cl_lag c) of
         None \<Rightarrow> Inr (say [''Could not find LAG = '' @ name] c)
       | Some g \<Rightarrow>
           (let repeat_count = unat (if 2 < length argv then atoi (argv ! 2) else (1 :: i32))
            in if repeat_count = 0 then Inr c
               else res_bind (printMembers g) (\<lambda>ls.
                 Inr (say (concat (replicate repeat_count ls)) c))))"

definition handle_set_server :: "string list \<Rightarrow> client_state \<Rightarrow> client_state res" where
  "handle_set_server argv c =
     res_bind (argv_at argv 1) (\<lambda>ip.
       let c = (if ip = ''default'' then c\<lparr>cl_server_ip := ''localhost'', cl_server_port := ''50051''\<rparr>
                else
                  let c = c\<lparr>cl_server_ip := ip\<rparr>
                  in if 2 < length argv then c\<lparr>cl_server_port := argv ! 2\<rparr> else c)
       in case client_find AGENTCLIENT_MGMT c of
            None \<Rightarrow> Inr (say [''This is strange. Didn't find the management client''] c)
          | Some a \<Rightarrow> rehome a c)"

definition handle_get_server :: "client_state \<Rightarrow> client_state" where
  "handle_get_server c = say [''Server Address = '' @ server_ip_port c] c"

section \<open>The commands\<close>

datatype command =
    Subscribe_cmd | Set_server | Get_server | Subscribe_limits | Subscribe_n | Subscribe_telegraf
  | Unsubscribe | Unsubscribe_id | List_all | List_id | Get_oper_all | Get_oper | Get_oper_mgmt
  | Print_clients | Build_lag | Clean_lag | Print_lag

fun run_command ::
    "(double_bits \<Rightarrow> string) \<Rightarrow> 'e client_rpc \<Rightarrow> command \<Rightarrow> string list \<Rightarrow> client_state \<times> 'e \<Rightarrow>
     (started \<times> client_state \<times> 'e) res" where
  "run_command sd rpc Subscribe_cmd argv (c, e) = res_bind (handle_subscribe argv c) (\<lambda>(r, c). Inr (r, c, e))"
| "run_command sd rpc Subscribe_telegraf argv (c, e) =
     res_bind (handle_subscribe_telegraf argv c) (\<lambda>(r, c). Inr (r, c, e))"
| "run_command sd rpc Subscribe_limits argv (c, e) =
     res_bind (handle_subscribe_limits argv c) (\<lambda>(r, c). Inr (r, c, e))"
| "run_command sd rpc Subscribe_n argv (c, e) =
     res_bind (handle_subscribe_multiple argv c) (\<lambda>(r, c). Inr (r, c, e))"
| "run_command sd rpc Set_server argv (c, e) = res_bind (handle_set_server argv c) (\<lambda>c. Inr (NoSession, c, e))"
| "run_command sd rpc Get_server argv (c, e) = Inr (NoSession, handle_get_server c, e)"
| "run_command sd rpc Unsubscribe argv s = res_bind (handle_unsubscribe rpc argv s) (\<lambda>s. Inr (NoSession, s))"
| "run_command sd rpc Unsubscribe_id argv s = res_bind (handle_unsubscribe_id rpc argv s) (\<lambda>s. Inr (NoSession, s))"
| "run_command sd rpc List_all argv s = res_bind (handle_list_all rpc s) (\<lambda>s. Inr (NoSession, s))"
| "run_command sd rpc List_id argv s = res_bind (handle_list rpc argv s) (\<lambda>s. Inr (NoSession, s))"
| "run_command sd rpc Get_oper_all argv s = res_bind (handle_get_oper_all sd rpc argv s) (\<lambda>s. Inr (NoSession, s))"
| "run_command sd rpc Get_oper argv s = res_bind (handle_get_oper sd rpc argv s) (\<lambda>s. Inr (NoSession, s))"
| "run_command sd rpc Get_oper_mgmt argv s = res_bind (handle_get_oper_mgmt sd rpc argv s) (\<lambda>s. Inr (NoSession, s))"
| "run_command sd rpc Print_clients argv (c, e) = res_bind (client_print c) (\<lambda>c. Inr (NoSession, c, e))"
| "run_command sd rpc Build_lag argv (c, e) = res_bind (handle_build_lag argv c) (\<lambda>c. Inr (NoSession, c, e))"
| "run_command sd rpc Clean_lag argv (c, e) = res_bind (handle_clean_lag c) (\<lambda>c. Inr (NoSession, c, e))"
| "run_command sd rpc Print_lag argv (c, e) = res_bind (handle_print_lag argv c) (\<lambda>c. Inr (NoSession, c, e))"

section \<open>Lemmas\<close>

lemma verbosity_choice:
  "choose_verbosity word = (if word = ''brief'' then TERSE else BRIEF)"
  "choose_verbosity word \<noteq> DETAIL"
  by (auto simp: choose_verbosity_def)

end
