(* ===== verification/ClientParser.thy ===== *)
theory ClientParser
  imports ClientCommands
begin

text \<open>
  The client's command line (AgentClientParser.hpp, the table of AgentClientParser.cpp, and
  client/main.cpp): the words of a line, the lookup, and the loop that starts one thread per
  command. The standard input is its text and whether it can still be read.
\<close>

section \<open>The commands\<close>

record cmd_entry =
  e_cmd :: string
  e_argc :: nat
  e_help :: string
  e_usage :: string
  e_handler :: command

definition agent_client_commands :: "cmd_entry list" where
  "agent_client_commands =
     [\<lparr>e_cmd = ''subscribe'', e_argc = 4,
       e_help = ''Subscribe to a jvision sensor by specifying a list of paths'',
       e_usage = ''subscribe <subscription-name> <sample-frequency> <path>+'',
       e_handler = Subscribe_cmd\<rparr>,
      \<lparr>e_cmd = ''set-server'', e_argc = 2,
       e_help = (''Set server'' @ [CHR 0x27] @ ''s ip and port (optional) to establish gRPC connection''),
       e_usage = ''set-server <server_ip> [port]'',
       e_handler = Set_server\<rparr>,
      \<lparr>e_cmd = ''get-server'', e_argc = 1,
       e_help = (''Get server'' @ [CHR 0x27] @ ''s ip and port to establish gRPC connection''),
       e_usage = ''get-server'',
       e_handler = Get_server\<rparr>,
      \<lparr>e_cmd = ''subscribe_limits'', e_argc = 6,
       e_help = ''Subscribe with record and second limits to the session'',
       e_usage = ''subscribe_limits <subscription-name> <sample-frequency> <record-limit> <second-limit> <path>+'',
       e_handler = Subscribe_limits\<rparr>,
      \<lparr>e_cmd = ''subscribe_n'', e_argc = 4,
       e_help = ''Create N subscriptions'',
       e_usage = ''subscribe_n <count> <subscription-name> <sample-frequency> <path>+'',
       e_handler = Subscribe_n\<rparr>,
      \<lparr>e_cmd = ''subscribe_telegraf'', e_argc = 4,
       e_help = ''Subscribe and generate telegraf log to a jvision sensor by specifying a list of paths. Telegraf log file is subscription-name.teldata'',
       e_usage = ''subscribe_telegraf <subscription-name> <sample-frequency> <path>+'',
       e_handler = Subscribe_telegraf\<rparr>,
      \<lparr>e_cmd = ''unsubscribe'', e_argc = 2,
       e_help = ''Unsubscribe an existing request by specifying the subscription name'',
       e_usage = ''unsubscribe <subscription-name>'',
       e_handler = Unsubscribe\<rparr>,
      \<lparr>e_cmd = ''unsubscribe_id'', e_argc = 2,
       e_help = ''Unsubscribe an existing request by specifying the subscription id'',
       e_usage = ''unsubscribe <subscription-id>'',
       e_handler = Unsubscribe_id\<rparr>,
      \<lparr>e_cmd = ''list-all'', e_argc = 1,
       e_help = ''Get all active subscriptions from the server'',
       e_usage = ''list-all'',
       e_handler = List_all\<rparr>,
      \<lparr>e_cmd = ''list'', e_argc = 2,
       e_help = ''Get subscription id details from the server'',
       e_usage = ''list <subscription-id>'',
       e_handler = List_id\<rparr>,
      \<lparr>e_cmd = ''get-oper-all'', e_argc = 1,
       e_help = ''Get all operational state from the server'',
       e_usage = ''get-oper-all <verbosity=terse,brief,detail>*'',
       e_handler = Get_oper_all\<rparr>,
      \<lparr>e_cmd = ''get-oper'', e_argc = 2,
       e_help = ''Get subscription id operational state from the server'',
       e_usage = ''get-oper <subscription-id> <verbosity=terse,brief,detail>*'',
       e_handler = Get_oper\<rparr>,
      \<lparr>e_cmd = ''get-oper-mgmt'', e_argc = 1,
       e_help = ''Get agent operational state from the server'',
       e_usage = ''get-oper-mgmt <subscription-id> <verbosity=terse,brief,detail>*'',
       e_handler = Get_oper_mgmt\<rparr>,
      \<lparr>e_cmd = ''print'', e_argc = 1,
       e_help = ''Print all subscriptions known to the client'',
       e_usage = ''print'',
       e_handler = Print_clients\<rparr>,
      \<lparr>e_cmd = ''build-lag'', e_argc = 3,
       e_help = ''Build the LAG database'',
       e_usage = ''build-lag <total-lag-count> <number-of-lcs>'',
       e_handler = Build_lag\<rparr>,
      \<lparr>e_cmd = ''clean-lag'', e_argc = 1,
       e_help = ''Clean the LAG database'',
       e_usage = ''clean-lag'',
       e_handler = Clean_lag\<rparr>,
      \<lparr>e_cmd = ''print-lag'', e_argc = 2,
       e_help = ''Print Stats for given LAG'',
       e_usage = ''print-lag <name> <repeat-count>'',
       e_handler = Print_lag\<rparr>]"

definition MAX_BUFFER :: nat where
  "MAX_BUFFER = 1024"

definition MAX_ARGS :: nat where
  "MAX_ARGS = 40"

type_synonym grammar = "(string, cmd_entry) smap"

definition new_grammar :: grammar where
  "new_grammar = fold (\<lambda>e. smap_put (e_cmd e) e) agent_client_commands []"

definition lookupCmd :: "grammar \<Rightarrow> string \<Rightarrow> cmd_entry option" where
  "lookupCmd g cmd = smap_find g cmd"

definition help_lines :: "grammar \<Rightarrow> string list" where
  "help_lines g = concat (map (\<lambda>(k, e). [k @ '':'', ''   '' @ e_help e, ''   '' @ e_usage e, []]) g)"

section \<open>Reading a line\<close>

text \<open>
  \<open>cin.getline(input, n)\<close>. Once the end of the input was met, or a line did not fit, the
  stream stays in that state and every further call reads an empty line.
\<close>

fun getline :: "nat \<Rightarrow> string \<times> bool \<Rightarrow> string \<times> string \<times> bool" where
  "getline n (cs, good) =
     (if \<not> good then ([], cs, False)
      else
        let line = takeWhile (\<lambda>c. c \<noteq> CHR 0x0A) cs
        in if length line < n then
             (case drop (length line) cs of [] \<Rightarrow> (line, [], False) | _ # rest \<Rightarrow> (line, rest, True))
           else (take (n - 1) line, drop (n - 1) cs, False))"

text \<open>\<open>strtok(input, " ")\<close> up to the terminating zero.\<close>

function words_of :: "string \<Rightarrow> string list" where
  "words_of s =
     (case dropWhile (\<lambda>c. c = CHR '' '') s of
        [] \<Rightarrow> []
      | c # cs \<Rightarrow> takeWhile (\<lambda>c. c \<noteq> CHR '' '') (c # cs) # words_of (dropWhile (\<lambda>c. c \<noteq> CHR '' '') cs))"
  by pat_completeness auto
termination
proof (relation "measure length", goal_cases)
  case (2 s c cs)
  have "length (dropWhile (\<lambda>c. c \<noteq> CHR '' '') cs) \<le> length cs" by (rule length_dropWhile_le)
  also have "\<dots> < length (dropWhile (\<lambda>c. c = CHR '' '') s)" using 2 by simp
  also have "\<dots> \<le> length s" by (rule length_dropWhile_le)
  finally show ?case by simp
qed simp

declare words_of.simps [simp del]

definition line_words :: "string \<Rightarrow> string list" where
  "line_words line = words_of (takeWhile (\<lambda>c. c \<noteq> CHR 0x00) line)"

text \<open>\<open>parseArg\<close>: the array of words has \<open>MAX_ARGS\<close> places.\<close>

definition parseArg :: "string \<times> bool \<Rightarrow> (string list \<times> string \<times> bool) res" where
  "parseArg inp =
     (let (line, inp) = getline MAX_BUFFER inp;
          cmd = line_words line
      in if MAX_ARGS < length cmd then Inl OutOfRange else Inr (cmd, inp))"

section \<open>The loop\<close>

text \<open>
  \<open>execute\<close>: a line, or the thread it starts. The context has \<open>MAX_ARGS\<close> places for the words
  and the null pointer behind them.
\<close>

definition execute :: "grammar \<Rightarrow> string list \<Rightarrow> (string list \<times> (command \<times> string list) list) res" where
  "execute g argv =
     (case lookupCmd g (hd argv) of
        None \<Rightarrow> Inr ([''Unrecognised command''], [])
      | Some e \<Rightarrow>
          if length argv < e_argc e then Inr ([''Missing arguments:Usage:'' @ e_help e], [])
          else if MAX_ARGS \<le> length argv then Inl OutOfRange
          else Inr ([], [(e_handler e, argv)]))"

definition prompt :: string where
  "prompt = ''jvsim> ''"

definition text_lines :: "string list \<Rightarrow> string" where
  "text_lines ls = concat (map (\<lambda>l. l @ [CHR 0x0A]) ls)"

text \<open>What one line makes the loop do; \<open>None\<close> to leave it.\<close>

definition line_step :: "grammar \<Rightarrow> string list \<Rightarrow> (string \<times> (command \<times> string list) list) option res" where
  "line_step g cmd =
     (if cmd = [] then Inr (Some ([], []))
      else if hd cmd = ''help'' \<or> hd cmd = ''?'' then Inr (Some (text_lines (help_lines g), []))
      else if hd cmd = ''exit'' \<or> hd cmd = ''quit'' then Inr None
      else res_bind (execute g cmd) (\<lambda>(ls, ts). Inr (Some (text_lines ls, ts))))"

text \<open>\<open>parseLoop\<close>: the output and the threads started; \<open>None\<close> when it does not return.\<close>

partial_function (option) parseLoop ::
    "grammar \<Rightarrow> string \<times> bool \<Rightarrow> string \<Rightarrow> (command \<times> string list) list \<Rightarrow>
     (string \<times> (command \<times> string list) list) res option" where
  "parseLoop g inp out threads =
     (case parseArg inp of
        Inl e \<Rightarrow> Some (Inl e)
      | Inr (cmd, inp) \<Rightarrow>
          (case line_step g cmd of
             Inl e \<Rightarrow> Some (Inl e)
           | Inr None \<Rightarrow> Some (Inr (out @ prompt, threads))
           | Inr (Some (o', ts)) \<Rightarrow> parseLoop g inp (out @ prompt @ o') (threads @ ts)))"

section \<open>The program\<close>

text \<open>
  The directory of the logs: from the command line or ROOTPATH. The last character of an empty
  argument is not there.
\<close>

definition client_log_dir :: "string option \<Rightarrow> string list \<Rightarrow> string option res" where
  "client_log_dir rootpath args =
     (case args of
        d # _ \<Rightarrow>
          if d = [] then Inl OutOfRange
          else Inr (Some (if last d \<noteq> CHR ''/'' then d @ ''/'' else d))
      | [] \<Rightarrow> Inr (map_option (\<lambda>r. r @ ''/logs/'') rootpath))"

text \<open>\<open>main\<close> up to the loop: a message, or the state with the management client.\<close>

definition client_main ::
    "string option \<Rightarrow> (string \<Rightarrow> bool) \<Rightarrow> string list \<Rightarrow> (string + client_state) res" where
  "client_main rootpath is_directory args =
     res_bind (client_log_dir rootpath args) (\<lambda>dir.
       Inr (case dir of
         None \<Rightarrow> Inl ''Please setup ROOTPATH environment variable or run as\"client_binary logfile_dir\"''
       | Some d \<Rightarrow>
           if \<not> is_directory d then
             Inl (''Either ROOTPATH set or argument passed is not a valid directory = '' @ d)
           else Inr (snd (create_named AGENTCLIENT_MGMT (new_client_state d)))))"

section \<open>Lemmas\<close>

text \<open>A stream that cannot be read keeps the loop going for ever.\<close>

lemma words_of_Nil [simp]: "words_of [] = []"
  by (simp add: words_of.simps)

lemma parseArg_end: "parseArg (cs, False) = Inr ([], cs, False)"
  by (simp add: parseArg_def line_words_def)

lemma parseLoop_end: "parseLoop g (cs, False) out threads = None"
proof (rule ccontr)
  assume "parseLoop g (cs, False) out threads \<noteq> None"
  then obtain r where "parseLoop g (cs, False) out threads = Some r" by blast
  then have "snd (cs, False) \<longrightarrow> True" by simp
  have "\<not> snd (cs, False) \<longrightarrow> False"
  proof (rule parseLoop.raw_induct [where P = "\<lambda>g inp out threads r. \<not> snd inp \<longrightarrow> False",
        OF _ \<open>parseLoop g (cs, False) out threads = Some r\<close>], intro impI)
    fix rec :: "grammar \<Rightarrow> string \<times> bool \<Rightarrow> string \<Rightarrow> (command \<times> string list) list \<Rightarrow>
      (string \<times> (command \<times> string list) list) res option"
      and g inp out threads r
    assume IH: "\<And>g inp out threads r. rec g inp out threads = Some r \<Longrightarrow> \<not> snd inp \<longrightarrow> False"
      and body: "(case parseArg inp of
          Inl e \<Rightarrow> Some (Inl e)
        | Inr (cmd, inp) \<Rightarrow>
            (case line_step g cmd of
               Inl e \<Rightarrow> Some (Inl e)
             | Inr None \<Rightarrow> Some (Inr (out @ prompt, threads))
             | Inr (Some (o', ts)) \<Rightarrow> rec g inp (out @ prompt @ o') (threads @ ts))) = Some r"
      and "\<not> snd inp"
    then obtain cs where inp: "inp = (cs, False)" by (cases inp) auto
    have "line_step g [] = Inr (Some ([], []))" by (simp add: line_step_def)
    then show False using body IH [of g "(cs, False)" "out @ prompt @ []" "threads @ []" r]
      by (simp add: inp parseArg_end)
  qed
  then show False by simp
qed

text \<open>Lines that fit, with words that fit.\<close>

definition line_fits :: "string \<Rightarrow> bool" where
  "line_fits l \<longleftrightarrow> length l < MAX_BUFFER \<and> CHR 0x0A \<notin> set l \<and> length (line_words l) < MAX_ARGS"

definition leaves_loop :: "string \<Rightarrow> bool" where
  "leaves_loop l \<longleftrightarrow> line_words l \<noteq> [] \<and> hd (line_words l) \<in> {''exit'', ''quit''}"

lemma getline_text: "length l < n \<Longrightarrow> CHR 0x0A \<notin> set l \<Longrightarrow> getline n (l @ CHR 0x0A # rest, True) = (l, rest, True)"
proof -
  assume l: "length l < n" "CHR 0x0A \<notin> set l"
  then have "takeWhile (\<lambda>c. c \<noteq> CHR 0x0A) (l @ CHR 0x0A # rest) = l" by (induction l arbitrary: n) auto
  then show ?thesis using l by (simp add: Let_def)
qed

lemma parseArg_line:
  assumes "line_fits l"
  shows "parseArg (l @ CHR 0x0A # rest, True) = Inr (line_words l, rest, True)"
  using assms getline_text [of l MAX_BUFFER rest]
  by (simp add: parseArg_def line_fits_def del: getline.simps)

lemma line_step_fits:
  assumes "line_fits l"
  shows "if leaves_loop l then line_step g (line_words l) = Inr None
    else \<exists>o' ts. line_step g (line_words l) = Inr (Some (o', ts))"
  using assms
  by (auto simp: line_step_def leaves_loop_def execute_def line_fits_def split: option.split)

text \<open>The threads a list of lines starts, up to the first that leaves the loop.\<close>

fun started_threads :: "grammar \<Rightarrow> string list \<Rightarrow> (command \<times> string list) list" where
  "started_threads g [] = []"
| "started_threads g (l # ls) =
     (case line_step g (line_words l) of
        Inr (Some (o', ts)) \<Rightarrow> ts @ started_threads g ls
      | _ \<Rightarrow> [])"

lemma parseLoop_lines:
  "\<forall>l \<in> set ls. line_fits l \<Longrightarrow>
   (if \<exists>l \<in> set ls. leaves_loop l
    then \<exists>out'. parseLoop g (text_lines ls, True) out threads = Some (Inr (out', threads @ started_threads g ls))
    else parseLoop g (text_lines ls, True) out threads = None)"
proof (induction ls arbitrary: out threads)
  case Nil
  have "line_step g [] = Inr (Some ([], []))" by (simp add: line_step_def)
  moreover have "parseArg ([], True) = Inr ([], [], False)"
    by (simp add: parseArg_def MAX_BUFFER_def line_words_def)
  ultimately show ?case
    by (simp add: text_lines_def parseLoop.simps [of g "([], True)"] parseLoop_end)
next
  case (Cons l ls)
  have fits: "line_fits l" using Cons.prems by simp
  have split: "text_lines (l # ls) = l @ CHR 0x0A # text_lines ls" by (simp add: text_lines_def)
  have loop: "parseLoop g (text_lines (l # ls), True) out threads =
     (case line_step g (line_words l) of
        Inl e \<Rightarrow> Some (Inl e)
      | Inr None \<Rightarrow> Some (Inr (out @ prompt, threads))
      | Inr (Some (o', ts)) \<Rightarrow> parseLoop g (text_lines ls, True) (out @ prompt @ o') (threads @ ts))"
    unfolding split by (subst parseLoop.simps) (simp add: parseArg_line [OF fits])
  show ?case
  proof (cases "leaves_loop l")
    case True
    then have "line_step g (line_words l) = Inr None" using line_step_fits [OF fits, of g] by simp
    then show ?thesis using True loop by simp
  next
    case False
    then obtain o' ts where "line_step g (line_words l) = Inr (Some (o', ts))"
      using line_step_fits [OF fits, of g] by auto
    then show ?thesis
      using False loop Cons.IH [of "out @ prompt @ o'" "threads @ ts"] Cons.prems
      by (cases "\<exists>x \<in> set ls. leaves_loop x") auto
  qed
qed

text \<open>Too many words overflow an array of the loop.\<close>

lemma parseLoop_overflow:
  assumes "length l < MAX_BUFFER" "CHR 0x0A \<notin> set l" "MAX_ARGS < length (line_words l)"
  shows "parseLoop g (l @ CHR 0x0A # rest, True) out threads = Some (Inl OutOfRange)"
  using assms getline_text [of l MAX_BUFFER rest]
  by (subst parseLoop.simps) (simp add: parseArg_def del: getline.simps)

text \<open>The names of the table are different, and every entry asks for the words its handler reads.\<close>

lemma command_names_distinct: "distinct (map e_cmd agent_client_commands)"
  by (simp add: agent_client_commands_def)

lemma lookupCmd_table: "lookupCmd new_grammar w = Some e \<longleftrightarrow> e \<in> set agent_client_commands \<and> e_cmd e = w"
proof -
  let ?kvs = "map (\<lambda>e. (e_cmd e, e)) agent_client_commands"
  have "new_grammar = fold (\<lambda>(k, v). smap_put k v) ?kvs []"
    by (simp add: new_grammar_def fold_map comp_def)
  moreover have "smap_find ([] :: grammar) = Map.empty" by (rule ext) simp
  ultimately have "smap_find new_grammar = Map.empty ++ map_of (rev ?kvs)"
    using std_map.find_fold_put [OF smap_ok_Nil, of ?kvs] by simp
  moreover have "distinct (map fst (rev ?kvs))" using command_names_distinct by (simp add: rev_map [symmetric] comp_def)
  ultimately show ?thesis by (auto simp: lookupCmd_def map_of_eq_Some_iff)
qed

fun words_needed :: "command \<Rightarrow> nat" where
  "words_needed Subscribe_cmd = 3"
| "words_needed Subscribe_telegraf = 3"
| "words_needed Subscribe_limits = 5"
| "words_needed Subscribe_n = 4"
| "words_needed Set_server = 2"
| "words_needed Unsubscribe = 2"
| "words_needed Unsubscribe_id = 2"
| "words_needed Build_lag = 3"
| "words_needed Print_lag = 2"
| "words_needed _ = 0"

lemma table_words: "e \<in> set agent_client_commands \<Longrightarrow> words_needed (e_handler e) \<le> e_argc e"
  by (auto simp: agent_client_commands_def)

lemma execute_words:
  assumes "execute new_grammar argv = Inr (ls, ts)" and "(cmd, ws) \<in> set ts"
  shows "words_needed cmd \<le> length ws"
  using assms table_words
  by (fastforce simp: execute_def lookupCmd_table split: option.splits if_splits)

lemma execute_print: "execute new_grammar [''print''] = Inr ([], [(Print_clients, [''print''])])"
proof -
  have "\<exists>e. lookupCmd new_grammar ''print'' = Some e \<and> e_argc e = 1 \<and> e_handler e = Print_clients"
    by (rule exI [of _ "agent_client_commands ! 13"]) (simp add: lookupCmd_table agent_client_commands_def)
  then show ?thesis by (auto simp: execute_def MAX_ARGS_def)
qed

end
