(* ===== verification/ClientRuns.thy ===== *)
theory ClientRuns
  imports ClientParser
begin

text \<open>
  The client as a whole: the threads of its commands, interleaved. A command runs in one step,
  in particular the test whether a name is taken and the creation of the client; a
  subscription goes from waiting for the metadata over reading to the deletion of its client.
  The invariant: the registry holds the management client and the clients of the threads, each
  under its name, and nothing else is alive.
\<close>

section \<open>Steps\<close>

record 'e client_env =
  ce_rpc :: "'e client_rpc"
  ce_double :: "double_bits \<Rightarrow> string"
  ce_path :: "path_msg \<Rightarrow> string"
  ce_size :: "open_config_data \<Rightarrow> int"
  ce_show :: "open_config_data \<Rightarrow> string"

datatype client_phase = Waiting pending_session | Reading client_session | Ended client_addr

fun phase_client :: "client_phase \<Rightarrow> client_addr" where
  "phase_client (Waiting p) = pe_client p"
| "phase_client (Reading s) = cse_client s"
| "phase_client (Ended a) = a"

type_synonym client_threads = "nat \<Rightarrow> client_phase option"

inductive client_step ::
    "'e client_env \<Rightarrow> client_state \<times> 'e \<times> client_threads \<Rightarrow> client_state \<times> 'e \<times> client_threads \<Rightarrow> bool"
  for env :: "'e client_env" where
  command: "words_needed cmd \<le> length argv \<Longrightarrow>
    run_command (ce_double env) (ce_rpc env) cmd argv (c, e) = Inr (r, c', e') \<Longrightarrow> \<forall>p. r \<noteq> Session p \<Longrightarrow>
    client_step env (c, e, ts) (c', e', ts)"
| subscribe: "words_needed cmd \<le> length argv \<Longrightarrow>
    run_command (ce_double env) (ce_rpc env) cmd argv (c, e) = Inr (Session p, c', e') \<Longrightarrow> ts k = None \<Longrightarrow>
    client_step env (c, e, ts) (c', e', ts(k \<mapsto> Waiting p))"
| proc: "proc_begin argv c = Inr (Session p, c') \<Longrightarrow> ts k = None \<Longrightarrow>
    client_step env (c, e, ts) (c', e, ts(k \<mapsto> Waiting p))"
| proc_taken: "proc_begin argv c = Inr (NoSession, c') \<Longrightarrow> client_step env (c, e, ts) (c', e, ts)"
| reset: "client_step env (c, e, ts) (reset_some_id c, e, ts)"
| metadata: "ts k = Some (Waiting p) \<Longrightarrow>
    client_metadata (ce_path env) (pe_client p) (pe_telegraf p) m c = Inr (r, c') \<Longrightarrow>
    client_step env (c, e, ts)
      (c', e, ts(k \<mapsto> (case r of None \<Rightarrow> Ended (pe_client p) | Some s \<Rightarrow> Reading s)))"
| message: "ts k = Some (Reading s) \<Longrightarrow>
    client_message (ce_size env) (ce_show env) d s c = Inr (Some s', c') \<Longrightarrow>
    client_step env (c, e, ts) (c', e, ts(k \<mapsto> Reading s'))"
| stream_end: "ts k = Some (Reading s) \<Longrightarrow> client_stream_end (cse_client s) c = Inr c' \<Longrightarrow>
    client_step env (c, e, ts) (c', e, ts(k \<mapsto> Ended (cse_client s)))"
| delete: "ts k = Some (Ended a) \<Longrightarrow> client_delete a c = Inr c' \<Longrightarrow>
    client_step env (c, e, ts) (c', e, ts(k := None))"

inductive client_reachable ::
    "'e client_env \<Rightarrow> client_state \<times> 'e \<times> client_threads \<Rightarrow> bool" for env :: "'e client_env" where
  start: "client_main rootpath is_directory args = Inr (Inr c) \<Longrightarrow> client_reachable env (c, e, \<lambda>_. None)"
| step: "client_reachable env s \<Longrightarrow> client_step env s s' \<Longrightarrow> client_reachable env s'"

section \<open>The invariant\<close>

definition registry_ok :: "client_state \<Rightarrow> bool" where
  "registry_ok c \<longleftrightarrow> smap_ok (cl_clients c) \<and>
     (\<forall>n a. smap_find (cl_clients c) n = Some a \<longleftrightarrow> cl_live c a \<and> ac_name (cl_heap c a) = n) \<and>
     (\<forall>a. cl_live c a \<longrightarrow> a < cl_next c) \<and>
     AGENTCLIENT_MGMT \<in> dom (smap_find (cl_clients c)) \<and> lag_db_ok (cl_lag c)"

definition client_inv :: "client_state \<Rightarrow> client_threads \<Rightarrow> bool" where
  "client_inv c ts \<longleftrightarrow> registry_ok c \<and>
     (\<forall>k ph. ts k = Some ph \<longrightarrow> cl_live c (phase_client ph) \<and>
        ac_name (cl_heap c (phase_client ph)) \<noteq> AGENTCLIENT_MGMT) \<and>
     (\<forall>k l ph ph'. ts k = Some ph \<longrightarrow> ts l = Some ph' \<longrightarrow> phase_client ph = phase_client ph' \<longrightarrow> k = l) \<and>
     (\<forall>a. cl_live c a \<longrightarrow> ac_name (cl_heap c a) = AGENTCLIENT_MGMT \<or>
        (\<exists>k ph. ts k = Some ph \<and> phase_client ph = a))"

text \<open>What leaves the registry as it is.\<close>

definition same_clients :: "client_state \<Rightarrow> client_state \<Rightarrow> bool" where
  "same_clients c c' \<longleftrightarrow> cl_clients c' = cl_clients c \<and> cl_live c' = cl_live c \<and> cl_next c' = cl_next c \<and>
     (\<forall>a. ac_name (cl_heap c' a) = ac_name (cl_heap c a)) \<and>
     (lag_db_ok (cl_lag c) \<longrightarrow> lag_db_ok (cl_lag c'))"

lemma same_clients_refl [simp]: "same_clients c c"
  by (simp add: same_clients_def)

lemma same_clients_trans: "same_clients c c' \<Longrightarrow> same_clients c' c'' \<Longrightarrow> same_clients c c''"
  by (simp add: same_clients_def)

lemma same_clients_ops [simp]:
  "same_clients c (say ls c') = same_clients c c'"
  "same_clients c (c'\<lparr>cl_server_ip := ip\<rparr>) = same_clients c c'"
  "same_clients c (c'\<lparr>cl_server_port := po\<rparr>) = same_clients c c'"
  "same_clients c (c'\<lparr>cl_some_id := n\<rparr>) = same_clients c c'"
  "same_clients c (reset_some_id c') = same_clients c c'"
  by (simp_all add: same_clients_def say_def reset_some_id_def)

lemma same_clients_update [intro]:
  "(\<And>x. ac_name (f x) = ac_name x) \<Longrightarrow> same_clients c (update_client a f c)"
  by (simp add: same_clients_def update_client_def)

lemma same_clients_lag [intro]: "(lag_db_ok (cl_lag c) \<Longrightarrow> lag_db_ok db) \<Longrightarrow> same_clients c (c\<lparr>cl_lag := db\<rparr>)"
  by (simp add: same_clients_def)

lemma same_clients_registry: "same_clients c c' \<Longrightarrow> registry_ok c \<Longrightarrow> registry_ok c'"
  by (simp add: same_clients_def registry_ok_def)

lemma same_clients_inv: "same_clients c c' \<Longrightarrow> client_inv c ts \<Longrightarrow> client_inv c' ts"
  using same_clients_registry [of c c'] by (simp add: client_inv_def same_clients_def)

text \<open>A thread goes on with the same client.\<close>

lemma client_inv_phase:
  assumes "client_inv c ts" and "ts k = Some ph" and "phase_client ph' = phase_client ph"
  shows "client_inv c (ts(k \<mapsto> ph'))"
  unfolding client_inv_def
proof (intro conjI allI impI)
  fix l m p q assume "(ts(k \<mapsto> ph')) l = Some p" "(ts(k \<mapsto> ph')) m = Some q" "phase_client p = phase_client q"
  then show "l = m" using assms by (auto simp: client_inv_def split: if_splits)
next
  fix a assume "cl_live c a"
  then consider "ac_name (cl_heap c a) = AGENTCLIENT_MGMT" | l p where "ts l = Some p" "phase_client p = a"
    using assms(1) by (auto simp: client_inv_def)
  then show "ac_name (cl_heap c a) = AGENTCLIENT_MGMT \<or> (\<exists>l p. (ts(k \<mapsto> ph')) l = Some p \<and> phase_client p = a)"
  proof cases
    case (2 l p)
    then show ?thesis using assms(2,3) by (cases "l = k") auto
  qed simp
qed (use assms in \<open>auto simp: client_inv_def split: if_splits\<close>)

section \<open>Commands\<close>

lemma find_live: "registry_ok c \<Longrightarrow> client_find n c = Some a \<Longrightarrow> deref_client a c = Inr (cl_heap c a)"
  by (simp add: registry_ok_def client_find_def deref_client_def)

lemma mgmt_found:
  assumes "registry_ok c"
  obtains a where "find_mgmt c = Inr a" "client_find AGENTCLIENT_MGMT c = Some a" "deref_client a c = Inr (cl_heap c a)"
proof -
  from assms obtain a where "client_find AGENTCLIENT_MGMT c = Some a" by (auto simp: registry_ok_def client_find_def)
  then show thesis using find_live [OF assms] by (intro that) (simp_all add: find_mgmt_def)
qed

text \<open>A command that opens a subscription.\<close>

definition opens :: "client_state \<Rightarrow> pending_session \<Rightarrow> client_state \<Rightarrow> bool" where
  "opens c p c' \<longleftrightarrow> pe_client p = cl_next c \<and> cl_next c' = Suc (cl_next c) \<and>
     cl_live c' = (cl_live c)(cl_next c := True) \<and> cl_lag c' = cl_lag c \<and>
     (\<exists>n. smap_find (cl_clients c) n = None \<and> cl_clients c' = smap_put n (cl_next c) (cl_clients c) \<and>
       ac_name (cl_heap c' (cl_next c)) = n) \<and>
     (\<forall>a. a \<noteq> cl_next c \<longrightarrow> cl_heap c' a = cl_heap c a)"

lemma begin_subscription_cases:
  "(\<exists>c'. begin_subscription n f r s ps t c = (NoSession, c') \<and> same_clients c c') \<or>
   (\<exists>p c'. begin_subscription n f r s ps t c = (Session p, c') \<and> opens c p c')"
  by (cases "client_find n c")
    (auto simp: begin_subscription_def create_named_def client_create_def Let_def opens_def client_find_def
      new_agent_client_def)

lemma argv_at_ok: "i < length argv \<Longrightarrow> argv_at argv i = Inr (argv ! i)"
  by (simp add: argv_at_def)

lemma client_lines_total:
  "\<forall>p \<in> set es. cl_live c (snd p) \<Longrightarrow> \<exists>ls. client_lines es c = Inr ls"
  by (induction es c rule: client_lines.induct) (auto simp: deref_client_def)

lemma client_print_total:
  assumes "registry_ok c"
  shows "\<exists>ls. client_print c = Inr (say ls c)"
proof -
  have "smap_ok (cl_clients c)" using assms by (simp add: registry_ok_def)
  then have "\<forall>p \<in> set (cl_clients c). cl_live c (snd p)"
    using assms by (auto simp: registry_ok_def smap_find_set [symmetric])
  then show ?thesis using client_lines_total by (fastforce simp: client_print_def)
qed

text \<open>The requests to the server answer, and leave the registry alone.\<close>

definition answers :: "client_state \<Rightarrow> (client_state \<times> 'e) res \<Rightarrow> bool" where
  "answers c r \<longleftrightarrow> (case r of Inl _ \<Rightarrow> False | Inr (c', e') \<Rightarrow> same_clients c c')"

definition completes :: "client_state \<Rightarrow> client_state res \<Rightarrow> bool" where
  "completes c r \<longleftrightarrow> (case r of Inl _ \<Rightarrow> False | Inr c' \<Rightarrow> same_clients c c')"

lemma answers_Inr [simp]: "answers c (Inr (c', e')) = same_clients c c'"
  by (simp add: answers_def)

lemma completes_Inr [simp]: "completes c (Inr c') = same_clients c c'"
  by (simp add: completes_def)

lemma same_clients_say_reply [simp]: "same_clients c (say_cancel_reply r c') = same_clients c c'"
  by (simp add: say_cancel_reply_def)

lemma cancel_total:
  assumes "deref_client a c = Inr x"
  shows "answers c (cancelSubscribeTelemetry rpc a (c, e))"
proof -
  obtain r e' where r: "rpc_cancel rpc (ac_stub x) (ac_subscription_id x) e = (r, e')" by fastforce
  have "same_clients c (update_client a (\<lambda>x. x\<lparr>ac_active := False\<rparr>) c')" if "same_clients c c'" for c'
    using that same_clients_update [of "\<lambda>x. x\<lparr>ac_active := False\<rparr>" c' a] same_clients_trans by simp
  then show ?thesis using assms r by (simp add: cancelSubscribeTelemetry_def Let_def)
qed

lemma cancel_id_total:
  assumes "deref_client a c = Inr x"
  shows "answers c (cancelSubscribeTelemetryId rpc a i (c, e))"
  using assms by (cases "rpc_cancel rpc (ac_stub x) i e") (simp add: cancelSubscribeTelemetryId_def Let_def)

lemma list_total:
  assumes "deref_client a c = Inr x"
  shows "answers c (listSubscriptions rpc a i (c, e))"
  using assms by (cases "rpc_list rpc (ac_stub x) i e") (simp add: listSubscriptions_def Let_def)

lemma operational_query_total:
  assumes "deref_client a c = Inr x"
  shows "answers c (getOperational sd rpc a i v (c, e))"
  using assms by (cases "rpc_operational rpc (ac_stub x) i v e") (simp add: getOperational_def Let_def)

text \<open>What a command does to the registry: nothing, or it opens one client.\<close>

definition command_ok :: "client_state \<Rightarrow> (started \<times> client_state \<times> 'e) res \<Rightarrow> bool" where
  "command_ok c r \<longleftrightarrow>
     (case r of
        Inl _ \<Rightarrow> False
      | Inr (Session p, c', e') \<Rightarrow> opens c p c'
      | Inr (_, c', e') \<Rightarrow> same_clients c c')"

lemma command_ok_begin:
  "command_ok c (case begin_subscription n f r s ps t c of (st, c') \<Rightarrow> Inr (st, c', e))"
  using begin_subscription_cases [of n f r s ps t c] by (auto simp: command_ok_def)

lemma command_ok_state:
  "answers c r \<Longrightarrow> command_ok c (res_bind r (\<lambda>s. Inr (NoSession, s)))"
  by (cases r) (auto simp: command_ok_def answers_def)

lemma command_ok_alone:
  "completes c r \<Longrightarrow> command_ok c (res_bind r (\<lambda>c. Inr (NoSession, c, e)))"
  by (cases r) (auto simp: command_ok_def completes_def)

lemma lag_commands:
  assumes "lag_db_ok (cl_lag c)"
  shows "completes c (handle_clean_lag c)"
    "3 \<le> length argv \<Longrightarrow> completes c (handle_build_lag argv c)"
    "2 \<le> length argv \<Longrightarrow> completes c (handle_print_lag argv c)"
proof -
  have "same_clients c (c\<lparr>cl_lag := []\<rparr>)" by (intro same_clients_lag) (simp add: lag_db_ok_def)
  then show "completes c (handle_clean_lag c)"
    by (simp add: handle_clean_lag_def lag_reset_def)
next
  assume argv: "3 \<le> length argv"
  let ?db = "lag_build (atoi (argv ! 1)) (atoi (argv ! 2)) (cl_lag c)"
  have ok: "lag_db_ok ?db" using lag_build_ok [OF assms] .
  then obtain ls where "lag_print ?db = Inr ls" using lag_print_total by blast
  moreover have "same_clients c (c\<lparr>cl_lag := ?db\<rparr>)" using ok by (intro same_clients_lag)
  ultimately show "completes c (handle_build_lag argv c)"
    using argv by (simp add: handle_build_lag_def argv_at_ok Let_def)
next
  assume argv: "2 \<le> length argv"
  have "\<exists>ls. printMembers g = Inr ls" if "findLag (argv ! 1) (cl_lag c) = Some g" for g
  proof -
    have "\<forall>p \<in> set (lag_interfaces g). \<exists>m. snd p = Some m"
      using lag_ok_find [OF assms that] by (auto simp: lag_ok_def)
    then show ?thesis using member_lines_total [of "lag_interfaces g"] by (auto simp: printMembers_def)
  qed
  then show "completes c (handle_print_lag argv c)"
    using argv by (force simp: handle_print_lag_def argv_at_ok Let_def split: option.split)
qed

lemma set_server_total:
  assumes "registry_ok c" and "2 \<le> length argv"
  shows "completes c (handle_set_server argv c)"
proof -
  define c1 where "c1 = (if argv ! 1 = ''default'' then c\<lparr>cl_server_ip := ''localhost'', cl_server_port := ''50051''\<rparr>
      else let c = c\<lparr>cl_server_ip := argv ! 1\<rparr>
           in if 2 < length argv then c\<lparr>cl_server_port := argv ! 2\<rparr> else c)"
  have s: "same_clients c c1" by (auto simp: c1_def Let_def same_clients_def)
  then have "registry_ok c1" by (rule same_clients_registry [OF _ assms(1)])
  then obtain a where a: "client_find AGENTCLIENT_MGMT c1 = Some a" "deref_client a c1 = Inr (cl_heap c1 a)"
    by (rule mgmt_found)
  have "same_clients c1 (update_client a (\<lambda>x. x\<lparr>ac_stub := server_ip_port c1\<rparr>) c1)"
    by (intro same_clients_update) simp
  then have "same_clients c (update_client a (\<lambda>x. x\<lparr>ac_stub := server_ip_port c1\<rparr>) c1)"
    by (rule same_clients_trans [OF s])
  moreover have "handle_set_server argv c = rehome a c1"
  proof -
    have "handle_set_server argv c =
        (case client_find AGENTCLIENT_MGMT c1 of
           None \<Rightarrow> Inr (say [''This is strange. Didn't find the management client''] c1)
         | Some a \<Rightarrow> rehome a c1)"
      using assms(2) unfolding handle_set_server_def c1_def by (simp only: argv_at_ok Let_def res_bind.simps)
    then show ?thesis using a(1) by simp
  qed
  ultimately show ?thesis using a(2) by (simp add: rehome_def)
qed

lemma unsubscribe_total:
  assumes "registry_ok c" and "2 \<le> length argv"
  shows "answers c (handle_unsubscribe rpc argv (c, e))"
    "answers c (handle_unsubscribe_id rpc argv (c, e))"
proof -
  have argv: "argv_at argv 1 = Inr (argv ! 1)" using assms(2) by (simp add: argv_at_ok)
  show "answers c (handle_unsubscribe rpc argv (c, e))"
  proof (cases "client_find (argv ! 1) c")
    case None
    then show ?thesis using argv by (simp add: handle_unsubscribe_def)
  next
    case (Some a)
    then show ?thesis using argv cancel_total [OF find_live [OF assms(1) Some], of rpc e]
      by (simp add: handle_unsubscribe_def)
  qed
  obtain a where a: "client_find AGENTCLIENT_MGMT c = Some a" "deref_client a c = Inr (cl_heap c a)"
    using mgmt_found [OF assms(1)] by blast
  show "answers c (handle_unsubscribe_id rpc argv (c, e))"
    using argv a(1) cancel_id_total [OF a(2)] by (simp add: handle_unsubscribe_id_def)
qed

lemma queries_total:
  assumes "registry_ok c"
  shows "answers c (handle_list_all rpc (c, e))"
    "answers c (handle_list rpc argv (c, e))"
    "answers c (handle_get_oper_all sd rpc argv (c, e))"
    "answers c (handle_get_oper sd rpc argv (c, e))"
    "answers c (handle_get_oper_mgmt sd rpc argv (c, e))"
proof -
  obtain a where a: "find_mgmt c = Inr a" "deref_client a c = Inr (cl_heap c a)"
    using mgmt_found [OF assms] by blast
  note t = list_total [OF a(2)] operational_query_total [OF a(2)]
  show "answers c (handle_list_all rpc (c, e))"
    "answers c (handle_list rpc argv (c, e))"
    by (simp_all add: handle_list_all_def handle_list_def a(1) t(1))
  show "answers c (handle_get_oper_all sd rpc argv (c, e))"
    "answers c (handle_get_oper sd rpc argv (c, e))"
    "answers c (handle_get_oper_mgmt sd rpc argv (c, e))"
    by (simp_all add: handle_get_oper_all_def handle_get_oper_def handle_get_oper_mgmt_def Let_def a(1) t(2))
qed

lemma run_command_ok:
  assumes "registry_ok c" and "words_needed cmd \<le> length argv"
  shows "command_ok c (run_command sd rpc cmd argv (c, e))"
proof -
  have lag: "lag_db_ok (cl_lag c)" using assms(1) by (simp add: registry_ok_def)
  have b: "command_ok c (res_bind (Inr (begin_subscription n f r s ps t c)) (\<lambda>(r, c). Inr (r, c, e)))" for n f r s ps t
    using command_ok_begin by (simp add: case_prod_beta)
  show ?thesis
  proof (cases cmd)
    case Subscribe_cmd
    then show ?thesis using assms(2) b by (simp add: handle_subscribe_def argv_at_ok)
  next
    case Subscribe_telegraf
    then show ?thesis using assms(2) b by (simp add: handle_subscribe_telegraf_def argv_at_ok)
  next
    case Subscribe_limits
    then show ?thesis using assms(2) b by (simp add: handle_subscribe_limits_def argv_at_ok)
  next
    case Subscribe_n
    then show ?thesis using assms(2) by (simp add: handle_subscribe_multiple_def argv_at_ok command_ok_def)
  next
    case Get_server
    then show ?thesis by (simp add: handle_get_server_def command_ok_def)
  next
    case Set_server
    then show ?thesis using set_server_total [OF assms(1)] assms(2) by (simp add: command_ok_alone)
  next
    case Unsubscribe
    then show ?thesis using assms by (simp add: command_ok_state unsubscribe_total)
  next
    case Unsubscribe_id
    then show ?thesis using assms by (simp add: command_ok_state unsubscribe_total)
  next
    case Print_clients
    then show ?thesis using client_print_total [OF assms(1)] by (auto intro!: command_ok_alone)
  next
    case Build_lag
    then show ?thesis using lag_commands(2) [OF lag] assms(2) by (simp add: command_ok_alone)
  next
    case Clean_lag
    then show ?thesis using lag_commands(1) [OF lag] by (simp add: command_ok_alone)
  next
    case Print_lag
    then show ?thesis using lag_commands(3) [OF lag] assms(2) by (simp add: command_ok_alone)
  qed (simp_all add: command_ok_state queries_total [OF assms(1)])
qed

section \<open>The life of a thread\<close>

inductive_cases client_stepE: "client_step env (c, e, ts) (c', e', ts')"

text \<open>A step leaves a thread where it is or takes it one phase on, with the same client.\<close>

definition next_phase :: "client_phase \<Rightarrow> client_phase option \<Rightarrow> bool" where
  "next_phase ph nx \<longleftrightarrow>
     (case ph of
        Waiting p \<Rightarrow> nx = Some (Ended (pe_client p)) \<or> (\<exists>s. nx = Some (Reading s) \<and> cse_client s = pe_client p)
      | Reading s \<Rightarrow> nx = Some (Ended (cse_client s)) \<or> (\<exists>s'. nx = Some (Reading s') \<and> cse_client s' = cse_client s)
      | Ended a \<Rightarrow> nx = None)"

lemma metadata_client: "client_metadata sp a tg m c = Inr (Some s, c') \<Longrightarrow> cse_client s = a"
  by (cases "deref_client a c"; cases m) (auto simp: client_metadata_def Let_def)

lemma message_client: "client_message sz show d s c = Inr (Some s', c') \<Longrightarrow> cse_client s' = cse_client s"
  by (cases "deref_client (cse_client s) c") (auto simp: client_message_def Let_def split: if_splits)

lemma thread_order:
  assumes "client_step env (c, e, ts) (c', e', ts')" and "ts k = Some ph"
  shows "ts' k = Some ph \<or> next_phase ph (ts' k)"
  using assms
  by (elim client_stepE)
    (auto simp: next_phase_def dest!: metadata_client message_client split: option.splits if_splits)

section \<open>The invariant is kept\<close>

lemma opens_registry:
  assumes reg: "registry_ok c" and o: "opens c p c'"
  shows "registry_ok c'"
proof -
  let ?a = "cl_next c"
  obtain n where n: "smap_find (cl_clients c) n = None" "cl_clients c' = smap_put n ?a (cl_clients c)"
      "ac_name (cl_heap c' ?a) = n"
    using o by (auto simp: opens_def)
  have live: "cl_live c' = (cl_live c)(?a := True)" "\<not> cl_live c ?a"
    and heap: "\<And>a. a \<noteq> ?a \<Longrightarrow> cl_heap c' a = cl_heap c a"
    using o reg by (auto simp: opens_def registry_ok_def)
  have ok: "smap_ok (cl_clients c)" and mg: "AGENTCLIENT_MGMT \<in> dom (smap_find (cl_clients c))"
    using reg by (auto simp: registry_ok_def)
  have find: "smap_find (cl_clients c') = (smap_find (cl_clients c))(n \<mapsto> ?a)"
    using smap_find_put [OF ok] n(2) by simp
  have fresh: "ac_name (cl_heap c a) \<noteq> n" if "cl_live c a" for a
    using reg that n(1) unfolding registry_ok_def by (metis option.distinct(1))
  show ?thesis
    unfolding registry_ok_def
  proof (intro conjI allI)
    fix m a
    show "smap_find (cl_clients c') m = Some a \<longleftrightarrow> cl_live c' a \<and> ac_name (cl_heap c' a) = m"
      using reg fresh live n(3) heap [of a] by (cases "a = ?a") (auto simp: find registry_ok_def)
  next
    fix a
    show "cl_live c' a \<longrightarrow> a < cl_next c'" using reg o by (auto simp: live registry_ok_def opens_def less_Suc_eq)
  next
    show "smap_ok (cl_clients c')" using ok by (simp add: n(2) smap_ok_put)
    show "AGENTCLIENT_MGMT \<in> dom (smap_find (cl_clients c'))" using mg by (simp add: find)
    show "lag_db_ok (cl_lag c')" using o reg by (simp add: opens_def registry_ok_def)
  qed
qed

lemma opens_inv:
  assumes inv: "client_inv c ts" and o: "opens c p c'" and k: "ts k = None"
  shows "client_inv c' (ts(k \<mapsto> Waiting p))"
proof -
  let ?a = "cl_next c"
  have reg: "registry_ok c" using inv by (simp add: client_inv_def)
  obtain n where n: "smap_find (cl_clients c) n = None" "ac_name (cl_heap c' ?a) = n"
    using o by (auto simp: opens_def)
  have p: "pe_client p = ?a" and live: "cl_live c' = (cl_live c)(?a := True)" "\<not> cl_live c ?a"
    and heap: "\<And>a. a \<noteq> ?a \<Longrightarrow> cl_heap c' a = cl_heap c a"
    using o reg by (auto simp: opens_def registry_ok_def)
  have "registry_ok c'" by (rule opens_registry [OF reg o])
  moreover have "n \<noteq> AGENTCLIENT_MGMT" using reg n(1) by (auto simp: registry_ok_def)
  moreover have old: "phase_client ph \<noteq> ?a \<and> cl_live c (phase_client ph) \<and>
      ac_name (cl_heap c (phase_client ph)) \<noteq> AGENTCLIENT_MGMT" if "ts l = Some ph" for l ph
    using inv that live(2) unfolding client_inv_def by metis
  moreover have "l = m" if "ts l = Some ph" "ts m = Some ph'" "phase_client ph = phase_client ph'" for l m ph ph'
    using inv that unfolding client_inv_def by blast
  moreover have "ac_name (cl_heap c' a) = AGENTCLIENT_MGMT \<or>
      (\<exists>l ph. (ts(k \<mapsto> Waiting p)) l = Some ph \<and> phase_client ph = a)" if "cl_live c' a" for a
  proof (cases "a = ?a")
    case False
    then have "ac_name (cl_heap c a) = AGENTCLIENT_MGMT \<or> (\<exists>l ph. ts l = Some ph \<and> phase_client ph = a)"
      using inv that live(1) unfolding client_inv_def by simp
    then show ?thesis using k heap [OF False] by (metis fun_upd_other option.distinct(1))
  qed (use p in auto)
  ultimately show ?thesis using n(2) p live heap
    unfolding client_inv_def by (auto split: if_splits)
qed

text \<open>The end of a thread deletes its client, and the entry it erases is that client's.\<close>

lemma delete_inv:
  assumes inv: "client_inv c ts" and k: "ts k = Some (Ended a)"
  shows "\<exists>c'. client_delete a c = Inr c' \<and> client_inv c' (ts(k := None))"
proof -
  let ?n = "ac_name (cl_heap c a)"
  let ?c = "c\<lparr>cl_clients := smap_erase ?n (cl_clients c), cl_live := (cl_live c)(a := False)\<rparr>"
  have reg: "registry_ok c" using inv by (simp add: client_inv_def)
  have a: "cl_live c a" "?n \<noteq> AGENTCLIENT_MGMT"
    using inv k by (force simp: client_inv_def)+
  have unique: "b = a" if "cl_live c b" "ac_name (cl_heap c b) = ?n" for b
    using reg that a(1) unfolding registry_ok_def by (metis option.inject)
  have mine: "smap_find (cl_clients c) ?n = Some a" using reg a(1) by (simp add: registry_ok_def)
  have "registry_ok ?c"
    unfolding registry_ok_def
  proof (intro conjI allI)
    fix m b
    show "smap_find (cl_clients ?c) m = Some b \<longleftrightarrow> cl_live ?c b \<and> ac_name (cl_heap ?c b) = m"
      using reg unique [of b] a(1) by (auto simp: smap_find_erase registry_ok_def)
  qed (use reg a(2) in \<open>auto simp: registry_ok_def smap_find_erase smap_ok_erase\<close>)
  moreover have other: "phase_client ph \<noteq> a" if "ts l = Some ph" "l \<noteq> k" for l ph
    using inv k that unfolding client_inv_def by (metis phase_client.simps(3))
  moreover have "ac_name (cl_heap c b) = AGENTCLIENT_MGMT \<or>
      (\<exists>l ph. (ts(k := None)) l = Some ph \<and> phase_client ph = b)" if "cl_live c b" "b \<noteq> a" for b
  proof -
    have "ac_name (cl_heap c b) = AGENTCLIENT_MGMT \<or> (\<exists>l ph. ts l = Some ph \<and> phase_client ph = b)"
      using inv that(1) unfolding client_inv_def by blast
    moreover have "l \<noteq> k" if "ts l = Some ph" "phase_client ph = b" for l ph
      using that k \<open>b \<noteq> a\<close> by auto
    ultimately show ?thesis by (metis fun_upd_other)
  qed
  moreover have "cl_live c (phase_client ph) \<and> ac_name (cl_heap c (phase_client ph)) \<noteq> AGENTCLIENT_MGMT"
      if "ts l = Some ph" for l ph
    using inv that unfolding client_inv_def by blast
  moreover have "l = m" if "ts l = Some ph" "ts m = Some ph'" "phase_client ph = phase_client ph'" for l m ph ph'
    using inv that unfolding client_inv_def by blast
  ultimately have "client_inv ?c (ts(k := None))"
    unfolding client_inv_def by (auto split: if_splits)
  then show ?thesis using a(1) by (simp add: client_delete_def deref_client_def)
qed

text \<open>What a thread does before its end answers, and leaves the registry alone.\<close>

lemma metadata_total:
  assumes "cl_live c a"
  shows "\<exists>r c'. client_metadata sp a tg m c = Inr (r, c') \<and> same_clients c c' \<and>
    (\<forall>s. r = Some s \<longrightarrow> cse_client s = a)"
proof (cases m)
  case None
  then show ?thesis using assms by (simp add: client_metadata_def deref_client_def)
next
  case (Some reply)
  have "same_clients c (update_client a (\<lambda>x. x\<lparr>ac_subscription_id_valid := True,
      ac_subscription_id := rep_subscription_id reply\<rparr>) c)"
    by (intro same_clients_update) simp
  then show ?thesis using assms Some by (simp add: client_metadata_def deref_client_def Let_def)
qed

lemma message_total:
  assumes "cl_live c (cse_client s)"
  shows "\<exists>r c'. client_message sz show d s c = Inr (r, c') \<and> same_clients c c' \<and>
    (\<forall>s'. r = Some s' \<longrightarrow> cse_client s' = cse_client s)"
proof -
  have "same_clients c (c\<lparr>cl_lag := lag_updateStats d (cl_lag c)\<rparr>)"
    by (intro same_clients_lag) (simp add: lag_updateStats_def lag_loop_ok)
  then show ?thesis using assms by (simp add: client_message_def deref_client_def Let_def)
qed

lemma stream_end_total: "cl_live c a \<Longrightarrow> \<exists>c'. client_stream_end a c = Inr c' \<and> same_clients c c'"
  by (simp add: client_stream_end_def deref_client_def)

lemma command_ok_started:
  "command_ok c r \<longleftrightarrow> (\<exists>st c' e'. r = Inr (st, c', e') \<and>
     (\<forall>p. st = Session p \<longrightarrow> opens c p c') \<and> ((\<forall>p. st \<noteq> Session p) \<longrightarrow> same_clients c c'))"
  by (auto simp: command_ok_def split: sum.split started.split)

lemma proc_words: "proc_begin argv c = Inr r \<Longrightarrow> 4 \<le> length argv"
  by (simp add: proc_begin_def argv_at_def split: if_splits)

lemma proc_begin_ok:
  assumes "4 \<le> length argv"
  shows "\<exists>st c'. proc_begin argv c = Inr (st, c') \<and>
    ((\<exists>p. st = Session p \<and> opens c p c') \<or> (st = NoSession \<and> same_clients c c'))"
proof -
  let ?n = "argv ! 2 @ string_of_int (cl_some_id c)" and ?c = "c\<lparr>cl_some_id := cl_some_id c + 1\<rparr>"
  have same: "same_clients c c'" if "same_clients ?c c'" for c' using that by (simp add: same_clients_def)
  have open': "opens c p c'" if "opens ?c p c'" for p c' using that by (simp add: opens_def)
  have "proc_begin argv c = Inr (begin_subscription ?n (atoi (argv ! 3)) 0 0 (drop 4 argv) False ?c)"
    using assms by (simp add: proc_begin_def argv_at_ok Let_def)
  then show ?thesis
    using begin_subscription_cases [of ?n "atoi (argv ! 3)" 0 0 "drop 4 argv" False ?c] same open' by auto
qed

theorem client_step_inv: "client_step env s s' \<Longrightarrow> (case s of (c, e, ts) \<Rightarrow> client_inv c ts) \<Longrightarrow>
  (case s' of (c, e, ts) \<Rightarrow> client_inv c ts)"
proof (induction rule: client_step.induct)
  case (command cmd argv c e r c' e' ts)
  then have "command_ok c (Inr (r, c', e'))"
    using run_command_ok [of c cmd argv "ce_double env" "ce_rpc env" e] by (simp add: client_inv_def)
  then have "same_clients c c'" using command(3) by (simp add: command_ok_started)
  then show ?case using command by (simp add: same_clients_inv)
next
  case (subscribe cmd argv c e p c' e' ts k)
  then have "command_ok c (Inr (Session p, c', e'))"
    using run_command_ok [of c cmd argv "ce_double env" "ce_rpc env" e] by (simp add: client_inv_def)
  then show ?case using subscribe opens_inv by (simp add: command_ok_def)
next
  case (proc argv c p c' ts k e)
  then have "opens c p c'" using proc_begin_ok [OF proc_words [OF proc(1)], of c] by auto
  then show ?case using proc opens_inv by simp
next
  case (proc_taken argv c c' e ts)
  then have "same_clients c c'" using proc_begin_ok [OF proc_words [OF proc_taken(1)], of c] by auto
  then show ?case using proc_taken same_clients_inv by simp
next
  case (reset c e ts)
  then show ?case using same_clients_inv [of c "reset_some_id c"] by simp
next
  case (metadata ts k p m c r c' e)
  then have "cl_live c (pe_client p)" by (force simp: client_inv_def)
  then have s: "same_clients c c'" "\<forall>s. r = Some s \<longrightarrow> cse_client s = pe_client p"
    using metadata_total [of c "pe_client p" "ce_path env" "pe_telegraf p" m] metadata(2) by auto
  then have "client_inv c' ts" using metadata(3) same_clients_inv by simp
  then show ?case using client_inv_phase metadata(1) s(2) by (simp split: option.split)
next
  case (message ts k s d c s' c' e)
  then have "cl_live c (cse_client s)" by (force simp: client_inv_def)
  then have s: "same_clients c c'" "cse_client s' = cse_client s"
    using message_total [of c s "ce_size env" "ce_show env" d] message(2) by auto
  then have "client_inv c' ts" using message(3) same_clients_inv by simp
  then show ?case using client_inv_phase message(1) s(2) by simp
next
  case (stream_end ts k s c c' e)
  then have "cl_live c (cse_client s)" by (force simp: client_inv_def)
  then have "same_clients c c'" using stream_end_total [of c "cse_client s"] stream_end(2) by auto
  then have "client_inv c' ts" using stream_end(3) same_clients_inv by simp
  then show ?case using client_inv_phase stream_end(1) by simp
next
  case (delete ts k a c c' e)
  then show ?case using delete_inv by fastforce
qed

lemma client_start_inv:
  assumes "client_main rootpath is_directory args = Inr (Inr c)"
  shows "client_inv c (\<lambda>_. None)"
proof -
  obtain d where c: "c = snd (create_named AGENTCLIENT_MGMT (new_client_state d))"
    using assms
    by (cases "client_log_dir rootpath args") (auto simp: client_main_def split: option.splits if_splits)
  show ?thesis
    by (auto simp: c create_named_def client_create_def new_client_state_def new_agent_client_def Let_def
        client_inv_def registry_ok_def smap_find_def lag_db_ok_def smap_ok_Cons split: if_splits)
qed

theorem client_reachable_inv: "client_reachable env s \<Longrightarrow> (case s of (c, e, ts) \<Rightarrow> client_inv c ts)"
proof (induction rule: client_reachable.induct)
  case (start rootpath is_directory args c e)
  then show ?case by (simp add: client_start_inv)
next
  case (step s s')
  then show ?case using client_step_inv by blast
qed

text \<open>Every thread can go on.\<close>

lemma thread_goes_on:
  assumes inv: "client_inv c ts" and k: "ts k = Some ph"
  shows "case ph of
      Waiting p \<Rightarrow> \<forall>m. \<exists>r c'. client_metadata sp (pe_client p) (pe_telegraf p) m c = Inr (r, c')
    | Reading s \<Rightarrow> (\<forall>d. \<exists>r c'. client_message sz show d s c = Inr (r, c')) \<and>
        (\<exists>c'. client_stream_end (cse_client s) c = Inr c')
    | Ended a \<Rightarrow> \<exists>c'. client_delete a c = Inr c' \<and> client_find (ac_name (cl_heap c a)) c = Some a \<and>
        client_find (ac_name (cl_heap c a)) c' = None"
proof -
  have live: "cl_live c (phase_client ph)" using inv k by (simp add: client_inv_def)
  show ?thesis
  proof (cases ph)
    case (Waiting p)
    then show ?thesis using live metadata_total by fastforce
  next
    case (Reading s)
    then show ?thesis using live message_total stream_end_total by fastforce
  next
    case (Ended a)
    moreover have "smap_find (cl_clients c) (ac_name (cl_heap c a)) = Some a"
      using inv live Ended by (simp add: client_inv_def registry_ok_def)
    ultimately show ?thesis using live
      by (simp add: client_delete_def deref_client_def client_find_def smap_find_erase)
  qed
qed

text \<open>Every line the table accepts runs, whatever the other threads have done.\<close>

lemma command_runs:
  assumes "client_inv c ts" and "execute new_grammar argv = Inr (ls, tds)" and "(cmd, ws) \<in> set tds"
  shows "\<exists>r c' e'. run_command sd rpc cmd ws (c, e) = Inr (r, c', e') \<and> registry_ok c'"
proof -
  have reg: "registry_ok c" using assms(1) by (simp add: client_inv_def)
  then have "command_ok c (run_command sd rpc cmd ws (c, e))"
    using execute_words [OF assms(2,3)] by (rule run_command_ok)
  then obtain st c' e' where r: "run_command sd rpc cmd ws (c, e) = Inr (st, c', e')"
    "\<forall>p. st = Session p \<longrightarrow> opens c p c'" "(\<forall>p. st \<noteq> Session p) \<longrightarrow> same_clients c c'"
    unfolding command_ok_started by blast
  have "registry_ok c'"
  proof (cases "\<exists>p. st = Session p")
    case True
    then obtain p where "opens c p c'" using r(2) by blast
    then show ?thesis by (rule opens_registry [OF reg])
  next
    case False
    then show ?thesis using r(3) reg same_clients_registry by blast
  qed
  then show ?thesis using r(1) by blast
qed

text \<open>
  Between the test of the name and the creation another command can run, since only the
  creation holds the lock: with two clients of one name the first deletion takes away the
  other's entry.
\<close>

lemma creation_race:
  assumes "registry_ok c" and "client_find n c = None"
    and "create_named n c = (a, c1)" and "create_named n c1 = (b, c2)"
  shows "client_find n c2 = Some b" "a \<noteq> b"
    "\<exists>c3. client_delete a c2 = Inr c3 \<and> client_find n c3 = None \<and> deref_client b c3 = Inr (cl_heap c2 b) \<and>
      ac_name (cl_heap c2 b) = n"
proof -
  have ok: "smap_ok (cl_clients c)" using assms(1) by (simp add: registry_ok_def)
  have find: "smap_find (cl_clients c2) = (smap_find (cl_clients c))(n \<mapsto> cl_next c, n \<mapsto> Suc (cl_next c))"
    and ids: "a = cl_next c" "b = Suc (cl_next c)"
    and heap: "ac_name (cl_heap c2 a) = n" "ac_name (cl_heap c2 b) = n" "cl_live c2 a" "cl_live c2 b"
    using assms(3,4) ok
    by (auto simp: create_named_def client_create_def Let_def new_agent_client_def smap_find_put smap_ok_put)
  show "client_find n c2 = Some b" "a \<noteq> b" using find ids by (simp_all add: client_find_def)
  show "\<exists>c3. client_delete a c2 = Inr c3 \<and> client_find n c3 = None \<and> deref_client b c3 = Inr (cl_heap c2 b) \<and>
      ac_name (cl_heap c2 b) = n"
    using heap ids by (simp add: client_delete_def deref_client_def client_find_def smap_find_erase)
qed

section \<open>An example\<close>

definition example_rpc :: "unit client_rpc" where
  "example_rpc = \<lparr>rpc_cancel = (\<lambda>stub i e. (None, e)), rpc_list = (\<lambda>stub i e. (None, e)),
     rpc_operational = (\<lambda>stub i v e. (None, e))\<rparr>"

definition example_client_env :: "unit client_env" where
  "example_client_env = \<lparr>ce_rpc = example_rpc, ce_double = (\<lambda>_. []), ce_path = p_path,
     ce_size = (\<lambda>_. 0), ce_show = (\<lambda>_. [])\<rparr>"

definition example_client :: client_state where
  "example_client = snd (create_named AGENTCLIENT_MGMT (new_client_state ''logs/''))"

lemma example_client_start: "client_reachable env (example_client, e, \<lambda>_. None)"
  by (rule client_reachable.start [of None "\<lambda>_. True" "[''logs'']"])
    (simp add: client_main_def client_log_dir_def example_client_def)

lemma example_client_registry: "registry_ok example_client"
  using client_reachable_inv [OF example_client_start [of undefined undefined]] by (simp add: client_inv_def)

lemma example_client_find: "client_find ''s'' example_client = None"
  by (simp add: example_client_def create_named_def client_create_def client_find_def new_client_state_def
      AGENTCLIENT_MGMT_def Let_def smap_find_def)

lemma example_waiting:
  obtains c p where "client_reachable example_client_env (c, (), [0 \<mapsto> Waiting p])"
proof -
  let ?argv = "[''subscribe'', ''s'', ''10'', ''/a'']"
  obtain p c where r: "begin_subscription ''s'' (atoi ''10'') 0 0 [''/a''] False example_client = (Session p, c)"
    using example_client_find by (simp add: begin_subscription_def case_prod_beta)
  have "client_step example_client_env (example_client, (), \<lambda>_. None) (c, (), (\<lambda>_. None)(0 \<mapsto> Waiting p))"
  proof (rule client_step.subscribe [of Subscribe_cmd ?argv])
    show "run_command (ce_double example_client_env) (ce_rpc example_client_env) Subscribe_cmd ?argv (example_client, ()) =
        Inr (Session p, c, ())"
      using r by (simp add: handle_subscribe_def argv_at_def)
  qed simp_all
  then show thesis by (intro that client_reachable.step [OF example_client_start])
qed

end
