(* ===== verification/IdManager.thy ===== *)
theory IdManager
  imports Prelude
begin

text \<open>
  The identifier allocator (AgentServerIdManager.hpp): a bit set of allocated positions and
  the bounds of the space. \<open>std::bitset::test\<close>, \<open>set\<close> and \<open>reset\<close> throw on positions beyond
  the set. The locale \<open>id_pool\<close> is the contract the server and the consolidator rely on; the
  interpretation at the end discharges it for this allocator.
\<close>

section \<open>State\<close>

record id_manager =
  id_space :: "bool list"
  MIN_ID_SPACE_SIZE :: nat
  MAX_ID_SPACE_SIZE :: nat

definition SUBSCRIPTION_ID_SPACE_SIZE :: nat where
  "SUBSCRIPTION_ID_SPACE_SIZE = 64"

definition INTERNAL_SUBSCRIPTION_ID_SPACE_SIZE :: nat where
  "INTERNAL_SUBSCRIPTION_ID_SPACE_SIZE = 8196"

definition INTERNAL_SUBSCRIPTION_ID_SPACE_MIN :: nat where
  "INTERNAL_SUBSCRIPTION_ID_SPACE_MIN = 1000"

text \<open>The constructor, for a bit set of \<open>n\<close> positions.\<close>

definition new_id_manager :: "nat \<Rightarrow> u32 \<Rightarrow> id_manager" where
  "new_id_manager n min_id =
     \<lparr>id_space = replicate n False, MIN_ID_SPACE_SIZE = unat min_id, MAX_ID_SPACE_SIZE = n\<rparr>"

section \<open>Bit set access\<close>

definition bitset_test :: "bool list \<Rightarrow> nat \<Rightarrow> bool res" where
  "bitset_test bs i = (if i < length bs then Inr (bs ! i) else Inl OutOfRange)"

definition bitset_put :: "bool list \<Rightarrow> nat \<Rightarrow> bool \<Rightarrow> bool list res" where
  "bitset_put bs i v = (if i < length bs then Inr (bs[i := v]) else Inl OutOfRange)"

definition bitset_count :: "bool list \<Rightarrow> nat" where
  "bitset_count bs = length (filter id bs)"

section \<open>Operations\<close>

definition getSize :: "id_manager \<Rightarrow> nat" where
  "getSize m = size_sub (MAX_ID_SPACE_SIZE m) (MIN_ID_SPACE_SIZE m)"

definition getBounds :: "id_manager \<Rightarrow> nat \<times> nat" where
  "getBounds m = (MIN_ID_SPACE_SIZE m, size_sub (MAX_ID_SPACE_SIZE m) 1)"

definition id_present :: "u32 \<Rightarrow> id_manager \<Rightarrow> bool res" where
  "id_present pos m = bitset_test (id_space m) (unat pos)"

definition id_count :: "id_manager \<Rightarrow> nat" where
  "id_count m = bitset_count (id_space m)"

definition freeCount :: "id_manager \<Rightarrow> nat" where
  "freeCount m = size_sub (getSize m) (id_count m)"

definition getNullIdentifier :: u32 where
  "getNullIdentifier = 0"

text \<open>The scan of \<open>allocate\<close>: the first clear position in the bounds, if any.\<close>

function scan_free :: "bool list \<Rightarrow> nat \<Rightarrow> nat \<Rightarrow> nat option res" where
  "scan_free bs i e =
     (if i \<le> e then
        res_bind (bitset_test bs i) (\<lambda>b. if \<not> b then Inr (Some i) else scan_free bs (Suc i) e)
      else Inr None)"
  by pat_completeness auto
termination
  by (relation "measure (\<lambda>(bs, i, e). length bs - i)") (auto simp: bitset_test_def split: if_splits)

declare scan_free.simps [simp del]

definition allocate :: "id_manager \<Rightarrow> (u32 \<times> id_manager) res" where
  "allocate m =
     (let (start, end_pos) = getBounds m
      in res_bind (scan_free (id_space m) start end_pos) (\<lambda>found.
         case found of
           None \<Rightarrow> Inr (getNullIdentifier, m)
         | Some i \<Rightarrow> res_bind (bitset_put (id_space m) i True) (\<lambda>bs.
             Inr (of_nat i, m\<lparr>id_space := bs\<rparr>))))"

text \<open>
  \<open>deallocate(id, &bad)\<close>: the flag says whether the position was clear. Without the second
  argument the test is skipped, and only \<open>reset\<close> can throw; the outcome is the same.
\<close>

definition deallocate :: "u32 \<Rightarrow> id_manager \<Rightarrow> (bool \<times> id_manager) res" where
  "deallocate i m =
     res_bind (bitset_test (id_space m) (unat i)) (\<lambda>b.
     res_bind (bitset_put (id_space m) (unat i) False) (\<lambda>bs.
       Inr (\<not> b, m\<lparr>id_space := bs\<rparr>)))"

text \<open>\<open>description\<close>: the printed identifiers.\<close>

definition id_description :: "id_manager \<Rightarrow> u32 list res" where
  "id_description m =
     (let (start, end_pos) = getBounds m
      in if end_pos < length (id_space m)
         then Inr (map of_nat (filter (\<lambda>i. id_space m ! i) [start..<Suc end_pos]))
         else Inl OutOfRange)"

section \<open>Invariant and allocated set\<close>

definition id_ok :: "id_manager \<Rightarrow> bool" where
  "id_ok m \<longleftrightarrow> MAX_ID_SPACE_SIZE m = length (id_space m)
     \<and> 0 < MIN_ID_SPACE_SIZE m \<and> MIN_ID_SPACE_SIZE m < MAX_ID_SPACE_SIZE m
     \<and> MAX_ID_SPACE_SIZE m < 2 ^ 32
     \<and> (\<forall>i < MIN_ID_SPACE_SIZE m. \<not> id_space m ! i)"

definition live_ids :: "id_manager \<Rightarrow> u32 set" where
  "live_ids m = {w. unat w < length (id_space m) \<and> id_space m ! unat w}"

lemma id_ok_new:
  "0 < min_id \<Longrightarrow> unat min_id < n \<Longrightarrow> n < 2 ^ 32 \<Longrightarrow> id_ok (new_id_manager n min_id)"
  by (auto simp: id_ok_def new_id_manager_def word_less_nat_alt)

lemma live_ids_new [simp]: "live_ids (new_id_manager n min_id) = {}"
  by (auto simp: live_ids_def new_id_manager_def)

lemma getBounds_ok: "id_ok m \<Longrightarrow> getBounds m = (MIN_ID_SPACE_SIZE m, length (id_space m) - 1)"
  by (simp add: getBounds_def id_ok_def)

lemma scan_free_spec:
  "e < length bs \<Longrightarrow>
   (case scan_free bs i e of
      Inl _ \<Rightarrow> False
    | Inr None \<Rightarrow> \<forall>j. i \<le> j \<and> j \<le> e \<longrightarrow> bs ! j
    | Inr (Some j) \<Rightarrow> i \<le> j \<and> j \<le> e \<and> \<not> bs ! j \<and> (\<forall>k. i \<le> k \<and> k < j \<longrightarrow> bs ! k))"
proof (induction bs i e rule: scan_free.induct)
  case (1 bs i e)
  show ?case
  proof (cases "i \<le> e \<and> bs ! i")
    case True
    then have "bitset_test bs i = Inr True" using "1.prems" by (simp add: bitset_test_def)
    then have eq: "scan_free bs i e = scan_free bs (Suc i) e" and
      IH: "case scan_free bs (Suc i) e of
          Inl _ \<Rightarrow> False
        | Inr None \<Rightarrow> \<forall>j. Suc i \<le> j \<and> j \<le> e \<longrightarrow> bs ! j
        | Inr (Some j) \<Rightarrow> Suc i \<le> j \<and> j \<le> e \<and> \<not> bs ! j \<and> (\<forall>k. Suc i \<le> k \<and> k < j \<longrightarrow> bs ! k)"
      using True "1.IH" "1.prems" by (auto simp: scan_free.simps [of bs i e])
    have step: "k = i \<or> Suc i \<le> k" if "i \<le> k" for k using that by linarith
    show ?thesis
      using IH step True unfolding eq
      by (auto split: sum.splits option.splits)
  next
    case False
    then show ?thesis
      using "1.prems" by (auto simp: scan_free.simps [of bs i e] bitset_test_def)
  qed
qed

lemma allocate_cases:
  assumes "id_ok m"
  obtains (full) "allocate m = Inr (0, m)"
      and "\<forall>j. MIN_ID_SPACE_SIZE m \<le> j \<and> j < length (id_space m) \<longrightarrow> id_space m ! j"
    | (fresh) i where "allocate m = Inr (of_nat i, m\<lparr>id_space := (id_space m)[i := True]\<rparr>)"
      and "MIN_ID_SPACE_SIZE m \<le> i" and "i < length (id_space m)" and "\<not> id_space m ! i"
      and "\<forall>k. MIN_ID_SPACE_SIZE m \<le> k \<and> k < i \<longrightarrow> id_space m ! k"
proof -
  let ?n = "length (id_space m)"
  have n: "?n - 1 < ?n" using assms by (auto simp: id_ok_def)
  show ?thesis
  proof (cases "scan_free (id_space m) (MIN_ID_SPACE_SIZE m) (?n - 1)")
    case (Inl e)
    with scan_free_spec [OF n, of "MIN_ID_SPACE_SIZE m"] show ?thesis by simp
  next
    case (Inr r)
    show ?thesis
    proof (cases r)
      case None
      with Inr scan_free_spec [OF n, of "MIN_ID_SPACE_SIZE m"] show ?thesis
        using assms by (intro full) (auto simp: allocate_def getBounds_ok getNullIdentifier_def)
    next
      case (Some i)
      with Inr scan_free_spec [OF n, of "MIN_ID_SPACE_SIZE m"] n show ?thesis
        using assms
        by (intro fresh [of i]) (auto simp: allocate_def getBounds_ok bitset_put_def)
    qed
  qed
qed

lemma live_ids_set:
  "i < length (id_space m) \<Longrightarrow> length (id_space m) < 2 ^ 32 \<Longrightarrow>
   live_ids (m\<lparr>id_space := (id_space m)[i := True]\<rparr>) = insert (of_nat i) (live_ids m)"
  by (auto simp: live_ids_def nth_list_update split: if_splits)

lemma live_ids_clear:
  "live_ids (m\<lparr>id_space := (id_space m)[unat i := False]\<rparr>) = live_ids m - {i}"
proof (rule set_eqI)
  fix w
  show "w \<in> live_ids (m\<lparr>id_space := (id_space m)[unat i := False]\<rparr>) \<longleftrightarrow> w \<in> live_ids m - {i}"
  proof (cases "w = i")
    case False
    then have "unat i \<noteq> unat w" by (simp add: word_unat_eq_iff)
    with False show ?thesis by (simp add: live_ids_def)
  qed (simp add: live_ids_def)
qed

lemma allocate_ok:
  assumes "id_ok m" and "allocate m = Inr (i, m')"
  shows "id_ok m' \<and> i \<notin> live_ids m \<and> live_ids m' = (if i = 0 then live_ids m else insert i (live_ids m))"
  using assms(1)
proof (cases rule: allocate_cases)
  case full
  then show ?thesis using assms by (auto simp: id_ok_def live_ids_def)
next
  case (fresh j)
  have j: "0 < j" "j < 2 ^ 32" using fresh assms(1) by (auto simp: id_ok_def)
  have i: "i = of_nat j" "m' = m\<lparr>id_space := (id_space m)[j := True]\<rparr>"
    using fresh(1) assms(2) by auto
  have "i \<noteq> 0" using i j by (simp add: of_nat32_eq_0)
  moreover have "i \<notin> live_ids m" using fresh(4) i j by (auto simp: live_ids_def)
  moreover have "live_ids m' = insert i (live_ids m)"
    using fresh(3) i assms(1) by (simp add: live_ids_set id_ok_def)
  moreover have "id_ok m'" using assms(1) fresh(2) i by (auto simp: id_ok_def nth_list_update)
  ultimately show ?thesis by simp
qed

lemma allocate_total: "id_ok m \<Longrightarrow> \<exists>i m'. allocate m = Inr (i, m')"
  by (erule allocate_cases) auto

lemma finite_live_ids [simp]: "finite (live_ids m)"
  by (rule finite_subset [of _ UNIV]) auto

lemma allocate_0_iff:
  assumes "id_ok m" and "allocate m = Inr (i, m')"
  shows "i = 0 \<longleftrightarrow> (\<forall>j. MIN_ID_SPACE_SIZE m \<le> j \<and> j < length (id_space m) \<longrightarrow> id_space m ! j)"
  using assms(1)
proof (cases rule: allocate_cases)
  case full
  then show ?thesis using assms(2) by simp
next
  case (fresh j)
  then show ?thesis
    using assms by (auto simp: id_ok_def of_nat32_eq_0)
qed

lemma allocate_full:
  assumes "id_ok m" and "allocate m = Inr (0, m')"
  shows "m' = m"
  using assms(1)
proof (cases rule: allocate_cases)
  case full
  then show ?thesis using assms(2) by simp
next
  case (fresh j)
  then have "j = 0" using assms of_nat32_eq_0 [of j] by (auto simp: id_ok_def)
  then show ?thesis using fresh(2) assms(1) by (simp add: id_ok_def)
qed

lemma deallocate_ok:
  assumes "id_ok m" and "unat i < length (id_space m)"
  shows "\<exists>m'. deallocate i m = Inr (i \<notin> live_ids m, m') \<and> id_ok m' \<and> live_ids m' = live_ids m - {i}"
proof -
  let ?m' = "m\<lparr>id_space := (id_space m)[unat i := False]\<rparr>"
  have "deallocate i m = Inr (i \<notin> live_ids m, ?m')"
    using assms(2) by (simp add: deallocate_def bitset_test_def bitset_put_def live_ids_def)
  moreover have "id_ok ?m'"
    using assms by (simp add: id_ok_def nth_list_update)
  ultimately show ?thesis using live_ids_clear by blast
qed

lemma live_ids_bound: "i \<in> live_ids m \<Longrightarrow> unat i < length (id_space m)"
  by (simp add: live_ids_def)

lemma zero_not_live: "id_ok m \<Longrightarrow> 0 \<notin> live_ids m"
  by (auto simp: id_ok_def live_ids_def)

lemma live_ids_bounds:
  "id_ok m \<Longrightarrow> i \<in> live_ids m \<Longrightarrow> MIN_ID_SPACE_SIZE m \<le> unat i \<and> unat i < MAX_ID_SPACE_SIZE m"
  by (cases "unat i < MIN_ID_SPACE_SIZE m") (simp_all add: id_ok_def live_ids_def)

lemma id_count_card: "id_ok m \<Longrightarrow> id_count m = card (live_ids m)"
proof -
  assume ok: "id_ok m"
  have "live_ids m = of_nat ` {i. i < length (id_space m) \<and> id_space m ! i}"
  proof (intro set_eqI iffI)
    fix w assume "w \<in> live_ids m"
    then show "w \<in> of_nat ` {i. i < length (id_space m) \<and> id_space m ! i}"
      by (intro image_eqI [of _ _ "unat w"]) (auto simp: live_ids_def)
  qed (use ok in \<open>auto simp: live_ids_def id_ok_def\<close>)
  moreover have "inj_on (of_nat :: nat \<Rightarrow> u32) {i. i < length (id_space m) \<and> id_space m ! i}"
    by (rule inj_on_inverseI [of _ unat]) (use ok in \<open>auto simp: id_ok_def\<close>)
  ultimately have "card (live_ids m) = card {i. i < length (id_space m) \<and> id_space m ! i}"
    by (simp only: card_image)
  then show ?thesis
    unfolding id_count_def bitset_count_def length_filter_conv_card id_apply by (rule sym)
qed

section \<open>The contract\<close>

locale id_pool =
  fixes alloc :: "'m \<Rightarrow> (u32 \<times> 'm) res"
    and dealloc :: "u32 \<Rightarrow> 'm \<Rightarrow> (bool \<times> 'm) res"
    and live :: "'m \<Rightarrow> u32 set"
    and ok :: "'m \<Rightarrow> bool"
  assumes alloc_total: "ok m \<Longrightarrow> \<exists>i m'. alloc m = Inr (i, m')"
    and alloc_step: "ok m \<Longrightarrow> alloc m = Inr (i, m') \<Longrightarrow>
          ok m' \<and> i \<notin> live m \<and> live m' = (if i = 0 then live m else insert i (live m))"
    and dealloc_step: "ok m \<Longrightarrow> i \<in> insert 0 (live m) \<Longrightarrow>
          \<exists>m'. dealloc i m = Inr (i \<notin> live m, m') \<and> ok m' \<and> live m' = live m - {i}"
    and null_not_live: "ok m \<Longrightarrow> 0 \<notin> live m"
begin

lemma alloc_dealloc:
  assumes "ok m" and "alloc m = Inr (i, m')"
  shows "\<exists>m''. dealloc i m' = Inr (i = 0, m'') \<and> ok m'' \<and> live m'' = live m"
proof -
  have m': "ok m'" "i \<notin> live m" "live m' = (if i = 0 then live m else insert i (live m))"
    using alloc_step [OF assms] by auto
  then have mem: "i \<in> insert 0 (live m')" by auto
  obtain m'' where "dealloc i m' = Inr (i \<notin> live m', m'')" "ok m''" "live m'' = live m' - {i}"
    using dealloc_step [OF m'(1) mem] by blast
  moreover have "i \<notin> live m' \<longleftrightarrow> i = 0" using m' null_not_live [OF assms(1)] by auto
  moreover have "live m' - {i} = live m" using m' null_not_live [OF assms(1)] by auto
  ultimately show ?thesis by auto
qed

text \<open>Identifiers handed out in a row are pairwise different, until the pool answers 0.\<close>

fun alloc_n :: "nat \<Rightarrow> 'm \<Rightarrow> (u32 list \<times> 'm) res" where
  "alloc_n 0 m = Inr ([], m)"
| "alloc_n (Suc n) m = res_bind (alloc m) (\<lambda>(i, m1).
     res_bind (alloc_n n m1) (\<lambda>(is, m2). Inr (i # is, m2)))"

lemma alloc_n_distinct:
  "ok m \<Longrightarrow> alloc_n n m = Inr (is, m') \<Longrightarrow> 0 \<notin> set is \<Longrightarrow>
   distinct is \<and> set is \<inter> live m = {} \<and> live m' = set is \<union> live m \<and> ok m'"
proof (induction n arbitrary: m "is")
  case (Suc n)
  from Suc.prems(2) obtain i m1 is' where a: "alloc m = Inr (i, m1)" and
    b: "alloc_n n m1 = Inr (is', m')" and "is": "is = i # is'"
    by (fastforce simp: res_bind_Inr_iff)
  have i: "i \<noteq> 0" using Suc.prems(3) "is" by auto
  have m1: "ok m1" "i \<notin> live m" "live m1 = insert i (live m)"
    using alloc_step [OF Suc.prems(1) a] i by auto
  show ?case
    using Suc.IH [OF m1(1) b] Suc.prems(3) m1 "is" by auto
qed simp

end

interpretation ids: id_pool allocate deallocate live_ids id_ok
proof
  fix m :: id_manager and i :: u32
  assume ok: "id_ok m" and i: "i \<in> insert 0 (live_ids m)"
  then have "unat i < length (id_space m)"
    by (auto simp: live_ids_bound id_ok_def)
  then show "\<exists>m'. deallocate i m = Inr (i \<notin> live_ids m, m') \<and> id_ok m' \<and> live_ids m' = live_ids m - {i}"
    by (rule deallocate_ok [OF ok])
qed (auto simp: allocate_total zero_not_live dest: allocate_ok)

end
