(* ===== verification/ConsolidatorSystem.thy ===== *)
theory ConsolidatorSystem
  imports StdMap IdManager AgentSystem
begin

text \<open>
  Reference-counted system handles (AgentConsolidatorSystem.hpp, AgentConsolidatorSystem.cpp).
  Several subscriptions may ask for the same path; the first one provisions it on the system,
  the last one to leave removes it. Handles are shared objects (\<open>std::shared_ptr\<close>), so they
  live in a store and are named by addresses; \<open>sysdb\<close> maps the printed request path to the
  address of its handle.
\<close>

section \<open>State\<close>

record system_handle =
  h_path :: path_msg
  h_internal_subscription_id :: u32
  h_refcount :: u64

type_synonym addr = nat

record 'b consys =
  cs_system :: "'b agent_system"
  cs_InternalIdGenerator :: id_manager
  cs_sysdb :: "(string, addr) smap"
  cs_heap :: "addr \<Rightarrow> system_handle"
  cs_next :: addr

definition new_system_handle :: system_handle where
  "new_system_handle = \<lparr>h_path = path_cleared, h_internal_subscription_id = 0, h_refcount = 0\<rparr>"

definition new_consys :: "'b agent_system \<Rightarrow> 'b consys" where
  "new_consys s = \<lparr>cs_system = s,
     cs_InternalIdGenerator =
       new_id_manager INTERNAL_SUBSCRIPTION_ID_SPACE_SIZE (of_nat INTERNAL_SUBSCRIPTION_ID_SPACE_MIN),
     cs_sysdb = [], cs_heap = (\<lambda>_. new_system_handle), cs_next = 0\<rparr>"

definition cs_log :: "string \<Rightarrow> ('b, 'x) consys_scheme \<Rightarrow> ('b, 'x) consys_scheme" where
  "cs_log m c = c\<lparr>cs_system := sys_log m (cs_system c)\<rparr>"

definition set_handle ::
    "addr \<Rightarrow> system_handle \<Rightarrow> ('b, 'x) consys_scheme \<Rightarrow> ('b, 'x) consys_scheme" where
  "set_handle a h c = c\<lparr>cs_heap := (cs_heap c)(a := h)\<rparr>"

definition decRef :: "addr \<Rightarrow> ('b, 'x) consys_scheme \<Rightarrow> ('b, 'x) consys_scheme" where
  "decRef a c = set_handle a ((cs_heap c a)\<lparr>h_refcount := h_refcount (cs_heap c a) - 1\<rparr>) c"

definition incRef :: "addr \<Rightarrow> ('b, 'x) consys_scheme \<Rightarrow> ('b, 'x) consys_scheme" where
  "incRef a c = set_handle a ((cs_heap c a)\<lparr>h_refcount := h_refcount (cs_heap c a) + 1\<rparr>) c"

section \<open>Operations on the data base\<close>

definition handle_find ::
    "(path_msg \<Rightarrow> string) \<Rightarrow> path_msg \<Rightarrow> ('b, 'x) consys_scheme \<Rightarrow> addr option" where
  "handle_find sp request_path c = smap_find (cs_sysdb c) (sp request_path)"

definition handle_insert ::
    "(path_msg \<Rightarrow> string) \<Rightarrow> 'b system_ops \<Rightarrow> path_msg \<Rightarrow> addr \<Rightarrow>
     ('b, 'x) consys_scheme \<Rightarrow> bool \<times> ('b, 'x) consys_scheme" where
  "handle_insert sp ops request_path a c =
     (let request_path_str = sp request_path;
          c = c\<lparr>cs_sysdb := smap_put request_path_str a (cs_sysdb c)\<rparr>;
          (result, s) = op_systemAdd ops (unat (h_internal_subscription_id (cs_heap c a)))
                          request_path (cs_system c);
          c = c\<lparr>cs_system := s\<rparr>
      in if \<not> result then
           let c = cs_log (''System add failed for '' @ request_path_str) c
           in (False, c\<lparr>cs_sysdb := smap_erase request_path_str (cs_sysdb c)\<rparr>)
         else (True, cs_log (''Inserted '' @ request_path_str) c))"

definition handle_remove ::
    "(path_msg \<Rightarrow> string) \<Rightarrow> 'b system_ops \<Rightarrow> path_msg \<Rightarrow>
     ('b, 'x) consys_scheme \<Rightarrow> (bool \<times> ('b, 'x) consys_scheme) res" where
  "handle_remove sp ops request_path c =
     (let request_path_str = sp request_path
      in case smap_find (cs_sysdb c) request_path_str of
           None \<Rightarrow> Inr (False, cs_log (''Remove could not find: '' @ request_path_str) c)
         | Some a \<Rightarrow>
             (let i_s_id = h_internal_subscription_id (cs_heap c a);
                  (result, s) = op_systemRemove ops (unat i_s_id) request_path (cs_system c);
                  c = c\<lparr>cs_system := s\<rparr>;
                  c = (if \<not> result then cs_log (''System remove failed for '' @ request_path_str) c
                       else c);
                  c = cs_log (''Deleted Internal Id = '' @ string_of_u32 i_s_id) c
              in res_bind (deallocate i_s_id (cs_InternalIdGenerator c)) (\<lambda>(bad, ids).
                   let c = c\<lparr>cs_InternalIdGenerator := ids,
                             cs_sysdb := smap_erase request_path_str (cs_sysdb c)\<rparr>
                   in Inr (result, cs_log (''Removed '' @ request_path_str) c))))"

definition handle_getCount :: "('b, 'x) consys_scheme \<Rightarrow> u32" where
  "handle_getCount c = of_nat (length (cs_sysdb c))"

section \<open>Object lifecycle\<close>

text \<open>
  \<open>create\<close>: the shared handle of the path, or a new one; \<open>None\<close> is a null pointer. The answer
  of the id generator is not checked: when it is exhausted the handle carries id 0.
\<close>

definition handle_create ::
    "(path_msg \<Rightarrow> string) \<Rightarrow> 'b system_ops \<Rightarrow> path_msg \<Rightarrow>
     ('b, 'x) consys_scheme \<Rightarrow> (addr option \<times> ('b, 'x) consys_scheme) res" where
  "handle_create sp ops request_path c =
     (case handle_find sp request_path c of
        Some a \<Rightarrow>
          (let c = incRef a c
           in Inr (Some a, cs_log (''ConsolidatorSystemHandle already exist ('' @
                 string_of_u32 (h_internal_subscription_id (cs_heap c a)) @ ''): '' @
                 sp request_path) c))
      | None \<Rightarrow>
          (let a = cs_next c;
               c = c\<lparr>cs_next := Suc a\<rparr>;
               c = set_handle a (new_system_handle\<lparr>h_refcount := 1, h_path := request_path\<rparr>) c
           in res_bind (allocate (cs_InternalIdGenerator c)) (\<lambda>(i_s_id, ids).
                let c = c\<lparr>cs_InternalIdGenerator := ids\<rparr>;
                    c = cs_log (''Reserved Internal Id = '' @ string_of_u32 i_s_id) c;
                    c = set_handle a ((cs_heap c a)\<lparr>h_internal_subscription_id := i_s_id\<rparr>) c;
                    (result, c) = handle_insert sp ops request_path a c
                in if result then
                     Inr (Some a, cs_log ''ConsolidatorSystemHandle create successful.'' c)
                   else
                     let c = cs_log (''Deleted Internal Id = '' @ string_of_u32 i_s_id) c
                     in res_bind (deallocate i_s_id (cs_InternalIdGenerator c)) (\<lambda>(bad, ids).
                          Inr (None, c\<lparr>cs_InternalIdGenerator := ids\<rparr>)))))"

definition handle_destroy ::
    "(path_msg \<Rightarrow> string) \<Rightarrow> 'b system_ops \<Rightarrow> addr \<Rightarrow>
     ('b, 'x) consys_scheme \<Rightarrow> (bool \<times> ('b, 'x) consys_scheme) res" where
  "handle_destroy sp ops a c =
     (if h_refcount (cs_heap c a) = 0 then
        Inr (False, cs_log (''ConsolidatorSystemHandle has underflow: '' @ sp (h_path (cs_heap c a))) c)
      else
        let c = decRef a c
        in if h_refcount (cs_heap c a) \<noteq> 0 then
             Inr (True, cs_log (''ConsolidatorSystemHandle still in use ('' @
               string_of_u32 (h_internal_subscription_id (cs_heap c a)) @ ''): '' @
               sp (h_path (cs_heap c a))) c)
           else
             res_bind (handle_remove sp ops (h_path (cs_heap c a)) c) (\<lambda>(ignored, c).
               Inr (True, cs_log ''ConsolidatorSystemHandle destroy successful'' c)))"

definition handle_get ::
    "(path_msg \<Rightarrow> string) \<Rightarrow> 'b system_ops \<Rightarrow> addr \<Rightarrow>
     ('b, 'x) consys_scheme \<Rightarrow> (path_msg option \<times> ('b, 'x) consys_scheme) res" where
  "handle_get sp ops a c =
     (let request_path_str = sp (h_path (cs_heap c a))
      in case smap_find (cs_sysdb c) request_path_str of
           None \<Rightarrow> Inr (None, cs_log (''Get could not find: '' @ request_path_str) c)
         | Some b \<Rightarrow>
             res_bind (op_systemGet ops (unat (h_internal_subscription_id (cs_heap c b))) (cs_system c))
               (\<lambda>(p, s). Inr (p, c\<lparr>cs_system := s\<rparr>)))"

lemma cs_log_frame [simp]:
  "cs_InternalIdGenerator (cs_log m c) = cs_InternalIdGenerator c"
  "cs_sysdb (cs_log m c) = cs_sysdb c"
  "cs_heap (cs_log m c) = cs_heap c"
  "cs_next (cs_log m c) = cs_next c"
  "cs_system (cs_log m c) = sys_log m (cs_system c)"
  "consys.more (cs_log m c) = consys.more c"
  by (simp_all add: cs_log_def)

lemma set_handle_frame [simp]:
  "cs_InternalIdGenerator (set_handle a h c) = cs_InternalIdGenerator c"
  "cs_sysdb (set_handle a h c) = cs_sysdb c"
  "cs_heap (set_handle a h c) = (cs_heap c)(a := h)"
  "cs_next (set_handle a h c) = cs_next c"
  "cs_system (set_handle a h c) = cs_system c"
  "consys.more (set_handle a h c) = consys.more c"
  by (simp_all add: set_handle_def)

lemmas handle_defs = handle_find_def handle_insert_def handle_remove_def Let_def

section \<open>The invariant\<close>

text \<open>
  \<open>R\<close> is the multiset of references that clients hold. The data base has one entry for each
  printed path with references, its handle counts exactly the references held, and the ids of
  the entries, other than the null id, are pairwise different and are the allocated ones.
\<close>

definition entry :: "('b, 'x) consys_scheme \<Rightarrow> addr \<Rightarrow> bool" where
  "entry c a \<longleftrightarrow> (\<exists>k. smap_find (cs_sysdb c) k = Some a)"

definition isid :: "('b, 'x) consys_scheme \<Rightarrow> addr \<Rightarrow> u32" where
  "isid c a = h_internal_subscription_id (cs_heap c a)"

definition handle_ok ::
    "(path_msg \<Rightarrow> string) \<Rightarrow> ('b, 'x) consys_scheme \<Rightarrow> addr multiset \<Rightarrow> string \<Rightarrow> addr \<Rightarrow> bool" where
  "handle_ok sp c R k a \<longleftrightarrow>
     a < cs_next c \<and> sp (h_path (cs_heap c a)) = k \<and> h_refcount (cs_heap c a) \<noteq> 0 \<and>
     unat (h_refcount (cs_heap c a)) = count R a"

definition consys_inv ::
    "(path_msg \<Rightarrow> string) \<Rightarrow> ('b, 'x) consys_scheme \<Rightarrow> addr multiset \<Rightarrow> bool" where
  "consys_inv sp c R \<longleftrightarrow>
     smap_ok (cs_sysdb c) \<and> id_ok (cs_InternalIdGenerator c) \<and>
     (\<forall>k a. smap_find (cs_sysdb c) k = Some a \<longrightarrow> handle_ok sp c R k a) \<and>
     (\<forall>a \<in># R. entry c a) \<and>
     live_ids (cs_InternalIdGenerator c) = isid c ` Collect (entry c) - {0} \<and>
     inj_on (isid c) {a. entry c a \<and> isid c a \<noteq> 0}"

lemma consys_inv_new [simp]: "consys_inv sp (new_consys s) {#}"
  by (simp add: consys_inv_def new_consys_def entry_def [abs_def] id_ok_new
      INTERNAL_SUBSCRIPTION_ID_SPACE_SIZE_def INTERNAL_SUBSCRIPTION_ID_SPACE_MIN_def)

lemma consys_inv_cong_fields:
  "cs_sysdb c' = cs_sysdb c \<Longrightarrow> cs_heap c' = cs_heap c \<Longrightarrow> cs_next c' = cs_next c \<Longrightarrow>
   cs_InternalIdGenerator c' = cs_InternalIdGenerator c \<Longrightarrow> consys_inv sp c' R = consys_inv sp c R"
  by (simp add: consys_inv_def handle_ok_def [abs_def] entry_def [abs_def] isid_def [abs_def])

lemma consys_inv_log [simp]: "consys_inv sp (cs_log m c) R = consys_inv sp c R"
  by (simp add: consys_inv_def handle_ok_def [abs_def] entry_def [abs_def] isid_def [abs_def])

lemma consys_inv_system [simp]: "consys_inv sp (c\<lparr>cs_system := s\<rparr>) R = consys_inv sp c R"
  by (simp add: consys_inv_def handle_ok_def [abs_def] entry_def [abs_def] isid_def [abs_def])

lemma consys_inv_entry:
  "consys_inv sp c R \<Longrightarrow> smap_find (cs_sysdb c) k = Some a \<Longrightarrow> handle_ok sp c R k a"
  by (simp add: consys_inv_def)

lemma consys_inv_held:
  "consys_inv sp c R \<Longrightarrow> a \<in># R \<Longrightarrow>
   smap_find (cs_sysdb c) (sp (h_path (cs_heap c a))) = Some a \<and>
   h_refcount (cs_heap c a) \<noteq> 0 \<and> unat (h_refcount (cs_heap c a)) = count R a"
  by (auto simp: consys_inv_def entry_def handle_ok_def)

lemma handle_ok_held: "handle_ok sp c R k a \<Longrightarrow> a \<in># R"
  by (metis handle_ok_def count_inI unat_eq_zero)

lemma consys_inv_below: "consys_inv sp c R \<Longrightarrow> a \<in># R \<Longrightarrow> a < cs_next c"
  by (meson consys_inv_held consys_inv_entry handle_ok_def)

lemma entry_unique:
  "consys_inv sp c R \<Longrightarrow> smap_find (cs_sysdb c) k = Some a \<Longrightarrow> smap_find (cs_sysdb c) k' = Some a \<Longrightarrow> k = k'"
  using consys_inv_entry [of sp c R k a] consys_inv_entry [of sp c R k' a]
  by (simp add: handle_ok_def)

text \<open>Changing the reference count of one handle.\<close>

lemma consys_inv_recount:
  assumes inv: "consys_inv sp c R" and a: "entry c a" and n: "n \<noteq> 0" "unat n = count R' a"
    and others: "\<And>b. b \<noteq> a \<Longrightarrow> count R' b = count R b"
  shows "consys_inv sp (set_handle a ((cs_heap c a)\<lparr>h_refcount := n\<rparr>) c) R'"
proof -
  let ?c = "set_handle a ((cs_heap c a)\<lparr>h_refcount := n\<rparr>) c"
  have id: "isid ?c = isid c" and en: "entry ?c = entry c"
    by (auto simp: isid_def entry_def fun_eq_iff)
  have "handle_ok sp ?c R' k b" if "smap_find (cs_sysdb ?c) k = Some b" for k b
    using consys_inv_entry [OF inv, of k b] that n others by (auto simp: handle_ok_def)
  moreover have "entry c b" if "b \<in># R'" for b
    using that a inv others [of b] by (cases "b = a") (auto simp: consys_inv_def count_greater_zero_iff [symmetric] simp del: count_greater_zero_iff)
  ultimately show ?thesis
    using inv unfolding consys_inv_def id en by simp
qed

section \<open>create\<close>

lemma create_existing:
  assumes inv: "consys_inv sp c R" and found: "handle_find sp p c = Some a"
    and room: "size R < 2 ^ 64 - 1"
  shows "\<exists>c'. handle_create sp ops p c = Inr (Some a, c') \<and> consys_inv sp c' (add_mset a R) \<and>
     cs_sysdb c' = cs_sysdb c \<and> cs_InternalIdGenerator c' = cs_InternalIdGenerator c \<and>
     outstanding (cs_system c') = outstanding (cs_system c) \<and> consys.more c' = consys.more c \<and>
     (\<forall>b. h_path (cs_heap c' b) = h_path (cs_heap c b))"
proof -
  let ?n = "h_refcount (cs_heap c a)"
  have ok: "handle_ok sp c R (sp p) a" and e: "entry c a"
    using inv found by (auto simp: handle_find_def consys_inv_entry entry_def)
  have "count R a \<le> size R" by (rule count_le_size)
  then have "unat ?n + 1 < 2 ^ LENGTH(64)" using ok room by (simp add: handle_ok_def)
  then have n: "unat (?n + 1) = Suc (unat ?n)" by (rule unat_Suc_word)
  then have "?n + 1 \<noteq> 0" by (metis unat_0 nat.distinct(1))
  then have "consys_inv sp (incRef a c) (add_mset a R)"
    unfolding incRef_def using ok n
    by (intro consys_inv_recount [OF inv e]) (auto simp: handle_ok_def)
  then show ?thesis
    using found by (auto simp: handle_create_def Let_def incRef_def)
qed

lemma ex_upd_iff: "m k = None \<Longrightarrow> (\<exists>j. (m(k \<mapsto> v)) j = Some w) \<longleftrightarrow> w = v \<or> (\<exists>j. m j = Some w)"
  by (metis fun_upd_other fun_upd_same option.distinct(1) option.inject)

text \<open>A fresh handle entered into the data base.\<close>

lemma consys_inv_enter:
  assumes inv: "consys_inv sp c R" and new: "smap_find (cs_sysdb c) (sp p) = None"
    and al: "allocate (cs_InternalIdGenerator c) = Inr (i, ids)"
    and c': "cs_sysdb c' = smap_put (sp p) (cs_next c) (cs_sysdb c)"
      "cs_heap c' = (cs_heap c)(cs_next c :=
         \<lparr>h_path = p, h_internal_subscription_id = i, h_refcount = 1\<rparr>)"
      "cs_next c' = Suc (cs_next c)" "cs_InternalIdGenerator c' = ids"
  shows "consys_inv sp c' (add_mset (cs_next c) R)"
proof -
  let ?a = "cs_next c"
  have ok: "smap_ok (cs_sysdb c)" "id_ok (cs_InternalIdGenerator c)"
    using inv by (auto simp: consys_inv_def)
  have find: "smap_find (cs_sysdb c') = (smap_find (cs_sysdb c))(sp p \<mapsto> ?a)"
    using ok(1) by (simp add: c' std_map.find_put)
  have old: "b < ?a" if "entry c b" for b
    using that inv by (auto simp: entry_def handle_ok_def dest!: consys_inv_entry)
  then have notin: "?a \<notin># R" "\<not> entry c ?a"
    using inv by (auto simp: consys_inv_def)
  have en: "entry c' b \<longleftrightarrow> b = ?a \<or> entry c b" for b
    unfolding entry_def find by (rule ex_upd_iff [where m = "smap_find (cs_sysdb c)", OF new])
  then have ens: "Collect (entry c') = insert ?a (Collect (entry c))" by auto
  have ia: "isid c' ?a = i" and ib: "b \<noteq> ?a \<Longrightarrow> isid c' b = isid c b" for b
    by (auto simp: isid_def c')
  have "isid c' b = isid c b" if "entry c b" for b
    using that ib [of b] notin by (cases "b = ?a") simp_all
  then have im: "isid c' ` Collect (entry c) = isid c ` Collect (entry c)"
    by (intro image_cong) auto
  have ids: "id_ok ids" "i \<notin> live_ids (cs_InternalIdGenerator c)"
    "live_ids ids = (if i = 0 then live_ids (cs_InternalIdGenerator c)
       else insert i (live_ids (cs_InternalIdGenerator c)))"
    using ids.alloc_step [OF ok(2) al] by auto
  have live: "live_ids (cs_InternalIdGenerator c) = isid c ` Collect (entry c) - {0}"
    and inj: "inj_on (isid c) {a. entry c a \<and> isid c a \<noteq> 0}"
    using inv by (auto simp: consys_inv_def)
  have "handle_ok sp c' (add_mset ?a R) k b" if "smap_find (cs_sysdb c') k = Some b" for k b
  proof (cases "k = sp p")
    case True
    then have "b = ?a" using that by (simp add: find)
    then show ?thesis using True notin by (simp add: handle_ok_def c' not_in_iff)
  next
    case False
    then have "smap_find (cs_sysdb c) k = Some b" using that by (simp add: find)
    then have "handle_ok sp c R k b" and "b \<noteq> ?a"
      using consys_inv_entry [OF inv] notin by (auto simp: entry_def)
    then show ?thesis by (simp add: handle_ok_def c')
  qed
  moreover have "live_ids ids = isid c' ` Collect (entry c') - {0}"
    using ids live by (auto simp: ens im ia)
  moreover have "inj_on (isid c') {b. entry c' b \<and> isid c' b \<noteq> 0}"
  proof (rule inj_onI)
    fix x y
    assume x: "x \<in> {b. entry c' b \<and> isid c' b \<noteq> 0}" and y: "y \<in> {b. entry c' b \<and> isid c' b \<noteq> 0}"
      and eq: "isid c' x = isid c' y"
    have fresh: "isid c b \<noteq> i" if "entry c b" "i \<noteq> 0" for b
      using ids(2) live that by auto
    show "x = y"
      using x y eq ib ia fresh [of x] fresh [of y] inj
      by (cases "x = ?a"; cases "y = ?a") (auto simp: en inj_on_def)
  qed
  moreover have "\<forall>b \<in># add_mset ?a R. entry c' b"
    using inv en by (auto simp: consys_inv_def)
  ultimately show ?thesis
    using ok ids by (auto simp: consys_inv_def c' std_map.ok_put)
qed

lemma consys_inv_ignore_fresh:
  assumes inv: "consys_inv sp c R"
    and c': "cs_sysdb c' = cs_sysdb c" "cs_heap c' = (cs_heap c)(cs_next c := h)"
      "cs_next c' = Suc (cs_next c)" "id_ok (cs_InternalIdGenerator c')"
      "live_ids (cs_InternalIdGenerator c') = live_ids (cs_InternalIdGenerator c)"
  shows "consys_inv sp c' R"
proof -
  have en: "entry c' = entry c" by (simp add: entry_def [abs_def] c')
  have old: "b < cs_next c" if "entry c b" for b
    using that inv by (auto simp: entry_def handle_ok_def dest!: consys_inv_entry)
  then have ib: "isid c' b = isid c b" if "entry c b" for b
    using that by (auto simp: isid_def c')
  have im: "isid c' ` Collect (entry c) = isid c ` Collect (entry c)"
    by (rule image_cong) (use ib in auto)
  have st: "{a. entry c a \<and> isid c' a \<noteq> 0} = {a. entry c a \<and> isid c a \<noteq> 0}"
    using ib by auto
  have "inj_on (isid c') {a. entry c a \<and> isid c a \<noteq> 0} = inj_on (isid c) {a. entry c a \<and> isid c a \<noteq> 0}"
    by (rule inj_on_cong) (use ib in auto)
  moreover have "handle_ok sp c' R k b" if "smap_find (cs_sysdb c) k = Some b" for k b
    using consys_inv_entry [OF inv that] by (auto simp: handle_ok_def c')
  ultimately show ?thesis
    using inv unfolding consys_inv_def en im st c' by (simp add: c')
qed

lemma handle_insert_result:
  assumes "handle_insert sp ops p a c = (r, c')"
  shows "cs_heap c' = cs_heap c" "cs_next c' = cs_next c"
    "cs_InternalIdGenerator c' = cs_InternalIdGenerator c" "consys.more c' = consys.more c"
    "cs_sysdb c' = (if r then smap_put (sp p) a (cs_sysdb c)
       else smap_erase (sp p) (smap_put (sp p) a (cs_sysdb c)))"
    "system_backend ops \<Longrightarrow>
       outstanding (cs_system c') = outstanding (cs_system c) + (if r then 1 else 0)"
  using assms system_backend.add_success [of ops] system_backend.add_failure [of ops]
  by (auto simp: handle_insert_def Let_def split: prod.splits if_splits)

lemma handle_remove_result:
  assumes "handle_remove sp ops p c = Inr (r, c')" and "smap_find (cs_sysdb c) (sp p) = Some a"
    and "deallocate (isid c a) (cs_InternalIdGenerator c) = Inr (bad, ids)"
  shows "cs_heap c' = cs_heap c" "cs_next c' = cs_next c"
    "cs_InternalIdGenerator c' = ids" "consys.more c' = consys.more c"
    "cs_sysdb c' = smap_erase (sp p) (cs_sysdb c)"
    "reliable_backend ops \<Longrightarrow> r \<and> outstanding (cs_system c') = outstanding (cs_system c) - 1"
  using assms
  by (auto simp: handle_remove_def Let_def isid_def split: prod.splits if_splits
      dest: reliable_backend.remove_outstanding)

text \<open>
  What \<open>create\<close> does for a path without a handle: a new handle entered into the data base, or,
  when the system refuses the request, the previous data base and identifiers.
\<close>

lemma create_fresh:
  assumes inv: "consys_inv sp c R" and none: "handle_find sp p c = None"
  obtains (made) c' where "handle_create sp ops p c = Inr (Some (cs_next c), c')"
      "consys_inv sp c' (add_mset (cs_next c) R)" "h_path (cs_heap c' (cs_next c)) = p"
      "cs_sysdb c' = smap_put (sp p) (cs_next c) (cs_sysdb c)" "consys.more c' = consys.more c"
      "system_backend ops \<Longrightarrow> outstanding (cs_system c') = outstanding (cs_system c) + 1"
      "\<And>b. b \<noteq> cs_next c \<Longrightarrow> cs_heap c' b = cs_heap c b"
    | (refused) c' where "handle_create sp ops p c = Inr (None, c')" "consys_inv sp c' R"
      "cs_sysdb c' = cs_sysdb c" "consys.more c' = consys.more c"
      "system_backend ops \<Longrightarrow> outstanding (cs_system c') = outstanding (cs_system c)"
      "\<And>b. b \<noteq> cs_next c \<Longrightarrow> cs_heap c' b = cs_heap c b"
proof -
  have ok: "smap_ok (cs_sysdb c)" "id_ok (cs_InternalIdGenerator c)"
    using inv by (auto simp: consys_inv_def)
  have new: "smap_find (cs_sysdb c) (sp p) = None" using none by (simp add: handle_find_def)
  obtain i ids where al: "allocate (cs_InternalIdGenerator c) = Inr (i, ids)"
    using ids.alloc_total [OF ok(2)] by blast
  obtain bad ids' where de: "deallocate i ids = Inr (bad, ids')" "id_ok ids'"
    "live_ids ids' = live_ids (cs_InternalIdGenerator c)"
    using ids.alloc_dealloc [OF ok(2) al] by blast
  define c1 where "c1 = set_handle (cs_next c)
      \<lparr>h_path = p, h_internal_subscription_id = i, h_refcount = 1\<rparr>
      (cs_log (''Reserved Internal Id = '' @ string_of_u32 i)
        (set_handle (cs_next c) (new_system_handle\<lparr>h_refcount := 1, h_path := p\<rparr>)
          (c\<lparr>cs_next := Suc (cs_next c)\<rparr>)\<lparr>cs_InternalIdGenerator := ids\<rparr>))"
  obtain r c2 where ins: "handle_insert sp ops p (cs_next c) c1 = (r, c2)" by force
  have cr: "handle_create sp ops p c =
      (if r then Inr (Some (cs_next c), cs_log ''ConsolidatorSystemHandle create successful.'' c2)
       else res_bind (deallocate i (cs_InternalIdGenerator
                (cs_log (''Deleted Internal Id = '' @ string_of_u32 i) c2))) (\<lambda>(bad, ids).
              Inr (None, (cs_log (''Deleted Internal Id = '' @ string_of_u32 i) c2)
                \<lparr>cs_InternalIdGenerator := ids\<rparr>)))"
    using none al ins unfolding c1_def
    by (simp add: handle_create_def Let_def new_system_handle_def)
  have c1: "cs_sysdb c1 = cs_sysdb c" "cs_next c1 = Suc (cs_next c)"
    "cs_InternalIdGenerator c1 = ids" "consys.more c1 = consys.more c"
    "cs_heap c1 = (cs_heap c)(cs_next c :=
       \<lparr>h_path = p, h_internal_subscription_id = i, h_refcount = 1\<rparr>)"
    "outstanding (cs_system c1) = outstanding (cs_system c)"
    by (simp_all add: c1_def)
  note c2 = handle_insert_result [OF ins, unfolded c1]
  show thesis
  proof (cases r)
    case True
    then show thesis
      using cr c2 consys_inv_enter [OF inv new al, of c2]
      by (intro made [of "cs_log ''ConsolidatorSystemHandle create successful.'' c2"]) auto
  next
    case False
    let ?c = "(cs_log (''Deleted Internal Id = '' @ string_of_u32 i) c2)\<lparr>cs_InternalIdGenerator := ids'\<rparr>"
    have db: "cs_sysdb c2 = cs_sysdb c"
      using False c2 smap_erase_put [OF ok(1) new] by simp
    show thesis
    proof (rule refused)
      show "handle_create sp ops p c = Inr (None, ?c)" using False cr c2 de by simp
      show "consys_inv sp ?c R"
        by (rule consys_inv_ignore_fresh [OF inv]) (use db c2 de in simp_all)
    qed (use False db c2 in simp_all)
  qed
qed

section \<open>destroy\<close>

lemma destroy_shared:
  assumes inv: "consys_inv sp c R" and a: "a \<in># R" and more: "count R a \<noteq> 1"
  shows "\<exists>c'. handle_destroy sp ops a c = Inr (True, c') \<and> consys_inv sp c' (R - {#a#}) \<and>
     cs_sysdb c' = cs_sysdb c \<and> outstanding (cs_system c') = outstanding (cs_system c) \<and>
     consys.more c' = consys.more c \<and> (\<forall>b. h_path (cs_heap c' b) = h_path (cs_heap c b))"
proof -
  let ?n = "h_refcount (cs_heap c a)"
  have h: "?n \<noteq> 0" "unat ?n = count R a" and e: "entry c a"
    using consys_inv_held [OF inv a] inv a by (auto simp: consys_inv_def)
  have n: "unat (?n - 1) = count R a - 1" using h by (simp add: unat_pred_word)
  have "count R a > 1" using a more by (metis count_greater_eq_one_iff le_neq_implies_less)
  then have n0: "?n - 1 \<noteq> 0" using n by (metis unat_0 zero_less_diff less_numeral_extra(3))
  have "consys_inv sp (decRef a c) (R - {#a#})"
    unfolding decRef_def using n n0 by (intro consys_inv_recount [OF inv e]) auto
  then show ?thesis
    using h(1) n0 by (auto simp: handle_destroy_def Let_def decRef_def)
qed

lemma destroy_last:
  assumes inv: "consys_inv sp c R" and a: "a \<in># R" and one: "count R a = 1"
  shows "\<exists>c'. handle_destroy sp ops a c = Inr (True, c') \<and> consys_inv sp c' (R - {#a#}) \<and>
     cs_sysdb c' = smap_erase (sp (h_path (cs_heap c a))) (cs_sysdb c) \<and>
     consys.more c' = consys.more c \<and> (\<forall>b. h_path (cs_heap c' b) = h_path (cs_heap c b)) \<and>
     (reliable_backend ops \<longrightarrow> outstanding (cs_system c') = outstanding (cs_system c) - 1)"
proof -
  let ?n = "h_refcount (cs_heap c a)" and ?k = "sp (h_path (cs_heap c a))" and ?i = "isid c a"
  have h: "smap_find (cs_sysdb c) ?k = Some a" "?n \<noteq> 0" "unat ?n = 1"
    using consys_inv_held [OF inv a] one by auto
  then have n: "?n = 1" by (metis unat_1 word_unat_eq_iff)
  have e: "entry c a" using h by (auto simp: entry_def)
  have ok: "smap_ok (cs_sysdb c)" "id_ok (cs_InternalIdGenerator c)"
    and live: "live_ids (cs_InternalIdGenerator c) = isid c ` Collect (entry c) - {0}"
    and inj: "inj_on (isid c) {a. entry c a \<and> isid c a \<noteq> 0}"
    using inv by (auto simp: consys_inv_def)
  have "?i \<in> insert 0 (live_ids (cs_InternalIdGenerator c))" using live e by auto
  then obtain bad ids where de: "deallocate ?i (cs_InternalIdGenerator c) = Inr (bad, ids)"
    "id_ok ids" "live_ids ids = live_ids (cs_InternalIdGenerator c) - {?i}"
    using ids.dealloc_step [OF ok(2)] by blast
  have isid: "isid (decRef a c) a = ?i" by (simp add: isid_def decRef_def)
  have "\<exists>r c1. handle_remove sp ops (h_path (cs_heap c a)) (decRef a c) = Inr (r, c1)"
    using h(1) de(1) unfolding handle_remove_def Let_def isid_def
    by (auto simp: decRef_def split: prod.split)
  then obtain r c1 where rem: "handle_remove sp ops (h_path (cs_heap c a)) (decRef a c) = Inr (r, c1)"
    by blast
  define c' where "c' = cs_log ''ConsolidatorSystemHandle destroy successful'' c1"
  have cr: "handle_destroy sp ops a c = Inr (True, c')"
    using n rem unfolding c'_def by (simp add: handle_destroy_def Let_def) (simp add: decRef_def)
  note r = handle_remove_result [OF rem, of a bad ids]
  have c': "cs_sysdb c' = smap_erase ?k (cs_sysdb c)" "cs_InternalIdGenerator c' = ids"
    "cs_heap c' = (cs_heap c)(a := (cs_heap c a)\<lparr>h_refcount := 0\<rparr>)" "cs_next c' = cs_next c"
    "consys.more c' = consys.more c"
    "reliable_backend ops \<Longrightarrow> outstanding (cs_system c') = outstanding (cs_system c) - 1"
    using r h(1) de(1) n isid by (simp_all add: c'_def decRef_def)
  have find: "smap_find (cs_sysdb c') = (smap_find (cs_sysdb c))(?k := None)"
    by (simp add: c' std_map.find_erase)
  have same: "k = ?k" if "smap_find (cs_sysdb c) k = Some a" for k
    using entry_unique [OF inv h(1) that] by (rule sym)
  have find': "smap_find (cs_sysdb c') k = Some b \<longleftrightarrow> smap_find (cs_sysdb c) k = Some b \<and> b \<noteq> a" for k b
    using h(1) same [of k] by (cases "k = ?k") (simp_all add: find, blast+)
  have en: "entry c' b \<longleftrightarrow> entry c b \<and> b \<noteq> a" for b
    unfolding entry_def find' by blast
  have ib: "isid c' b = isid c b" for b by (auto simp: isid_def c')
  have "handle_ok sp c' (R - {#a#}) k b" if "smap_find (cs_sysdb c') k = Some b" for k b
  proof -
    have "smap_find (cs_sysdb c) k = Some b" and "b \<noteq> a"
      using that by (simp_all add: find')
    then show ?thesis using consys_inv_entry [OF inv] by (auto simp: handle_ok_def c')
  qed
  moreover have "entry c' b" if "b \<in># R - {#a#}" for b
  proof -
    have "b \<noteq> a" using that one by (auto simp: count_greater_zero_iff [symmetric] simp del: count_greater_zero_iff)
    moreover have "entry c b" using in_diffD [OF that] inv by (auto simp: consys_inv_def)
    ultimately show ?thesis by (simp add: en)
  qed
  moreover have "live_ids ids = isid c' ` Collect (entry c') - {0}"
  proof -
    have ne: "isid c b \<noteq> ?i" if "entry c b" "b \<noteq> a" "isid c b \<noteq> 0" for b
      using that e inj_onD [OF inj, of b a] by auto
    have "x \<in> live_ids ids \<longleftrightarrow> x \<in> isid c ` Collect (entry c') - {0}" for x
      unfolding de live using ne e by (auto simp: en image_iff)
    then show ?thesis by (auto simp: ib)
  qed
  moreover have "inj_on (isid c') {b. entry c' b \<and> isid c' b \<noteq> 0}"
    using inj by (auto simp: inj_on_def en ib)
  ultimately have "consys_inv sp c' (R - {#a#})"
    using ok de by (auto simp: consys_inv_def c' std_map.ok_erase)
  with cr c' show ?thesis by auto
qed

section \<open>The two operations in any state\<close>

lemma create_step:
  assumes inv: "consys_inv sp c R" and room: "size R < 2 ^ 64 - 1"
  obtains r c' where "handle_create sp ops p c = Inr (r, c')"
    "consys_inv sp c' (case r of None \<Rightarrow> R | Some a \<Rightarrow> add_mset a R)"
    "consys.more c' = consys.more c"
    "\<And>a. r = Some a \<Longrightarrow> sp (h_path (cs_heap c' a)) = sp p"
    "\<And>b. b \<in># R \<Longrightarrow> h_path (cs_heap c' b) = h_path (cs_heap c b)"
    "system_backend ops \<Longrightarrow>
       outstanding (cs_system c') - of_nat (length (cs_sysdb c')) =
       outstanding (cs_system c) - of_nat (length (cs_sysdb c))"
    "r = None \<Longrightarrow> cs_sysdb c' = cs_sysdb c"
proof (cases "handle_find sp p c")
  case None
  have ok: "smap_ok (cs_sysdb c)" using inv by (simp add: consys_inv_def)
  have fresh: "b \<noteq> cs_next c" if "b \<in># R" for b
    using that consys_inv_below [OF inv] by auto
  have len: "length (smap_put (sp p) v (cs_sysdb c)) = Suc (length (cs_sysdb c))" for v
    using std_map.size_put [OF ok] None by (simp add: handle_find_def)
  show thesis
  proof (cases rule: create_fresh [OF inv None, of ops, case_names made refused])
    case (made c')
    then show thesis using fresh len by (intro that [of "Some (cs_next c)" c']) auto
  next
    case (refused c')
    then show thesis using fresh by (intro that [of None c']) auto
  qed
next
  case (Some a)
  then have "sp (h_path (cs_heap c a)) = sp p"
    using consys_inv_entry [OF inv] by (auto simp: handle_find_def handle_ok_def)
  then show thesis using create_existing [OF inv Some room, of ops] that by auto
qed

lemma destroy_step:
  assumes inv: "consys_inv sp c R" and a: "a \<in># R"
  obtains c' where "handle_destroy sp ops a c = Inr (True, c')" "consys_inv sp c' (R - {#a#})"
    "consys.more c' = consys.more c"
    "\<And>b. h_path (cs_heap c' b) = h_path (cs_heap c b)"
    "reliable_backend ops \<Longrightarrow>
       outstanding (cs_system c') - of_nat (length (cs_sysdb c')) =
       outstanding (cs_system c) - of_nat (length (cs_sysdb c))"
proof (cases "count R a = 1")
  case True
  have ok: "smap_ok (cs_sysdb c)" using inv by (simp add: consys_inv_def)
  have "Suc (length (smap_erase (sp (h_path (cs_heap c a))) (cs_sysdb c))) = length (cs_sysdb c)"
    using std_map.size_erase [OF ok] consys_inv_held [OF inv a] by simp
  then have "of_nat (length (cs_sysdb c)) =
      of_nat (length (smap_erase (sp (h_path (cs_heap c a))) (cs_sysdb c))) + (1 :: u64)"
    by (metis of_nat_Suc add.commute)
  then show thesis using destroy_last [OF inv a True, of ops] that by auto
next
  case False
  then show thesis using destroy_shared [OF inv a, of ops] that by auto
qed

text \<open>The data base holds exactly the printed paths of the references held.\<close>

lemma sysdb_paths:
  "consys_inv sp c R \<Longrightarrow>
   dom (smap_find (cs_sysdb c)) = set_mset (image_mset (\<lambda>a. sp (h_path (cs_heap c a))) R)"
proof (intro set_eqI iffI)
  fix k
  assume inv: "consys_inv sp c R" and "k \<in> dom (smap_find (cs_sysdb c))"
  then obtain a where ok: "handle_ok sp c R k a" using consys_inv_entry by blast
  then have "k = sp (h_path (cs_heap c a))" by (simp add: handle_ok_def)
  then show "k \<in> set_mset (image_mset (\<lambda>a. sp (h_path (cs_heap c a))) R)"
    using handle_ok_held [OF ok] by simp
next
  fix k
  assume "consys_inv sp c R" and "k \<in> set_mset (image_mset (\<lambda>a. sp (h_path (cs_heap c a))) R)"
  then show "k \<in> dom (smap_find (cs_sysdb c))" using consys_inv_held by fastforce
qed

end
