(* ===== verification/Consolidator.thy ===== *)
theory Consolidator
  imports ConsolidatorSystem "HOL-Library.Sublist"
begin

text \<open>
  The consolidator of subscription requests (AgentConsolidator.hpp, AgentConsolidator.cpp, and
  class \<open>AgentConsolidatorHandle\<close> of AgentConsolidatorSystem.hpp). A client holds the address of
  a consolidator handle, a vector of system handles; \<open>delete handle\<close> removes it from the store,
  and a later use of the address is undefined behaviour.
\<close>

section \<open>State\<close>

record con_handle =
  ch_subscription_id :: u32
  ch_handles :: "addr list"

record 'b consolidator = "'b consys" +
  con_live :: "(addr, con_handle) smap"
  con_next :: addr
  con_add_count :: u64
  con_remove_count :: u64
  con_error_count_no_mem :: u64
  con_error_count_create :: u64
  con_error_count_bad_handle :: u64
  con_error_count_underflow :: u64

definition new_consolidator :: "'b agent_system \<Rightarrow> 'b consolidator" where
  "new_consolidator s = consys.extend (new_consys s)
     \<lparr>con_live = [], con_next = 1, con_add_count = 0, con_remove_count = 0,
      con_error_count_no_mem = 0, con_error_count_create = 0, con_error_count_bad_handle = 0,
      con_error_count_underflow = 0\<rparr>"

definition getHandleCount :: "con_handle \<Rightarrow> u32" where
  "getHandleCount h = of_nat (length (ch_handles h))"

definition getHandle :: "u32 \<Rightarrow> con_handle \<Rightarrow> addr option" where
  "getHandle pos h = (if pos < getHandleCount h then Some (ch_handles h ! unat pos) else None)"

definition addHandle :: "addr \<Rightarrow> con_handle \<Rightarrow> con_handle" where
  "addHandle a h = h\<lparr>ch_handles := ch_handles h @ [a]\<rparr>"

definition getErrors :: "('b, 'x) consolidator_scheme \<Rightarrow> u64" where
  "getErrors c = con_error_count_bad_handle c + con_error_count_create c +
     con_error_count_no_mem c + con_error_count_underflow c"

section \<open>Operations\<close>

text \<open>
  The loop of \<open>addRequest\<close>: every path for which a system handle can be had is copied to the
  accepted request and its handle appended.
\<close>

fun add_paths ::
    "(path_msg \<Rightarrow> string) \<Rightarrow> 'b system_ops \<Rightarrow> path_msg list \<Rightarrow> con_handle \<Rightarrow> path_msg list \<Rightarrow>
     ('b, 'x) consys_scheme \<Rightarrow> (con_handle \<times> path_msg list \<times> ('b, 'x) consys_scheme) res" where
  "add_paths sp ops [] h accepted c = Inr (h, accepted, c)"
| "add_paths sp ops (p # ps) h accepted c =
     res_bind (handle_create sp ops p c) (\<lambda>(r, c).
       case r of
         None \<Rightarrow> add_paths sp ops ps h accepted c
       | Some a \<Rightarrow> add_paths sp ops ps (addHandle a h) (accepted @ [p]) c)"

text \<open>
  \<open>addRequest\<close>. \<open>operator new\<close> throws instead of answering null, so the no-memory branch of the
  code is not reachable and has no counterpart.
\<close>

definition addRequest ::
    "(path_msg \<Rightarrow> string) \<Rightarrow> 'b system_ops \<Rightarrow> u32 \<Rightarrow> path_msg list \<Rightarrow> path_msg list \<Rightarrow>
     ('b, 'x) consolidator_scheme \<Rightarrow>
     (addr \<times> path_msg list \<times> ('b, 'x) consolidator_scheme) res" where
  "addRequest sp ops subscription_id request accepted c =
     (let ptr = con_next c;
          c = c\<lparr>con_next := Suc ptr\<rparr>;
          c = cs_log (''Add Request ID: '' @ string_of_u32 subscription_id) c
      in res_bind (add_paths sp ops request
             \<lparr>ch_subscription_id = subscription_id, ch_handles = []\<rparr> accepted c) (\<lambda>(h, accepted, c).
           Inr (ptr, accepted, c\<lparr>con_live := smap_put ptr h (con_live c),
                                 con_add_count := con_add_count c + 1\<rparr>)))"

fun remove_handles ::
    "(path_msg \<Rightarrow> string) \<Rightarrow> 'b system_ops \<Rightarrow> addr list \<Rightarrow>
     ('b, 'x) consolidator_scheme \<Rightarrow> ('b, 'x) consolidator_scheme res" where
  "remove_handles sp ops [] c = Inr c"
| "remove_handles sp ops (a # as) c =
     res_bind (handle_destroy sp ops a c) (\<lambda>(ok, c).
       remove_handles sp ops as
         (if \<not> ok then c\<lparr>con_error_count_underflow := con_error_count_underflow c + 1\<rparr> else c))"

text \<open>A null pointer is \<open>None\<close>.\<close>

definition removeRequest ::
    "(path_msg \<Rightarrow> string) \<Rightarrow> 'b system_ops \<Rightarrow> addr option \<Rightarrow>
     ('b, 'x) consolidator_scheme \<Rightarrow> ('b, 'x) consolidator_scheme res" where
  "removeRequest sp ops handle c =
     (case handle of
        None \<Rightarrow> Inr (c\<lparr>con_error_count_bad_handle := con_error_count_bad_handle c + 1\<rparr>)
      | Some ptr \<Rightarrow>
          (case smap_find (con_live c) ptr of
             None \<Rightarrow> Inl UseAfterFree
           | Some h \<Rightarrow>
               (let c = cs_log (''Remove Request ID: '' @ string_of_u32 (ch_subscription_id h)) c
                in res_bind (remove_handles sp ops (ch_handles h) c) (\<lambda>c.
                     Inr (c\<lparr>con_live := smap_erase ptr (con_live c),
                            con_remove_count := con_remove_count c + 1\<rparr>)))))"

text \<open>The loop of \<open>getRequest\<close>: the paths kept here, or what the system answers.\<close>

fun get_paths ::
    "(path_msg \<Rightarrow> string) \<Rightarrow> 'b system_ops \<Rightarrow> bool \<Rightarrow> addr list \<Rightarrow> path_msg list \<Rightarrow>
     ('b, 'x) consys_scheme \<Rightarrow> (path_msg list \<times> ('b, 'x) consys_scheme) res" where
  "get_paths sp ops cached [] ps c = Inr (ps, c)"
| "get_paths sp ops cached (a # as) ps c =
     (if cached then get_paths sp ops cached as (ps @ [h_path (cs_heap c a)]) c
      else res_bind (handle_get sp ops a c) (\<lambda>(p, c).
        get_paths sp ops cached as (case p of None \<Rightarrow> ps | Some q \<Rightarrow> ps @ [q]) c))"

definition getRequest ::
    "(path_msg \<Rightarrow> string) \<Rightarrow> 'b system_ops \<Rightarrow> addr option \<Rightarrow> bool \<Rightarrow>
     ('b, 'x) consolidator_scheme \<Rightarrow> (path_msg list option \<times> ('b, 'x) consolidator_scheme) res" where
  "getRequest sp ops handle cached c =
     (case handle of
        None \<Rightarrow> Inr (None, c\<lparr>con_error_count_bad_handle := con_error_count_bad_handle c + 1\<rparr>)
      | Some ptr \<Rightarrow>
          (case smap_find (con_live c) ptr of
             None \<Rightarrow> Inl UseAfterFree
           | Some h \<Rightarrow>
               (let c = cs_log (''Get request ID:'' @ string_of_u32 (ch_subscription_id h)) c
                in res_bind (get_paths sp ops cached (ch_handles h) [] c) (\<lambda>(ps, c). Inr (Some ps, c)))))"

definition getSystemRequestCount :: "('b, 'x) consolidator_scheme \<Rightarrow> u32" where
  "getSystemRequestCount c = handle_getCount c"

definition con_description :: "('b, 'x) consolidator_scheme \<Rightarrow> string list" where
  "con_description c =
     [''Consolidator Statistics:'',
      ''  Add : '' @ string_of_u64 (con_add_count c),
      ''  Rem : '' @ string_of_u64 (con_remove_count c),
      ''Errors:'',
      ''  Mem : '' @ string_of_u64 (con_error_count_no_mem c),
      ''  Add : '' @ string_of_u64 (con_error_count_create c),
      ''  Hdl : '' @ string_of_u64 (con_error_count_bad_handle c),
      ''  Ufl : '' @ string_of_u64 (con_error_count_underflow c)]"

section \<open>Fields the system handles leave alone\<close>

text \<open>The operations on system handles do not touch the fields of the consolidator.\<close>

lemma con_frame:
  assumes "consys.more c' = consys.more c"
  shows "con_live c' = con_live c" "con_next c' = con_next c"
    "con_add_count c' = con_add_count c" "con_remove_count c' = con_remove_count c"
    "con_error_count_no_mem c' = con_error_count_no_mem c"
    "con_error_count_create c' = con_error_count_create c"
    "con_error_count_bad_handle c' = con_error_count_bad_handle c"
    "con_error_count_underflow c' = con_error_count_underflow c"
    "consolidator.more c' = consolidator.more c"
  using assms by (cases c; cases c'; simp)+

lemma consys_inv_truncate:
  "consys_inv sp (consys.truncate c) R = consys_inv sp c R"
  by (cases c) (simp add: consys_inv_def handle_ok_def [abs_def] entry_def [abs_def]
      isid_def [abs_def] consys.truncate_def)

lemma consys_inv_same:
  "consys.truncate c' = consys.truncate c \<Longrightarrow> consys_inv sp c' R = consys_inv sp c R"
  by (metis consys_inv_truncate)

lemma truncate_con_update [simp]:
  "consys.truncate (c\<lparr>con_live := v1\<rparr>) = consys.truncate c"
  "consys.truncate (c\<lparr>con_next := v2\<rparr>) = consys.truncate c"
  "consys.truncate (c\<lparr>con_add_count := v3\<rparr>) = consys.truncate c"
  "consys.truncate (c\<lparr>con_remove_count := v3\<rparr>) = consys.truncate c"
  "consys.truncate (c\<lparr>con_error_count_bad_handle := v3\<rparr>) = consys.truncate c"
  "consys.truncate (c\<lparr>con_error_count_underflow := v3\<rparr>) = consys.truncate c"
  by (simp_all add: consys.truncate_def)

lemma consys_inv_con_update [simp]:
  "consys_inv sp (c\<lparr>con_live := v1\<rparr>) R = consys_inv sp c R"
  "consys_inv sp (c\<lparr>con_next := v2\<rparr>) R = consys_inv sp c R"
  "consys_inv sp (c\<lparr>con_add_count := v3\<rparr>) R = consys_inv sp c R"
  "consys_inv sp (c\<lparr>con_remove_count := v3\<rparr>) R = consys_inv sp c R"
  "consys_inv sp (c\<lparr>con_error_count_bad_handle := v3\<rparr>) R = consys_inv sp c R"
  "consys_inv sp (c\<lparr>con_error_count_underflow := v3\<rparr>) R = consys_inv sp c R"
  by (rule consys_inv_same, simp)+

section \<open>The invariant\<close>

text \<open>
  The references of all live consolidator handles. The system handles are counted against
  them, so the consolidator owns every reference that exists.
\<close>

definition held :: "(addr, con_handle) smap \<Rightarrow> addr multiset" where
  "held m = \<Sum>\<^sub># (image_mset (\<lambda>(p, h). mset (ch_handles h)) (mset m))"

definition con_inv :: "(path_msg \<Rightarrow> string) \<Rightarrow> ('b, 'x) consolidator_scheme \<Rightarrow> bool" where
  "con_inv sp c \<longleftrightarrow> consys_inv sp c (held (con_live c)) \<and> smap_ok (con_live c) \<and>
     (\<forall>p h. smap_find (con_live c) p = Some h \<longrightarrow> p < con_next c)"

text \<open>
  The abstract state: the multiset of printed paths that live requests ask for. A path asked
  for twice counts twice here, and is one request towards the system.
\<close>

definition requested :: "(path_msg \<Rightarrow> string) \<Rightarrow> ('b, 'x) consolidator_scheme \<Rightarrow> string multiset" where
  "requested sp c = image_mset (\<lambda>a. sp (h_path (cs_heap c a))) (held (con_live c))"

definition imbalance :: "('b, 'x) consys_scheme \<Rightarrow> u64" where
  "imbalance c = outstanding (cs_system c) - of_nat (length (cs_sysdb c))"

lemma held_Nil [simp]: "held [] = {#}"
  by (simp add: held_def)

lemma held_put: "smap_ok m \<Longrightarrow> smap_find m p = None \<Longrightarrow> held (smap_put p h m) = mset (ch_handles h) + held m"
  by (simp add: held_def mset_smap_put)

lemma held_erase: "smap_ok m \<Longrightarrow> smap_find m p = Some h \<Longrightarrow> held m = mset (ch_handles h) + held (smap_erase p m)"
  by (simp add: held_def mset_smap_erase)

lemma con_inv_new [simp]: "con_inv sp (new_consolidator s)"
proof -
  have "consys_inv sp (new_consolidator s) {#} = consys_inv sp (new_consys s) {#}"
    by (rule consys_inv_cong_fields) (simp_all add: new_consolidator_def new_consys_def consys.extend_def)
  then show ?thesis by (simp add: con_inv_def) (simp add: new_consolidator_def consys.extend_def new_consys_def dom_def)
qed

lemma new_consolidator_simps [simp]:
  "con_live (new_consolidator s) = []" "cs_system (new_consolidator s) = s"
  "cs_sysdb (new_consolidator s) = []" "requested sp (new_consolidator s) = {#}"
  by (simp_all add: new_consolidator_def new_consys_def consys.defs requested_def)

lemma con_inv_sysdb:
  assumes "con_inv sp c"
  shows "dom (smap_find (cs_sysdb c)) = set_mset (requested sp c)"
    and "length (cs_sysdb c) = card (set_mset (requested sp c))"
proof -
  have c: "consys_inv sp c (held (con_live c))" using assms by (simp add: con_inv_def)
  show d: "dom (smap_find (cs_sysdb c)) = set_mset (requested sp c)"
    using sysdb_paths [OF c] by (simp add: requested_def)
  have "smap_ok (cs_sysdb c)" using c by (simp add: consys_inv_def)
  then show "length (cs_sysdb c) = card (set_mset (requested sp c))"
    using smap_size_card d by metis
qed

lemma imbalance_log [simp]: "imbalance (cs_log m c) = imbalance c"
  by (simp add: imbalance_def)

lemma imbalance_update [simp]:
  "imbalance (c\<lparr>con_live := v1\<rparr>) = imbalance c" "imbalance (c\<lparr>con_next := v2\<rparr>) = imbalance c"
  "imbalance (c\<lparr>con_add_count := v3\<rparr>) = imbalance c"
  "imbalance (c\<lparr>con_remove_count := v3\<rparr>) = imbalance c"
  "imbalance (c\<lparr>con_error_count_bad_handle := v3\<rparr>) = imbalance c"
  "imbalance (c\<lparr>con_error_count_underflow := v3\<rparr>) = imbalance c"
  by (simp_all add: imbalance_def)

section \<open>addRequest\<close>

text \<open>
  The loop keeps the invariant for the handle under construction, and the handle's paths print
  as the accepted ones do.
\<close>

lemma add_paths_inv:
  assumes "consys_inv sp c (mset (ch_handles h) + R)"
    and "size R + length (ch_handles h) + length ps < 2 ^ 64 - 1"
  shows "\<exists>h' acc c'. add_paths sp ops ps h accepted c = Inr (h', accepted @ acc, c') \<and>
     consys_inv sp c' (mset (ch_handles h') + R) \<and> consys.more c' = consys.more c \<and>
     ch_subscription_id h' = ch_subscription_id h \<and>
     (\<exists>as. ch_handles h' = ch_handles h @ as \<and>
        map (\<lambda>a. sp (h_path (cs_heap c' a))) as = map sp acc) \<and>
     (\<forall>b \<in># mset (ch_handles h) + R. h_path (cs_heap c' b) = h_path (cs_heap c b)) \<and>
     subseq acc ps \<and> (system_backend ops \<longrightarrow> imbalance c' = imbalance c)"
  using assms
proof (induction ps arbitrary: h accepted c)
  case Nil
  then show ?case by simp
next
  case (Cons p ps)
  have room: "size (mset (ch_handles h) + R) < 2 ^ 64 - 1" using Cons.prems(2) by simp
  obtain r c1 where cr: "handle_create sp ops p c = Inr (r, c1)" and
    inv: "consys_inv sp c1 (case r of None \<Rightarrow> mset (ch_handles h) + R
        | Some a \<Rightarrow> add_mset a (mset (ch_handles h) + R))" and
    c1: "consys.more c1 = consys.more c" "\<And>a. r = Some a \<Longrightarrow> sp (h_path (cs_heap c1 a)) = sp p"
      "\<And>b. b \<in># mset (ch_handles h) + R \<Longrightarrow> h_path (cs_heap c1 b) = h_path (cs_heap c b)"
      "system_backend ops \<Longrightarrow> imbalance c1 = imbalance c"
    using create_step [OF Cons.prems(1) room, of ops p] unfolding imbalance_def by metis
  show ?case
  proof (cases r)
    case None
    then have "consys_inv sp c1 (mset (ch_handles h) + R)" using inv by simp
    moreover have "size R + length (ch_handles h) + length ps < 2 ^ 64 - 1" using Cons.prems(2) by simp
    ultimately obtain h' acc c' as where
      ih: "add_paths sp ops ps h accepted c1 = Inr (h', accepted @ acc, c')"
      "consys_inv sp c' (mset (ch_handles h') + R)" "consys.more c' = consys.more c1"
      "ch_subscription_id h' = ch_subscription_id h" "ch_handles h' = ch_handles h @ as"
      "map (\<lambda>a. sp (h_path (cs_heap c' a))) as = map sp acc"
      "\<forall>b \<in># mset (ch_handles h) + R. h_path (cs_heap c' b) = h_path (cs_heap c1 b)"
      "subseq acc ps" "system_backend ops \<longrightarrow> imbalance c' = imbalance c1"
      using Cons.IH [of c1 h accepted] by blast
    then show ?thesis using None cr c1 by (intro exI [of _ h'] exI [of _ acc] exI [of _ c']) auto
  next
    case (Some a)
    let ?h = "addHandle a h"
    have "consys_inv sp c1 (mset (ch_handles ?h) + R)" using inv Some by (simp add: addHandle_def)
    moreover have "size R + length (ch_handles ?h) + length ps < 2 ^ 64 - 1"
      using Cons.prems(2) by (simp add: addHandle_def)
    ultimately obtain h' acc c' as where
      ih: "add_paths sp ops ps ?h (accepted @ [p]) c1 = Inr (h', (accepted @ [p]) @ acc, c')"
      "consys_inv sp c' (mset (ch_handles h') + R)" "consys.more c' = consys.more c1"
      "ch_subscription_id h' = ch_subscription_id ?h" "ch_handles h' = ch_handles ?h @ as"
      "map (\<lambda>a. sp (h_path (cs_heap c' a))) as = map sp acc"
      "\<forall>b \<in># mset (ch_handles ?h) + R. h_path (cs_heap c' b) = h_path (cs_heap c1 b)"
      "subseq acc ps" "system_backend ops \<longrightarrow> imbalance c' = imbalance c1"
      using Cons.IH [of c1 ?h "accepted @ [p]"] by blast
    have "h_path (cs_heap c' a) = h_path (cs_heap c1 a)" using ih(7) by (simp add: addHandle_def)
    then show ?thesis using Some cr c1 ih
      by (intro exI [of _ h'] exI [of _ "p # acc"] exI [of _ c'] conjI exI [of _ "a # as"])
        (auto simp: addHandle_def)
  qed
qed

lemma size_requested [simp]: "size (requested sp c) = size (held (con_live c))"
  by (simp add: requested_def)

lemma con_inv_fresh: "con_inv sp c \<Longrightarrow> smap_find (con_live c) (con_next c) = None"
  by (metis con_inv_def less_irrefl not_None_eq)

lemma addRequest_inv:
  assumes inv: "con_inv sp c" and room: "size (requested sp c) + length ps < 2 ^ 64 - 1"
  obtains h acc c' where
    "addRequest sp ops i ps accepted c = Inr (con_next c, accepted @ acc, c')" "con_inv sp c'"
    "requested sp c' = mset (map sp acc) + requested sp c" "subseq acc ps"
    "con_live c' = smap_put (con_next c) h (con_live c)" "ch_subscription_id h = i"
    "map (\<lambda>a. sp (h_path (cs_heap c' a))) (ch_handles h) = map sp acc"
    "con_next c' = Suc (con_next c)" "con_add_count c' = con_add_count c + 1"
    "consolidator.more c' = consolidator.more c"
    "system_backend ops \<Longrightarrow> imbalance c' = imbalance c"
    "\<And>b. b \<in># held (con_live c) \<Longrightarrow> h_path (cs_heap c' b) = h_path (cs_heap c b)"
proof -
  let ?h0 = "\<lparr>ch_subscription_id = i, ch_handles = []\<rparr>" and ?R = "held (con_live c)"
  let ?c0 = "cs_log (''Add Request ID: '' @ string_of_u32 i) (c\<lparr>con_next := Suc (con_next c)\<rparr>)"
  have ok: "smap_ok (con_live c)" using inv by (simp add: con_inv_def)
  have inv0: "consys_inv sp ?c0 (mset (ch_handles ?h0) + ?R)" using inv by (simp add: con_inv_def)
  have room0: "size ?R + length (ch_handles ?h0) + length ps < 2 ^ 64 - 1" using room by simp
  obtain h acc c1 where
    add: "add_paths sp ops ps ?h0 accepted ?c0 = Inr (h, accepted @ acc, c1)"
    and c1: "consys_inv sp c1 (mset (ch_handles h) + ?R)" "consys.more c1 = consys.more ?c0"
    and h: "ch_subscription_id h = i"
      "map (\<lambda>a. sp (h_path (cs_heap c1 a))) (ch_handles h) = map sp acc"
    and kept: "\<forall>b \<in># ?R. h_path (cs_heap c1 b) = h_path (cs_heap c b)"
    and acc: "subseq acc ps" "system_backend ops \<longrightarrow> imbalance c1 = imbalance ?c0"
    using add_paths_inv [OF inv0 room0, of ops accepted] by auto
  let ?c' = "c1\<lparr>con_live := smap_put (con_next c) h (con_live c1), con_add_count := con_add_count c1 + 1\<rparr>"
  note fr = con_frame [OF c1(2)]
  have frames: "con_live c1 = con_live c" "con_next c1 = Suc (con_next c)"
    "con_add_count c1 = con_add_count c" "consolidator.more c1 = consolidator.more c"
    using fr by (simp_all add: cs_log_def)
  have he: "held (con_live ?c') = mset (ch_handles h) + ?R"
    using held_put [OF ok con_inv_fresh [OF inv]] by (simp add: frames)
  have call: "addRequest sp ops i ps accepted c = Inr (con_next c, accepted @ acc, ?c')"
    using add unfolding addRequest_def Let_def by simp
  have "con_inv sp ?c'"
    using inv c1(1) he ok unfolding con_inv_def
    by (auto simp: frames std_map.ok_put std_map.find_put intro: less_SucI)
  moreover have "requested sp ?c' = mset (map sp acc) + requested sp c"
  proof -
    have "image_mset (\<lambda>a. sp (h_path (cs_heap c1 a))) ?R = requested sp c"
      unfolding requested_def by (rule image_mset_cong) (use kept in auto)
    then show ?thesis unfolding requested_def he by (simp flip: h(2))
  qed
  ultimately show thesis
    using call h acc frames kept by (intro that [of acc ?c' h]) auto
qed

section \<open>removeRequest\<close>

lemma remove_handles_inv:
  "consys_inv sp c (mset as + R) \<Longrightarrow>
   \<exists>c'. remove_handles sp ops as c = Inr c' \<and> consys_inv sp c' R \<and>
     consys.more c' = consys.more c \<and> (\<forall>b. h_path (cs_heap c' b) = h_path (cs_heap c b)) \<and>
     (reliable_backend ops \<longrightarrow> imbalance c' = imbalance c)"
proof (induction as arbitrary: c)
  case (Cons a as)
  have "a \<in># mset (a # as) + R" by simp
  then obtain c1 where d: "handle_destroy sp ops a c = Inr (True, c1)"
    and inv: "consys_inv sp c1 (mset (a # as) + R - {#a#})"
    and c1: "consys.more c1 = consys.more c" "\<And>b. h_path (cs_heap c1 b) = h_path (cs_heap c b)"
      "reliable_backend ops \<Longrightarrow> imbalance c1 = imbalance c"
    using destroy_step [OF Cons.prems, of a ops] unfolding imbalance_def by metis
  have "consys_inv sp c1 (mset as + R)" using inv by simp
  from Cons.IH [OF this] d c1 show ?case by auto
qed simp

lemma removeRequest_inv:
  assumes inv: "con_inv sp c" and live: "smap_find (con_live c) ptr = Some h"
  obtains c' where "removeRequest sp ops (Some ptr) c = Inr c'" "con_inv sp c'"
    "requested sp c = mset (map (\<lambda>a. sp (h_path (cs_heap c a))) (ch_handles h)) + requested sp c'"
    "con_live c' = smap_erase ptr (con_live c)" "con_next c' = con_next c"
    "con_remove_count c' = con_remove_count c + 1" "getErrors c' = getErrors c"
    "consolidator.more c' = consolidator.more c"
    "reliable_backend ops \<Longrightarrow> imbalance c' = imbalance c"
    "\<And>b. h_path (cs_heap c' b) = h_path (cs_heap c b)"
proof -
  let ?c0 = "cs_log (''Remove Request ID: '' @ string_of_u32 (ch_subscription_id h)) c"
  have ok: "smap_ok (con_live c)" using inv by (simp add: con_inv_def)
  have he: "held (con_live c) = mset (ch_handles h) + held (smap_erase ptr (con_live c))"
    by (rule held_erase [OF ok live])
  have "consys_inv sp ?c0 (mset (ch_handles h) + held (smap_erase ptr (con_live c)))"
    using inv he by (simp add: con_inv_def)
  then obtain c1 where rm: "remove_handles sp ops (ch_handles h) ?c0 = Inr c1"
    and c1: "consys_inv sp c1 (held (smap_erase ptr (con_live c)))" "consys.more c1 = consys.more c"
      "\<And>b. h_path (cs_heap c1 b) = h_path (cs_heap c b)"
      "reliable_backend ops \<Longrightarrow> imbalance c1 = imbalance c"
    using remove_handles_inv [of sp ?c0 "ch_handles h" _ ops] by fastforce
  note fr = con_frame [OF c1(2)]
  let ?c' = "c1\<lparr>con_live := smap_erase ptr (con_live c1), con_remove_count := con_remove_count c1 + 1\<rparr>"
  have "removeRequest sp ops (Some ptr) c = Inr ?c'"
    using live rm by (simp add: removeRequest_def Let_def)
  moreover have "con_inv sp ?c'"
    using inv c1(1) ok unfolding con_inv_def
    by (auto simp: fr std_map.ok_erase std_map.find_erase split: if_splits)
  moreover have "requested sp c = mset (map (\<lambda>a. sp (h_path (cs_heap c a))) (ch_handles h)) + requested sp ?c'"
    unfolding requested_def he by (simp add: fr c1(3))
  ultimately show thesis
    using fr c1 by (intro that [of ?c']) (auto simp: getErrors_def)
qed

section \<open>Reads\<close>

lemma handle_get_frame:
  assumes "handle_get sp ops a c = Inr (p, c')"
  shows "cs_sysdb c' = cs_sysdb c" "cs_heap c' = cs_heap c" "cs_next c' = cs_next c"
    "cs_InternalIdGenerator c' = cs_InternalIdGenerator c" "consys.more c' = consys.more c"
    "system_backend ops \<Longrightarrow> imbalance c' = imbalance c"
  using assms
  by (auto simp: handle_get_def Let_def imbalance_def res_bind_Inr_iff split: option.splits
      dest: system_backend.get_same)

lemma get_paths_frame:
  "get_paths sp ops cached as ps c = Inr (ps', c') \<Longrightarrow>
   consys_inv sp c' R = consys_inv sp c R \<and> cs_sysdb c' = cs_sysdb c \<and> cs_heap c' = cs_heap c \<and>
   consys.more c' = consys.more c \<and> (system_backend ops \<longrightarrow> imbalance c' = imbalance c)"
proof (induction as arbitrary: c ps)
  case (Cons a as)
  show ?case
  proof (cases cached)
    case True
    then show ?thesis using Cons by simp
  next
    case False
    then obtain p c1 where g: "handle_get sp ops a c = Inr (p, c1)"
      and r: "get_paths sp ops cached as (case p of None \<Rightarrow> ps | Some q \<Rightarrow> ps @ [q]) c1 = Inr (ps', c')"
      using Cons.prems by (auto simp: res_bind_Inr_iff)
    have "consys_inv sp c1 R = consys_inv sp c R"
      using handle_get_frame [OF g] by (intro consys_inv_cong_fields)
    then show ?thesis using Cons.IH [OF r] handle_get_frame [OF g] by simp
  qed
qed simp

lemma get_paths_cached: "get_paths sp ops True as ps c = Inr (ps @ map (\<lambda>a. h_path (cs_heap c a)) as, c)"
  by (induction as arbitrary: ps) auto

lemma getRequest_inv:
  assumes "con_inv sp c" and "getRequest sp ops h cached c = Inr (r, c')"
  shows "con_inv sp c'" "requested sp c' = requested sp c" "con_live c' = con_live c"
    "system_backend ops \<Longrightarrow> imbalance c' = imbalance c"
proof -
  have "con_inv sp c' \<and> requested sp c' = requested sp c \<and> con_live c' = con_live c \<and>
     (system_backend ops \<longrightarrow> imbalance c' = imbalance c)"
  proof (cases h)
    case None
    then show ?thesis using assms by (auto simp: getRequest_def con_inv_def requested_def)
  next
    case (Some ptr)
    then obtain hd where hd: "smap_find (con_live c) ptr = Some hd"
      using assms(2) by (auto simp: getRequest_def split: option.splits)
    let ?c0 = "cs_log (''Get request ID:'' @ string_of_u32 (ch_subscription_id hd)) c"
    obtain ps c1 where g: "get_paths sp ops cached (ch_handles hd) [] ?c0 = Inr (ps, c1)" and c': "c' = c1"
      using assms(2) Some hd by (auto simp: getRequest_def Let_def res_bind_Inr_iff)
    note f = get_paths_frame [OF g, of "held (con_live c)"]
    have "consys.more c1 = consys.more c" using f by simp
    note fr = con_frame [OF this]
    show ?thesis using f assms(1) by (simp add: c' con_inv_def fr requested_def)
  qed
  then show "con_inv sp c'" "requested sp c' = requested sp c" "con_live c' = con_live c"
    "system_backend ops \<Longrightarrow> imbalance c' = imbalance c" by auto
qed

section \<open>Runs\<close>

datatype con_op =
    ConAdd u32 "path_msg list"
  | ConRemove "addr option"
  | ConGet "addr option" bool

fun con_step ::
    "(path_msg \<Rightarrow> string) \<Rightarrow> 'b system_ops \<Rightarrow> con_op \<Rightarrow>
     ('b, 'x) consolidator_scheme \<Rightarrow> ('b, 'x) consolidator_scheme res" where
  "con_step sp ops (ConAdd i ps) c =
     res_bind (addRequest sp ops i ps [] c) (\<lambda>(ptr, accepted, c). Inr c)"
| "con_step sp ops (ConRemove h) c = removeRequest sp ops h c"
| "con_step sp ops (ConGet h cached) c =
     res_bind (getRequest sp ops h cached c) (\<lambda>(r, c). Inr c)"

fun con_run ::
    "(path_msg \<Rightarrow> string) \<Rightarrow> 'b system_ops \<Rightarrow> con_op list \<Rightarrow>
     ('b, 'x) consolidator_scheme \<Rightarrow> ('b, 'x) consolidator_scheme res" where
  "con_run sp ops [] c = Inr c"
| "con_run sp ops (x # xs) c = res_bind (con_step sp ops x c) (con_run sp ops xs)"

fun con_cost :: "con_op \<Rightarrow> nat" where
  "con_cost (ConAdd i ps) = length ps"
| "con_cost _ = 0"

lemma con_step_inv:
  assumes "con_inv sp c" and "size (requested sp c) + con_cost x < 2 ^ 64 - 1"
    and "con_step sp ops x c = Inr c'"
  shows "con_inv sp c' \<and> size (requested sp c') \<le> size (requested sp c) + con_cost x \<and>
     (reliable_backend ops \<longrightarrow> imbalance c' = imbalance c)"
proof (cases x)
  case (ConAdd i ps)
  then have "size (requested sp c) + length ps < 2 ^ 64 - 1" using assms(2) by simp
  then show ?thesis
  proof (rule addRequest_inv [OF assms(1), of ps ops i "[]"])
    fix h acc c1
    assume a: "addRequest sp ops i ps [] c = Inr (con_next c, [] @ acc, c1)" "con_inv sp c1"
      "requested sp c1 = mset (map sp acc) + requested sp c" "subseq acc ps"
      "system_backend ops \<Longrightarrow> imbalance c1 = imbalance c"
    then have "c' = c1" using assms(3) ConAdd by simp
    moreover have "length acc \<le> length ps" using a(4) by (rule list_emb_length)
    ultimately show ?thesis
      using a ConAdd reliable_backend.axioms(1) by (auto simp del: size_requested)
  qed
next
  case (ConRemove h)
  show ?thesis
  proof (cases h)
    case None
    then show ?thesis using assms ConRemove
      by (auto simp: removeRequest_def con_inv_def)
  next
    case (Some ptr)
    then obtain hd where hd: "smap_find (con_live c) ptr = Some hd"
      using assms(3) ConRemove by (auto simp: removeRequest_def split: option.splits)
    show ?thesis
      by (rule removeRequest_inv [OF assms(1) hd, of ops])
        (use assms(3) ConRemove Some in \<open>auto simp del: size_requested\<close>)
  qed
next
  case (ConGet h cached)
  then obtain r where "getRequest sp ops h cached c = Inr (r, c')"
    using assms(3) by (auto simp: res_bind_Inr_iff)
  note g = getRequest_inv [OF assms(1) this]
  then show ?thesis using reliable_backend.axioms(1) by (auto simp del: size_requested)
qed

lemma con_run_inv:
  "con_inv sp c \<Longrightarrow> size (requested sp c) + sum_list (map con_cost xs) < 2 ^ 64 - 1 \<Longrightarrow>
   con_run sp ops xs c = Inr c' \<Longrightarrow>
   con_inv sp c' \<and> (reliable_backend ops \<longrightarrow> imbalance c' = imbalance c)"
proof (induction xs arbitrary: c)
  case (Cons x xs)
  from Cons.prems(3) obtain c1 where s: "con_step sp ops x c = Inr c1"
    and r: "con_run sp ops xs c1 = Inr c'" by (auto simp: res_bind_Inr_iff)
  have "size (requested sp c) + con_cost x < 2 ^ 64 - 1" using Cons.prems(2) by simp
  note st = con_step_inv [OF Cons.prems(1) this s]
  then have "size (requested sp c1) + sum_list (map con_cost xs) < 2 ^ 64 - 1"
    using Cons.prems(2) by (simp del: size_requested)
  with Cons.IH [OF _ _ r] st show ?case by simp
qed simp

end
