(* ===== verification/Counter.thy ===== *)
theory Counter
  imports Prelude
begin

text \<open>
  Packet and byte counters (Counter.hpp) and the limits of a subscription
  (AgentSubscriptionLimits.hpp). Times are seconds; \<open>difftime\<close> of two times is their
  difference, exact in a \<open>double\<close> below \<open>2 ^ 53\<close>.
\<close>

section \<open>Counters\<close>

record counter =
  ctr_name :: string
  packets :: u64
  packets_reference :: u64
  bytes :: u64
  bytes_reference :: u64
  packet_rate :: u64
  byte_rate :: u64
  last_update_time :: int
  rate_thread :: bool
  rate_scan_interval :: u32

text \<open>
  The constructor leaves \<open>_last_update_time\<close> uninitialised: it is an argument here. The flag
  \<open>rate_thread\<close> says whether the thread that calls \<open>computeRate\<close> every \<open>_rate_scan_interval\<close>
  seconds runs.
\<close>

definition startRate :: "counter \<Rightarrow> counter" where
  "startRate c = (if \<not> rate_thread c then c\<lparr>rate_thread := True\<rparr> else c)"

text \<open>
  The destructor runs \<open>stopRate\<close> on every counter, also on one without a thread, where the code
  passes a null thread to \<open>pthread_cancel\<close>. POSIX leaves that undefined; it is taken to return
  an error and do nothing.
\<close>

definition stopRate :: "counter \<Rightarrow> counter" where
  "stopRate c = c\<lparr>rate_thread := False\<rparr>"

definition new_counter :: "int \<Rightarrow> string \<Rightarrow> bool \<Rightarrow> counter" where
  "new_counter garbage name enable_rate =
     \<lparr>ctr_name = name, packets = 0, packets_reference = 0, bytes = 0, bytes_reference = 0,
      packet_rate = 0, byte_rate = 0, last_update_time = garbage, rate_thread = enable_rate,
      rate_scan_interval = 1\<rparr>"

definition increment :: "u64 \<Rightarrow> u64 \<Rightarrow> counter \<Rightarrow> counter" where
  "increment n sz c = c\<lparr>packets := packets c + n, bytes := bytes c + sz\<rparr>"

definition decrement :: "u64 \<Rightarrow> u64 \<Rightarrow> counter \<Rightarrow> counter" where
  "decrement n sz c =
     (if packets c < n \<or> bytes c < sz then c
      else c\<lparr>packets := packets c - n, bytes := bytes c - sz\<rparr>)"

text \<open>
  The quotient of an unsigned difference and an elapsed time as \<open>double\<close>s, converted back. It is
  the integer quotient while both are below \<open>2 ^ 53\<close> and the time is positive; otherwise the
  code rounds, or divides by zero, or converts a negative value, and the result is \<open>None\<close>.
\<close>

definition double_quotient :: "u64 \<Rightarrow> int \<Rightarrow> u64 option" where
  "double_quotient d elapsed =
     (if 0 < elapsed \<and> elapsed < 2 ^ 53 \<and> unat d < 2 ^ 53
      then Some (of_nat (unat d div nat elapsed)) else None)"

definition computeRate :: "int \<Rightarrow> counter \<Rightarrow> counter option" where
  "computeRate current c =
     (let elapsed = current - last_update_time c
      in case (double_quotient (packets c - packets_reference c) elapsed,
               double_quotient (bytes c - bytes_reference c) elapsed) of
           (Some p, Some b) \<Rightarrow>
             Some (c\<lparr>last_update_time := current, packet_rate := p, byte_rate := b,
                     packets_reference := packets c, bytes_reference := bytes c\<rparr>)
         | _ \<Rightarrow> None)"

definition enableRate :: "counter \<Rightarrow> counter" where
  "enableRate c = (if \<not> rate_thread c then startRate c else c)"

definition disableRate :: "counter \<Rightarrow> counter" where
  "disableRate c = (if rate_thread c then stopRate c else c)"

definition counter_reset :: "counter \<Rightarrow> counter" where
  "counter_reset c = c\<lparr>packets := 0, bytes := 0, packet_rate := 0, byte_rate := 0\<rparr>"

definition counter_description :: "counter \<Rightarrow> string list" where
  "counter_description c =
     [''Name = '' @ ctr_name c,
      ''packets = '' @ string_of_u64 (packets c) @ '' , bytes = '' @ string_of_u64 (bytes c)] @
     (if rate_thread c then
        [''pps     = '' @ string_of_u64 (packet_rate c) @ '' , Bps = '' @ string_of_u64 (byte_rate c)]
      else [])"

text \<open>Enabling or disabling twice is the same as once: there is never a second thread.\<close>

lemma rate_thread_switch [simp]:
  "enableRate c = c\<lparr>rate_thread := True\<rparr>" "disableRate c = c\<lparr>rate_thread := False\<rparr>"
  by (auto simp: enableRate_def disableRate_def startRate_def stopRate_def)

subsection \<open>Lemmas\<close>

lemma increment_simps [simp]:
  "packets (increment n sz c) = packets c + n" "bytes (increment n sz c) = bytes c + sz"
  "packets_reference (increment n sz c) = packets_reference c"
  "bytes_reference (increment n sz c) = bytes_reference c"
  "packet_rate (increment n sz c) = packet_rate c" "byte_rate (increment n sz c) = byte_rate c"
  "last_update_time (increment n sz c) = last_update_time c"
  "ctr_name (increment n sz c) = ctr_name c" "rate_thread (increment n sz c) = rate_thread c"
  by (simp_all add: increment_def)

text \<open>A counter that has not wrapped around: a decrement takes back an increment.\<close>

lemma decrement_increment:
  assumes "unat (packets c) + unat n < 2 ^ 64" and "unat (bytes c) + unat sz < 2 ^ 64"
  shows "decrement n sz (increment n sz c) = c"
proof -
  have "unat (packets c + n) = unat (packets c) + unat n" "unat (bytes c + sz) = unat (bytes c) + unat sz"
    using assms by (simp_all add: unat_word_ariths)
  then have "\<not> packets c + n < n" "\<not> bytes c + sz < sz"
    by (simp_all add: word_less_nat_alt)
  then show ?thesis by (simp add: decrement_def increment_def)
qed

lemma decrement_le: "packets (decrement n sz c) \<le> packets c \<and> bytes (decrement n sz c) \<le> bytes c"
proof -
  have "a - b \<le> a" if "\<not> a < b" for a b :: u64
    using that by (simp add: word_le_nat_alt word_less_nat_alt unat_sub)
  then show ?thesis by (auto simp: decrement_def)
qed

text \<open>
  The thread: \<open>computeRate\<close> at each wake-up. Between two wake-ups the counter moves by
  increments only.
\<close>

lemma computeRate_after_increments:
  assumes "computeRate t0 c0 = Some c1" and "c2 = increment n sz c1"
    and "0 < dt" "dt < 2 ^ 53" "unat n < 2 ^ 53" "unat sz < 2 ^ 53"
  shows "\<exists>c3. computeRate (t0 + dt) c2 = Some c3 \<and>
    unat (packet_rate c3) = unat n div nat dt \<and> unat (byte_rate c3) = unat sz div nat dt \<and>
    packets c3 = packets c2 \<and> bytes c3 = bytes c2"
proof -
  have q: "unat (of_nat (unat m div nat dt) :: u64) = unat m div nat dt" if "unat m < 2 ^ 53" for m :: u64
    using that le_less_trans [OF div_le_dividend, of "unat m" "2 ^ 64" "nat dt"]
    by (simp add: unat_of_nat take_bit_eq_mod)
  have c1: "last_update_time c1 = t0" "packets_reference c1 = packets c1" "bytes_reference c1 = bytes c1"
    using assms(1) by (auto simp: computeRate_def Let_def split: option.splits)
  then show ?thesis
    using assms(2-) q by (simp add: computeRate_def double_quotient_def)
qed

text \<open>
  \<open>reset\<close> keeps the references of the last snapshot: the difference the next \<open>computeRate\<close>
  divides is the old count taken from zero, modulo \<open>2 ^ 64\<close>.
\<close>

lemma reset_delta:
  "packets (counter_reset c) - packets_reference (counter_reset c) = - packets_reference c"
  by (simp add: counter_reset_def)

lemma unat_negate: "w \<noteq> 0 \<Longrightarrow> unat (- w :: u64) = 2 ^ 64 - unat w"
proof -
  assume w: "w \<noteq> 0"
  have m: "uint w mod 2 ^ 64 = uint w" using uint_lt2p [of w] by simp
  have "uint (- w) = (- uint w) mod 2 ^ 64" by (simp add: uint_word_ariths)
  also have "\<dots> = 2 ^ 64 - uint w mod 2 ^ 64"
    using w m by (subst zmod_zminus1_eq_if) (simp add: uint_0_iff)
  finally have "uint (- w) = 2 ^ 64 - uint w" using m by simp
  then have "unat (- w) = nat (2 ^ 64 - uint w)" by (simp only: unat_eq_nat_uint)
  also have "\<dots> = 2 ^ 64 - unat w" by (simp add: nat_diff_distrib')
  finally show ?thesis .
qed

lemma reset_computeRate:
  assumes "computeRate t0 c0 = Some c1" and "packets c1 \<noteq> 0" "packets c1 < 2 ^ 53"
  shows "computeRate t (counter_reset c1) = None"
proof -
  have c1: "packets_reference c1 = packets c1"
    using assms(1) by (auto simp: computeRate_def Let_def split: option.splits)
  have "unat (packets c1) < 2 ^ 53"
    using assms(3) by (simp add: word_less_nat_alt)
  moreover have "unat (- packets c1) = 2 ^ 64 - unat (packets c1)"
    using assms(2) by (rule unat_negate)
  ultimately have "\<not> unat (- packets c1) < 2 ^ 53" by simp
  then show ?thesis
    by (simp add: computeRate_def counter_reset_def c1 double_quotient_def Let_def split: option.split)
qed

section \<open>Subscription limits\<close>

record subscription_limits =
  lim_records :: u64
  lim_seconds :: u64
  lim_start_time :: int

definition new_limits :: "u64 \<Rightarrow> u64 \<Rightarrow> subscription_limits" where
  "new_limits records seconds = \<lparr>lim_records = records, lim_seconds = seconds, lim_start_time = 0\<rparr>"

definition limits_start :: "int \<Rightarrow> subscription_limits \<Rightarrow> subscription_limits" where
  "limits_start now l = l\<lparr>lim_start_time := now\<rparr>"

definition limits_reset :: "int \<Rightarrow> subscription_limits \<Rightarrow> subscription_limits" where
  "limits_reset now l = limits_start now l"

definition expiredTime :: "int \<Rightarrow> subscription_limits \<Rightarrow> bool" where
  "expiredTime current_time l =
     (if lim_seconds l = 0 then False
      else if current_time - lim_start_time l < uint (lim_seconds l) then False else True)"

definition expiredCount :: "u64 \<Rightarrow> subscription_limits \<Rightarrow> bool" where
  "expiredCount current_records l =
     (if lim_records l = 0 then False
      else if current_records < lim_records l then False else True)"

definition limits_expired :: "int \<Rightarrow> u64 \<Rightarrow> subscription_limits \<Rightarrow> bool" where
  "limits_expired now current_records l =
     (let time_expired = expiredTime now l;
          records_expired = expiredCount current_records l
      in time_expired \<or> records_expired)"

definition limits_description :: "int \<Rightarrow> subscription_limits \<Rightarrow> string list" where
  "limits_description current_time l =
     [''Records = '' @ string_of_u64 (lim_records l), ''Seconds = '' @ string_of_u64 (lim_seconds l)] @
     (if lim_seconds l = 0 then []
      else let elapsed = current_time - lim_start_time l
           in if elapsed < uint (lim_seconds l)
              then [''Time left = '' @ string_of_int (uint (lim_seconds l) - elapsed) @ ''secs'']
              else [''Time expired = '' @ string_of_int (elapsed - uint (lim_seconds l)) @ ''secs''])"

lemma unlimited_never_expires: "\<not> limits_expired now n (new_limits 0 0)"
  by (simp add: limits_expired_def expiredTime_def expiredCount_def new_limits_def)

lemma limits_expired_mono:
  "limits_expired now n l \<Longrightarrow> now \<le> now' \<Longrightarrow> n \<le> n' \<Longrightarrow> limits_expired now' n' l"
  by (auto simp: limits_expired_def expiredTime_def expiredCount_def split: if_splits)

lemma rate_after_reset:
  assumes "computeRate t0 c0 = Some c1" and "packets c1 \<noteq> 0" and "packets c1 < 2 ^ 53"
  shows "computeRate t (counter_reset c1) = None \<and>
    2 ^ 53 \<le> unat (packets (counter_reset c1) - packets_reference (counter_reset c1))"
proof -
  have "packets_reference c1 = packets c1"
    using assms(1) by (auto simp: computeRate_def Let_def split: option.splits)
  moreover have "unat (packets c1) < 2 ^ 53" using assms(3) by (simp add: word_less_nat_alt)
  ultimately show ?thesis
    using reset_computeRate [OF assms] reset_delta [of c1] unat_negate [OF assms(2)] by simp
qed

end
