(* ===== verification/MessageBus.thy ===== *)
theory MessageBus
  imports Counter StdMap ServerLog Messages GlobalConfig
begin

text \<open>
  The message bus client of a subscription (AgentMessageBus.hpp). The mosquitto library is
  called through \<open>connect\<close>, \<open>loop_start\<close>, \<open>subscribe\<close>, \<open>unsubscribe\<close>, \<open>disconnect\<close> and
  \<open>loop_stop\<close>; the state records the calls made, in order. The clock and the uninitialised word
  of a new counter are arguments.
\<close>

section \<open>State\<close>

datatype mqtt_call =
    MqConnect string i32
  | MqLoopStart
  | MqSubscribe string
  | MqUnsubscribe string
  | MqDisconnect
  | MqLoopStop bool

record mqtt =
  mq_name :: string
  mq_limits :: subscription_limits
  limits_reached :: bool
  stats_connect :: u64
  stats_disconnect :: u64
  stats_subscribes :: u64
  stats_unsubscribes :: u64
  mq_messages :: counter
  stats_topics :: "(string, counter) smap"
  mq_calls :: "mqtt_call list"

record mosquitto_message =
  msg_topic :: string
  msg_payload :: "u8 list"

definition payloadlen :: "mosquitto_message \<Rightarrow> u64" where
  "payloadlen m = of_nat (length (msg_payload m))"

definition new_mqtt :: "int \<Rightarrow> string \<Rightarrow> subscription_limits \<Rightarrow> mqtt" where
  "new_mqtt garbage name limits =
     \<lparr>mq_name = name, mq_limits = limits, limits_reached = False, stats_connect = 0,
      stats_disconnect = 0, stats_subscribes = 0, stats_unsubscribes = 0,
      mq_messages = new_counter garbage (''MessageCount-'' @ name) True, stats_topics = [],
      mq_calls = []\<rparr>"

section \<open>Callbacks\<close>

definition Mqtt_on_connect :: "('x mqtt_scheme) \<times> server_log \<Rightarrow> ('x mqtt_scheme) \<times> server_log" where
  "Mqtt_on_connect s = (case s of (m, l) \<Rightarrow>
     (m\<lparr>stats_connect := stats_connect m + 1\<rparr>,
      log_write (''Subscription '' @ mq_name m @ '' MQTT bus connected.'') False l))"

definition Mqtt_on_disconnect :: "('x mqtt_scheme) \<times> server_log \<Rightarrow> ('x mqtt_scheme) \<times> server_log" where
  "Mqtt_on_disconnect s = (case s of (m, l) \<Rightarrow>
     (m\<lparr>stats_disconnect := stats_disconnect m + 1\<rparr>,
      log_write (''Subscription '' @ mq_name m @ '' MQTT bus disconnected.'') False l))"

definition Mqtt_on_subscribe :: "'x mqtt_scheme \<Rightarrow> 'x mqtt_scheme" where
  "Mqtt_on_subscribe m = m\<lparr>stats_subscribes := stats_subscribes m + 1\<rparr>"

definition Mqtt_on_unsubscribe :: "'x mqtt_scheme \<Rightarrow> 'x mqtt_scheme" where
  "Mqtt_on_unsubscribe m = m\<lparr>stats_unsubscribes := stats_unsubscribes m + 1\<rparr>"

text \<open>\<open>if (count(topic) == 0) topics[topic] = Counter(topic); topics[topic].increment(1, size)\<close>.\<close>

definition count_topic ::
    "int \<Rightarrow> ('k::linorder \<Rightarrow> string) \<Rightarrow> 'k \<Rightarrow> u64 \<Rightarrow> ('k, counter) smap \<Rightarrow> ('k, counter) smap" where
  "count_topic garbage show_key topic sz topics =
     (case smap_find topics topic of
        None \<Rightarrow> smap_put topic (increment 1 sz (new_counter garbage (show_key topic) False)) topics
      | Some c \<Rightarrow> smap_put topic (increment 1 sz c) topics)"

definition on_message_count ::
    "int \<Rightarrow> int \<Rightarrow> string \<Rightarrow> mosquitto_message \<Rightarrow>
     ('x mqtt_scheme) \<times> server_log \<Rightarrow> ('x mqtt_scheme) \<times> server_log" where
  "on_message_count now garbage topic msg s = (case s of (m, l) \<Rightarrow>
     (let m = m\<lparr>mq_messages := increment 1 (payloadlen msg) (mq_messages m)\<rparr>;
          m = m\<lparr>stats_topics := count_topic garbage (\<lambda>t. t) topic (payloadlen msg) (stats_topics m)\<rparr>
      in if limits_expired now (packets (mq_messages m)) (mq_limits m) then
           (m\<lparr>limits_reached := True\<rparr>,
            log_write (''Subscription '' @ mq_name m @ '' limits expired'') False l)
         else (m, l)))"

definition Mqtt_on_message ::
    "int \<Rightarrow> int \<Rightarrow> mosquitto_message \<Rightarrow>
     ('x mqtt_scheme) \<times> server_log \<Rightarrow> ('x mqtt_scheme) \<times> server_log" where
  "Mqtt_on_message now garbage msg s = (case s of (m, l) \<Rightarrow>
     (let m = m\<lparr>mq_messages := increment 1 (payloadlen msg) (mq_messages m)\<rparr>;
          m = m\<lparr>stats_topics :=
                  count_topic garbage (\<lambda>t. t) (msg_topic msg) (payloadlen msg) (stats_topics m)\<rparr>
      in if limits_expired now (packets (mq_messages m)) (mq_limits m) then
           (m\<lparr>limits_reached := True\<rparr>,
            log_write (''Subscription '' @ mq_name m @ '' limits expired'') False l)
         else (m, l)))"

section \<open>Statistics\<close>

definition Mqtt_getOperational :: "verbosity_level \<Rightarrow> 'x mqtt_scheme \<Rightarrow> key_value list" where
  "Mqtt_getOperational verbosity m =
     [kv_int ''mqtt-total_message_count'' (packets (mq_messages m)),
      kv_int ''mqtt-total_message_count_rate'' (packet_rate (mq_messages m)),
      kv_int ''mqtt-total_message_bytes'' (bytes (mq_messages m)),
      kv_int ''mqtt-total_message_byte_rate'' (byte_rate (mq_messages m))] @
     (if verbosity = TERSE then []
      else
        [kv_int ''mqtt-message_bus_connects'' (stats_connect m),
         kv_int ''mqtt-message_bus_disconnects'' (stats_disconnect m)] @
        concat (map (\<lambda>(topic, c).
          [kv_int (''mqtt-packets:path:'' @ topic) (packets c),
           kv_int (''mqtt-bytes:path:'' @ topic) (bytes c)]) (stats_topics m)))"

section \<open>Requests to the bus\<close>

definition mq_call :: "mqtt_call \<Rightarrow> 'x mqtt_scheme \<Rightarrow> 'x mqtt_scheme" where
  "mq_call c m = m\<lparr>mq_calls := mq_calls m @ [c]\<rparr>"

definition Subscribe ::
    "string \<Rightarrow> ('x mqtt_scheme) \<times> server_log \<Rightarrow> ('x mqtt_scheme) \<times> server_log" where
  "Subscribe resource s = (case s of (m, l) \<Rightarrow>
     (mq_call (MqSubscribe resource) m,
      log_write (''Subscription '' @ mq_name m @ '' MQTT subscribe path: '' @ resource) False l))"

definition unSubscribe ::
    "string \<Rightarrow> ('x mqtt_scheme) \<times> server_log \<Rightarrow> ('x mqtt_scheme) \<times> server_log" where
  "unSubscribe resource s = (case s of (m, l) \<Rightarrow>
     (mq_call (MqUnsubscribe resource) m,
      log_write (''Subscription '' @ mq_name m @ '' MQTT unsubscribe path: '' @ resource) False l))"

definition BusConnect ::
    "global_config \<Rightarrow> ('x mqtt_scheme) \<times> server_log \<Rightarrow> ('x mqtt_scheme) \<times> server_log" where
  "BusConnect gc s = (case s of (m, l) \<Rightarrow>
     (mq_call MqLoopStart (mq_call (MqConnect (mqtt_broker_ip gc) (mqtt_broker_port gc)) m),
      log_write (''Subscription '' @ mq_name m @ '' initiating MQTT bus connection.'') False l))"

section \<open>Lemmas\<close>

text \<open>
  The totals of a bus client agree with its per-topic counters, modulo \<open>2 ^ 64\<close> as the counters
  are.
\<close>

definition topic_totals :: "('k, counter) smap \<Rightarrow> u64 \<times> u64" where
  "topic_totals topics =
     (sum_list (map (packets \<circ> snd) topics), sum_list (map (bytes \<circ> snd) topics))"

definition mqtt_inv :: "'x mqtt_scheme \<Rightarrow> bool" where
  "mqtt_inv m \<longleftrightarrow> smap_ok (stats_topics m) \<and>
     topic_totals (stats_topics m) = (packets (mq_messages m), bytes (mq_messages m))"

lemma mqtt_inv_new [simp]: "mqtt_inv (new_mqtt g n l)"
  by (simp add: mqtt_inv_def new_mqtt_def topic_totals_def new_counter_def)

lemma sum_list_smap_put:
  fixes f :: "'v \<Rightarrow> 'a::ab_group_add"
  shows "smap_ok m \<Longrightarrow> sum_list (map (f \<circ> snd) (smap_put k v m)) =
    sum_list (map (f \<circ> snd) m) + f v - (case smap_find m k of None \<Rightarrow> 0 | Some w \<Rightarrow> f w)"
proof (induction k v m rule: smap_put.induct)
  case (2 k v k' v' m)
  have above: "k < k' \<Longrightarrow> smap_find m k = None"
    using "2.prems" by (auto simp: smap_ok_Cons smap_find_def map_of_eq_None_iff)
  show ?case
    using 2 above by (auto simp: smap_ok_Cons smap_find_def algebra_simps split: option.splits)
qed simp

lemma count_topic_totals:
  "smap_ok t \<Longrightarrow> smap_ok (count_topic g sk k sz t) \<and>
   topic_totals (count_topic g sk k sz t) = (fst (topic_totals t) + 1, snd (topic_totals t) + sz)"
  by (auto simp: count_topic_def topic_totals_def sum_list_smap_put std_map.ok_put new_counter_def
      split: option.split)

lemma on_message_count_inv:
  "mqtt_inv m \<Longrightarrow> mqtt_inv (fst (on_message_count now g topic msg (m, l)))"
  "mqtt_inv m \<Longrightarrow> mqtt_inv (fst (Mqtt_on_message now g msg (m, l)))"
  using count_topic_totals [of "stats_topics m"]
  by (simp_all add: on_message_count_def Mqtt_on_message_def mqtt_inv_def Let_def)

lemma on_message_count_simps:
  "packets (mq_messages (fst (on_message_count now g topic msg (m, l)))) = packets (mq_messages m) + 1"
  "bytes (mq_messages (fst (on_message_count now g topic msg (m, l)))) = bytes (mq_messages m) + payloadlen msg"
  "limits_reached (fst (on_message_count now g topic msg (m, l))) \<longleftrightarrow>
     limits_reached m \<or> limits_expired now (packets (mq_messages m) + 1) (mq_limits m)"
  "mq_limits (fst (on_message_count now g topic msg (m, l))) = mq_limits m"
  "mq_calls (fst (on_message_count now g topic msg (m, l))) = mq_calls m"
  by (simp_all add: on_message_count_def Let_def)

lemma mqtt_inv_other:
  "mqtt_inv (fst (Mqtt_on_connect (m, l))) = mqtt_inv m"
  "mqtt_inv (fst (Mqtt_on_disconnect (m, l))) = mqtt_inv m"
  "mqtt_inv (Mqtt_on_subscribe m) = mqtt_inv m" "mqtt_inv (Mqtt_on_unsubscribe m) = mqtt_inv m"
  "mqtt_inv (mq_call c m) = mqtt_inv m"
  by (simp_all add: mqtt_inv_def Mqtt_on_connect_def Mqtt_on_disconnect_def Mqtt_on_subscribe_def
      Mqtt_on_unsubscribe_def mq_call_def)

text \<open>
  A stream of messages: the limit on records is reached exactly when that many messages were
  counted (the limits are checked with each message, after counting it).
\<close>

fun count_stream ::
    "(int \<times> string \<times> mosquitto_message) list \<Rightarrow> int \<Rightarrow> mqtt \<times> server_log \<Rightarrow> mqtt \<times> server_log" where
  "count_stream [] g s = s"
| "count_stream ((now, topic, msg) # xs) g s = count_stream xs g (on_message_count now g topic msg s)"

lemma count_stream_packets:
  "packets (mq_messages (fst (count_stream xs g s))) = packets (mq_messages (fst s)) + of_nat (length xs) \<and>
   mq_limits (fst (count_stream xs g s)) = mq_limits (fst s)"
proof (induction xs g s rule: count_stream.induct)
  case (2 now topic msg xs g s)
  obtain m l where "s = (m, l)" by (cases s)
  with 2 show ?case by (simp add: on_message_count_simps)
qed simp

lemma count_stream_inv: "mqtt_inv (fst s) \<Longrightarrow> mqtt_inv (fst (count_stream xs g s))"
proof (induction xs g s rule: count_stream.induct)
  case (2 now topic msg xs g s)
  obtain m l where "s = (m, l)" by (cases s)
  with 2 show ?case by (simp add: on_message_count_inv)
qed simp

lemma count_stream_reached:
  "unat (packets (mq_messages (fst s))) + length xs < 2 ^ 64 \<Longrightarrow> lim_seconds (mq_limits (fst s)) = 0 \<Longrightarrow>
   lim_records (mq_limits (fst s)) = r \<Longrightarrow> r \<noteq> 0 \<Longrightarrow>
   limits_reached (fst s) = (unat r \<le> unat (packets (mq_messages (fst s)))) \<Longrightarrow>
   limits_reached (fst (count_stream xs g s)) \<longleftrightarrow>
     unat r \<le> unat (packets (mq_messages (fst s))) + length xs"
proof (induction xs g s rule: count_stream.induct)
  case (2 now topic msg xs g s)
  obtain m l where s: "s = (m, l)" by (cases s)
  let ?s = "on_message_count now g topic msg s"
  have u: "unat (packets (mq_messages m) + 1) = Suc (unat (packets (mq_messages m)))"
    using "2.prems"(1) s by (intro unat_Suc_word) simp
  have exp: "limits_expired now (packets (mq_messages m) + 1) (mq_limits m) \<longleftrightarrow>
      unat r \<le> Suc (unat (packets (mq_messages m)))"
    using "2.prems" s u
    by (auto simp: limits_expired_def expiredTime_def expiredCount_def word_less_nat_alt)
  have p: "unat (packets (mq_messages (fst ?s))) = Suc (unat (packets (mq_messages (fst s))))"
    using u s by (simp add: on_message_count_simps)
  have "limits_reached (fst (count_stream xs g ?s)) \<longleftrightarrow>
      unat r \<le> unat (packets (mq_messages (fst ?s))) + length xs"
    using "2.prems" s u exp p by (intro "2.IH") (auto simp: on_message_count_simps)
  then show ?case using p by simp
qed simp

end
