(* ===== verification/Subscription.thy ===== *)
theory Subscription
  imports Consolidator MessageBus Translators
begin

text \<open>
  A client's subscription (AgentSubscription.hpp, AgentSubscription.cpp) and the transport to its
  collector (AgentServerTransport.hpp). A subscription is a bus client: its record extends the
  bus client's. It points to its consolidator handle and to its transport; the transport is an
  object of its own, shared with the UDP worker, and is passed beside the subscription. Parsing
  of the protocol buffer stream is a parameter; the clock is an argument.
\<close>

section \<open>Transport\<close>

text \<open>
  \<open>tr_context\<close>: the server context, null (\<open>None\<close>) or with its answer to \<open>IsCancelled\<close>.
  \<open>tr_writer\<close>: the writer, null or with the messages written to it.
\<close>

record transport =
  tr_context :: "bool option"
  tr_writer :: "open_config_data list option"

definition new_transport :: "bool option \<Rightarrow> open_config_data list option \<Rightarrow> transport" where
  "new_transport context writer = \<lparr>tr_context = context, tr_writer = writer\<rparr>"

definition transport_write :: "open_config_data \<Rightarrow> transport \<Rightarrow> transport" where
  "transport_write d t =
     (case tr_writer t of None \<Rightarrow> t | Some out \<Rightarrow> t\<lparr>tr_writer := Some (out @ [d])\<rparr>)"

section \<open>State\<close>

record subscription = mqtt +
  sub_id :: u32
  sub_path_list :: "string list"
  sub_transport :: addr
  sub_system_subscription :: "addr option"
  sub_oc_lookup_failures :: u64
  sub_stream_alloc_failures :: u64
  sub_stream_parse_failures :: u64
  sub_active :: bool

text \<open>The constructor leaves \<open>_active\<close> (and the clock of the counter) as they are in memory.\<close>

definition new_subscription ::
    "int \<Rightarrow> bool \<Rightarrow> string \<Rightarrow> u32 \<Rightarrow> addr \<Rightarrow> addr \<Rightarrow> string list \<Rightarrow> subscription_limits \<Rightarrow> subscription" where
  "new_subscription garbage garbage_active name i system_handle tr paths limits =
     mqtt.extend (new_mqtt garbage name limits)
       \<lparr>sub_id = i, sub_path_list = paths, sub_transport = tr,
        sub_system_subscription = Some system_handle, sub_oc_lookup_failures = 0,
        sub_stream_alloc_failures = 0, sub_stream_parse_failures = 0,
        sub_active = garbage_active\<rparr>"

section \<open>The store of subscriptions\<close>

type_synonym sub_store = "(u32, addr) smap"

definition createSubscription ::
    "int \<Rightarrow> bool \<Rightarrow> u32 \<Rightarrow> addr \<Rightarrow> addr \<Rightarrow> string list \<Rightarrow> subscription_limits \<Rightarrow> string option \<Rightarrow>
     addr \<Rightarrow> (addr \<Rightarrow> subscription) \<times> sub_store \<Rightarrow> (addr \<Rightarrow> subscription) \<times> sub_store" where
  "createSubscription garbage garbage_active i system_handle tr paths limits name a s =
     (case s of (subs, store) \<Rightarrow>
        let client_name = (case name of None \<Rightarrow> ''client-'' @ string_of_u32 i | Some n \<Rightarrow> n)
        in (subs(a := new_subscription garbage garbage_active client_name i system_handle tr paths limits),
            smap_put i a store))"

definition deleteSubscription :: "u32 \<Rightarrow> sub_store \<Rightarrow> sub_store" where
  "deleteSubscription i store =
     (case smap_find store i of None \<Rightarrow> store | Some a \<Rightarrow> smap_erase i store)"

definition findSubscription :: "u32 \<Rightarrow> sub_store \<Rightarrow> addr option" where
  "findSubscription i store = smap_find store i"

definition getFirst :: "sub_store \<Rightarrow> addr option" where
  "getFirst store = map_option snd (smap_begin store)"

definition getNext :: "u32 \<Rightarrow> sub_store \<Rightarrow> addr option" where
  "getNext i store = map_option snd (smap_upper i store)"

section \<open>Topics\<close>

text \<open>
  The topics of a subscription: its paths, or \<open>"/"\<close> with the internal id of each system handle;
  none under another topic name. Both \<open>on_connect\<close> and \<open>disable\<close> go through them.
\<close>

definition system_ids :: "('b, 'x) consolidator_scheme \<Rightarrow> addr option \<Rightarrow> u32 list res" where
  "system_ids c ptr =
     (case ptr of
        None \<Rightarrow> Inl NullPointer
      | Some p \<Rightarrow>
          (case smap_find (con_live c) p of
             None \<Rightarrow> Inl UseAfterFree
           | Some h \<Rightarrow> Inr (map (\<lambda>a. h_internal_subscription_id (cs_heap c a)) (ch_handles h))))"

definition sub_topics ::
    "global_config \<Rightarrow> ('b, 'x) consolidator_scheme \<Rightarrow> subscription \<Rightarrow> string list res" where
  "sub_topics gc c sub =
     (if subscribe_topic_name gc = TOPIC_PATH then Inr (sub_path_list sub)
      else if subscribe_topic_name gc = TOPIC_INTERNAL_SUB_ID then
        res_bind (system_ids c (sub_system_subscription sub)) (\<lambda>is.
          Inr (map (\<lambda>i. CHR ''/'' # string_of_u32 i) is))
      else Inr [])"

definition sub_on_connect ::
    "global_config \<Rightarrow> ('b, 'x) consolidator_scheme \<Rightarrow> subscription \<times> server_log \<Rightarrow>
     (subscription \<times> server_log) res" where
  "sub_on_connect gc c s =
     (case s of (sub, l) \<Rightarrow>
        let l = log_write (''Subscribing for  '' @ mq_name sub) False l
        in res_bind (sub_topics gc c sub) (\<lambda>ts. Inr (foldl (\<lambda>s t. Subscribe t s) (sub, l) ts)))"

definition sub_enable ::
    "global_config \<Rightarrow> subscription \<times> server_log \<Rightarrow> subscription \<times> server_log" where
  "sub_enable gc s = BusConnect gc s"

definition sub_disable ::
    "global_config \<Rightarrow> ('b, 'x) consolidator_scheme \<Rightarrow> subscription \<times> server_log \<Rightarrow>
     (subscription \<times> server_log) res" where
  "sub_disable gc c s =
     res_bind (sub_topics gc c (fst s)) (\<lambda>ts. Inr (foldl (\<lambda>s t. unSubscribe t s) s ts))"

definition sub_expired :: "subscription \<Rightarrow> bool" where
  "sub_expired sub = limits_reached sub"

definition setActive :: "bool \<Rightarrow> subscription \<Rightarrow> subscription" where
  "setActive v sub = sub\<lparr>sub_active := v\<rparr>"

text \<open>The transport pointer of a subscription of the server is not null.\<close>

definition getClientDisconnects :: "transport \<Rightarrow> bool" where
  "getClientDisconnects t = (case tr_context t of None \<Rightarrow> True | Some cancelled \<Rightarrow> cancelled)"

section \<open>Messages from the bus\<close>

text \<open>
  The path a message is counted under. A topic that is not a number reads as internal id 0, and
  so matches a handle whose internal id is 0.
\<close>

fun path_of_isid ::
    "('b, 'x) consolidator_scheme \<Rightarrow> u32 \<Rightarrow> addr list \<Rightarrow> string" where
  "path_of_isid c n [] = ''not_found''"
| "path_of_isid c n (a # as) =
     (if h_internal_subscription_id (cs_heap c a) = n then p_path (h_path (cs_heap c a))
      else path_of_isid c n as)"

definition count_path ::
    "global_config \<Rightarrow> ('b, 'x) consolidator_scheme \<Rightarrow> subscription \<Rightarrow> string \<Rightarrow> string res" where
  "count_path gc c sub topic =
     (if subscribe_topic_name gc = TOPIC_PATH then Inr topic
      else if subscribe_topic_name gc = TOPIC_INTERNAL_SUB_ID then
        let isid_str = drop 1 topic;
            n = (case stoi isid_str of Inr v \<Rightarrow> of_int v | Inl e \<Rightarrow> 0)
        in (case sub_system_subscription sub of
              None \<Rightarrow> Inl NullPointer
            | Some p \<Rightarrow>
                (case smap_find (con_live c) p of
                   None \<Rightarrow> Inl UseAfterFree
                 | Some h \<Rightarrow> Inr (path_of_isid c n (ch_handles h))))
      else Inr ''not_found'')"

definition count_message ::
    "global_config \<Rightarrow> int \<Rightarrow> int \<Rightarrow> ('b, 'x) consolidator_scheme \<Rightarrow> mosquitto_message \<Rightarrow>
     subscription \<times> server_log \<Rightarrow> (subscription \<times> server_log) res" where
  "count_message gc now garbage c msg s =
     res_bind (count_path gc c (fst s) (msg_topic msg)) (\<lambda>curr_path.
       Inr (on_message_count now garbage curr_path msg s))"

text \<open>The header of the collector's message, from the stream and the topic.\<close>

definition oc_header :: "global_config \<Rightarrow> string \<Rightarrow> telemetry_stream \<Rightarrow> open_config_data" where
  "oc_header gc topic st =
     \<lparr>oc_system_id = ts_system_id st, oc_component_id = ts_component_id st,
      oc_sub_component_id = ts_sub_component_id st,
      oc_path = (if subscribe_topic_name gc = TOPIC_PATH then topic
                 else if subscribe_topic_name gc = TOPIC_INTERNAL_SUB_ID then ts_sensor_name st
                 else []),
      oc_sequence_number = ucast (ts_sequence_number st), oc_timestamp = ts_timestamp st,
      oc_kv = []\<rparr>"

definition sub_on_message ::
    "global_config \<Rightarrow> oc_registry \<Rightarrow> (u8 list \<Rightarrow> telemetry_stream option) \<Rightarrow> int \<Rightarrow> int \<Rightarrow> int \<Rightarrow>
     ('b, 'x) consolidator_scheme \<Rightarrow> mosquitto_message \<Rightarrow>
     subscription \<times> transport \<times> server_log \<Rightarrow> (subscription \<times> transport \<times> server_log) res" where
  "sub_on_message gc reg parse now usec garbage c msg s =
     (case s of (sub, t, l) \<Rightarrow>
        res_bind (count_message gc now garbage c msg (sub, l)) (\<lambda>(sub, l).
        case parse (msg_payload msg) of
          None \<Rightarrow>
            Inr (sub\<lparr>sub_stream_parse_failures := sub_stream_parse_failures sub + 1\<rparr>, t, l)
        | Some st \<Rightarrow>
            (let oc_data = oc_header gc (msg_topic msg) st
             in case oc_find (get_oc_extension_type (ts_sensors st)) reg of
                  None \<Rightarrow>
                    Inr (sub\<lparr>sub_oc_lookup_failures := sub_oc_lookup_failures sub + 1\<rparr>, t, l)
                | Some oc \<Rightarrow>
                    (let oc_data = insertExportTimestamp now usec oc_data;
                         oc_data = iterate oc (ts_sensors st) oc_data
                     in Inr (sub, if sub_active sub then transport_write oc_data t else t, l)))))"

section \<open>Statistics\<close>

definition sub_getOperational :: "verbosity_level \<Rightarrow> subscription \<Rightarrow> key_value list" where
  "sub_getOperational verbosity sub =
     Mqtt_getOperational verbosity sub @
     (if verbosity = TERSE then []
      else
        [kv_int ''mqtt-translation_failures'' (sub_oc_lookup_failures sub),
         kv_int ''mqtt-stream_open_failures'' (sub_stream_alloc_failures sub),
         kv_int ''mqtt-stream_parse_failures'' (sub_stream_parse_failures sub)])"

section \<open>Lemmas\<close>

lemma transport_write_simps [simp]:
  "tr_context (transport_write d t) = tr_context t"
  "tr_writer (transport_write d t) = map_option (\<lambda>out. out @ [d]) (tr_writer t)"
  by (simp_all add: transport_write_def split: option.split)

text \<open>Subscribing to a list of topics: one call each, in order, and nothing else changes.\<close>

lemma Subscribe_all:
  "\<exists>l'. foldl (\<lambda>s t. Subscribe t s) (m, l) ts = (m\<lparr>mq_calls := mq_calls m @ map MqSubscribe ts\<rparr>, l')"
proof (induction ts arbitrary: m l)
  case (Cons t ts)
  obtain l1 where "Subscribe t (m, l) = (m\<lparr>mq_calls := mq_calls m @ [MqSubscribe t]\<rparr>, l1)"
    by (simp add: Subscribe_def mq_call_def)
  then show ?case using Cons [of "m\<lparr>mq_calls := mq_calls m @ [MqSubscribe t]\<rparr>" l1] by simp
qed simp

lemma unSubscribe_all:
  "\<exists>l'. foldl (\<lambda>s t. unSubscribe t s) (m, l) ts = (m\<lparr>mq_calls := mq_calls m @ map MqUnsubscribe ts\<rparr>, l')"
proof (induction ts arbitrary: m l)
  case (Cons t ts)
  obtain l1 where "unSubscribe t (m, l) = (m\<lparr>mq_calls := mq_calls m @ [MqUnsubscribe t]\<rparr>, l1)"
    by (simp add: unSubscribe_def mq_call_def)
  then show ?case using Cons [of "m\<lparr>mq_calls := mq_calls m @ [MqUnsubscribe t]\<rparr>" l1] by simp
qed simp

lemma sub_on_connect_calls:
  "sub_topics gc c sub = Inr ts \<Longrightarrow>
   \<exists>l'. sub_on_connect gc c (sub, l) = Inr (sub\<lparr>mq_calls := mq_calls sub @ map MqSubscribe ts\<rparr>, l')"
  using Subscribe_all [of sub _ ts] by (simp add: sub_on_connect_def Let_def)

lemma sub_disable_calls:
  "sub_topics gc c sub = Inr ts \<Longrightarrow>
   \<exists>l'. sub_disable gc c (sub, l) = Inr (sub\<lparr>mq_calls := mq_calls sub @ map MqUnsubscribe ts\<rparr>, l')"
  using unSubscribe_all [of sub _ ts] by (simp add: sub_disable_def)

text \<open>The topics of a subscription whose consolidator handle is live.\<close>

lemma sub_topics_live:
  "sub_system_subscription sub = Some p \<Longrightarrow> smap_find (con_live c) p = Some h \<Longrightarrow>
   \<exists>ts. sub_topics gc c sub = Inr ts"
  by (simp add: sub_topics_def system_ids_def)

lemma sub_topics_cong:
  "sub_path_list sub' = sub_path_list sub \<Longrightarrow>
   sub_system_subscription sub' = sub_system_subscription sub \<Longrightarrow>
   sub_topics gc c sub' = sub_topics gc c sub"
  by (simp add: sub_topics_def)

text \<open>What a bus message does: it is counted, and either refused and counted as such, or sent.\<close>

definition exported :: "global_config \<Rightarrow> int \<Rightarrow> int \<Rightarrow> string \<Rightarrow> telemetry_stream \<Rightarrow> translator \<Rightarrow> open_config_data" where
  "exported gc now usec topic st oc =
     add_kvs (kv_uint ''__timestamp__'' ((of_int now :: u64) * 1000 + of_int (usec div 1000)) #
              translation oc (ts_component_id st) (ts_sensors st)) (oc_header gc topic st)"

lemma exported_iterate:
  "iterate oc (ts_sensors st) (insertExportTimestamp now usec (oc_header gc topic st)) =
   exported gc now usec topic st oc"
  by (simp add: insertExportTimestamp_def Let_def oc.after_add exported_def oc_header_def)

lemma sub_on_message_cases:
  assumes "count_path gc c sub (msg_topic msg) = Inr path"
  obtains sub1 l1 where "on_message_count now garbage path msg (sub, l) = (sub1, l1)"
    "sub_on_message gc (lib_oc_init []) parse now usec garbage c msg (sub, t, l) = Inr
      (case parse (msg_payload msg) of
         None \<Rightarrow> (sub1\<lparr>sub_stream_parse_failures := sub_stream_parse_failures sub1 + 1\<rparr>, t, l1)
       | Some st \<Rightarrow>
           (case find (\<lambda>oc. present oc (ts_sensors st)) translators of
              None \<Rightarrow> (sub1\<lparr>sub_oc_lookup_failures := sub_oc_lookup_failures sub1 + 1\<rparr>, t, l1)
            | Some oc \<Rightarrow>
                (sub1, if sub_active sub1 then transport_write (exported gc now usec (msg_topic msg) st oc) t
                       else t, l1)))"
proof -
  obtain sub1 l1 where 1: "on_message_count now garbage path msg (sub, l) = (sub1, l1)" by fastforce
  show ?thesis
    by (rule that [OF 1])
      (use 1 assms oc_lookup_first in
       \<open>auto simp: sub_on_message_def count_message_def exported_iterate Let_def oc_lookup_def
          split: option.split\<close>)
qed

lemma on_message_count_sub [simp]:
  "sub_active (fst (on_message_count now g path msg (sub, l))) = sub_active sub"
  "sub_id (fst (on_message_count now g path msg (sub, l))) = sub_id sub"
  "sub_transport (fst (on_message_count now g path msg (sub, l))) = sub_transport sub"
  "sub_path_list (fst (on_message_count now g path msg (sub, l))) = sub_path_list sub"
  "sub_system_subscription (fst (on_message_count now g path msg (sub, l))) = sub_system_subscription sub"
  "sub_oc_lookup_failures (fst (on_message_count now g path msg (sub, l))) = sub_oc_lookup_failures sub"
  "sub_stream_parse_failures (fst (on_message_count now g path msg (sub, l))) = sub_stream_parse_failures sub"
  by (simp_all add: on_message_count_def Let_def)

lemma count_path_live:
  "sub_system_subscription sub = Some p \<Longrightarrow> smap_find (con_live c) p = Some h \<Longrightarrow>
   \<exists>path. count_path gc c sub topic = Inr path"
  by (simp add: count_path_def Let_def)

text \<open>What every message leaves alone, whatever its outcome.\<close>

lemma sub_on_message_frame:
  assumes "count_path gc c sub (msg_topic msg) = Inr path"
  obtains sub' t' l' where
    "sub_on_message gc reg parse now usec garbage c msg (sub, t, l) = Inr (sub', t', l')"
    "sub_id sub' = sub_id sub" "sub_system_subscription sub' = sub_system_subscription sub"
    "sub_transport sub' = sub_transport sub" "sub_active sub' = sub_active sub"
    "limits_reached sub \<Longrightarrow> limits_reached sub'" "tr_context t' = tr_context t"
proof -
  obtain sub1 l1 where 1: "on_message_count now garbage path msg (sub, l) = (sub1, l1)" by fastforce
  then have f: "sub_id sub1 = sub_id sub" "sub_system_subscription sub1 = sub_system_subscription sub"
    "sub_transport sub1 = sub_transport sub" "sub_active sub1 = sub_active sub"
    "limits_reached sub \<longrightarrow> limits_reached sub1"
    using on_message_count_sub [of now garbage path msg sub l]
      on_message_count_simps(3) [of now garbage path msg sub l] by simp_all
  have "\<exists>sub' t' l'. sub_on_message gc reg parse now usec garbage c msg (sub, t, l) = Inr (sub', t', l') \<and>
    sub_id sub' = sub_id sub \<and> sub_system_subscription sub' = sub_system_subscription sub \<and>
    sub_transport sub' = sub_transport sub \<and> sub_active sub' = sub_active sub \<and>
    (limits_reached sub \<longrightarrow> limits_reached sub') \<and> tr_context t' = tr_context t"
    using 1 assms f
    by (auto simp: sub_on_message_def count_message_def Let_def split: option.split)
  then show thesis using that by blast
qed

text \<open>The path of an internal id held by the subscription.\<close>

lemma path_of_isid_held:
  "a \<in> set as \<Longrightarrow> inj_on (isid c) (set as) \<Longrightarrow> path_of_isid c (isid c a) as = p_path (h_path (cs_heap c a))"
  by (induction as) (auto simp: isid_def inj_on_def)

lemma path_of_isid_absent: "n \<notin> isid c ` set as \<Longrightarrow> path_of_isid c n as = ''not_found''"
  by (induction as) (auto simp: isid_def)

section \<open>The store\<close>

text \<open>
  The loop \<open>for (sub = getFirst(); sub; sub = getNext(sub->getId()))\<close>: the subscriptions it
  visits, in order.
\<close>

definition all_subscriptions :: "(addr \<Rightarrow> subscription) \<Rightarrow> sub_store \<Rightarrow> addr list option" where
  "all_subscriptions subs store = walk_from (\<lambda>a. sub_id (subs a)) store (smap_begin store)"

lemma all_subscriptions_complete:
  "smap_ok store \<Longrightarrow> (\<And>i a. smap_find store i = Some a \<Longrightarrow> sub_id (subs a) = i) \<Longrightarrow>
   all_subscriptions subs store = Some (map snd store)"
  by (auto simp: all_subscriptions_def smap_find_set intro!: walk_all)

lemma store_after_create_delete:
  "smap_ok store \<Longrightarrow> findSubscription i store = None \<Longrightarrow>
   deleteSubscription i (snd (createSubscription g ga i h t ps lims n a (subs, store))) = store"
  by (simp add: createSubscription_def deleteSubscription_def findSubscription_def Let_def
      smap_find_put smap_erase_put)

end
