(* ===== verification/UdpReceiver.thy ===== *)
theory UdpReceiver
  imports Subscription
begin

text \<open>
  The UDP path (AgentSubscriptionUdpWorker.hpp and .cpp, UdpReceiver.hpp and .cpp). A receiver
  thread reads packets, finds the subscriptions of the packet's internal id and puts the payload
  on the queue of each subscription's worker; a worker thread takes packets from its queue,
  decodes them and writes them to the collector. The store \<open>store2\<close> maps subscription ids to
  workers; the receiver has its own map of workers and, for every internal id, the list of
  subscription ids it goes to. Socket calls, decoding and the thread scheduler are the
  environment.
\<close>

section \<open>Workers\<close>

record udp_worker =
  wk_id :: u32
  wk_name :: string
  wk_path_list :: "string list"
  wk_transport :: addr
  wk_system_subscription :: "addr option"
  wk_dont_terminate :: bool
  wk_q :: "u8 list list"
  wk_total_pkt_recvd :: u64
  wk_messages :: counter
  wk_stats_topics :: "(string, counter) smap"

definition new_udp_worker :: "int \<Rightarrow> u32 \<Rightarrow> addr \<Rightarrow> addr \<Rightarrow> string list \<Rightarrow> udp_worker" where
  "new_udp_worker garbage i system_handle tr paths =
     (let name = ''client-'' @ string_of_u32 i
      in \<lparr>wk_id = i, wk_name = name, wk_path_list = paths, wk_transport = tr,
          wk_system_subscription = Some system_handle, wk_dont_terminate = True, wk_q = [],
          wk_total_pkt_recvd = 0,
          wk_messages = new_counter garbage (''MessageCount-'' @ name) True, wk_stats_topics = []\<rparr>)"

type_synonym worker_store = "(u32, addr) smap"

definition createSubscriptionUdpWorker ::
    "int \<Rightarrow> u32 \<Rightarrow> addr \<Rightarrow> addr \<Rightarrow> string list \<Rightarrow> addr \<Rightarrow>
     (addr \<Rightarrow> udp_worker) \<times> worker_store \<Rightarrow> (addr \<Rightarrow> udp_worker) \<times> worker_store" where
  "createSubscriptionUdpWorker garbage i system_handle tr paths a s =
     (case s of (workers, store2) \<Rightarrow>
        (workers(a := new_udp_worker garbage i system_handle tr paths), smap_put i a store2))"

definition deleteUdpSubscription :: "u32 \<Rightarrow> worker_store \<Rightarrow> worker_store" where
  "deleteUdpSubscription i store2 =
     (case smap_find store2 i of None \<Rightarrow> store2 | Some a \<Rightarrow> smap_erase i store2)"

definition findUdpSubscription :: "u32 \<Rightarrow> worker_store \<Rightarrow> addr option" where
  "findUdpSubscription i store2 = smap_find store2 i"

definition setTerminate :: "udp_worker \<Rightarrow> udp_worker" where
  "setTerminate w = w\<lparr>wk_dont_terminate := False\<rparr>"

text \<open>
  One round of the worker's loop: \<open>None\<close> while it waits for its queue. \<open>parse\<close> is what the message
  holds after \<open>ParseFromArray\<close>, whose result the code does not look at.
\<close>

definition worker_round ::
    "(u8 list \<Rightarrow> open_config_data) \<Rightarrow> udp_worker \<times> transport \<Rightarrow> (udp_worker \<times> transport) option" where
  "worker_round parse s =
     (case s of (w, t) \<Rightarrow>
        case wk_q w of
          [] \<Rightarrow> if wk_dont_terminate w then None else Some (w, t)
        | pkt # rest \<Rightarrow>
            (let w = w\<lparr>wk_messages := increment 1 (of_nat (length pkt)) (wk_messages w)\<rparr>;
                 w = w\<lparr>wk_total_pkt_recvd := wk_total_pkt_recvd w + 1\<rparr>;
                 oc_data = parse pkt;
                 t = (if wk_dont_terminate w then transport_write oc_data t else t)
             in Some (w\<lparr>wk_q := rest\<rparr>, t)))"

text \<open>The worker's loop until it waits or has been told to stop.\<close>

fun worker_loop ::
    "(u8 list \<Rightarrow> open_config_data) \<Rightarrow> nat \<Rightarrow> udp_worker \<times> transport \<Rightarrow> udp_worker \<times> transport" where
  "worker_loop parse 0 s = s"
| "worker_loop parse (Suc n) s =
     (if \<not> wk_dont_terminate (fst s) then s
      else case worker_round parse s of None \<Rightarrow> s | Some s' \<Rightarrow> worker_loop parse n s')"

definition getOperational_path :: "udp_worker \<Rightarrow> key_value list" where
  "getOperational_path w =
     concat (map (\<lambda>(topic, c).
       [kv_int (''udp-packets:path:'' @ topic) (packets c),
        kv_int (''udp-packet_rates:path:'' @ topic) (packet_rate c),
        kv_int (''udp-bytes:path:'' @ topic) (bytes c),
        kv_int (''udp-byte_rates:path:'' @ topic) (byte_rate c)]) (wk_stats_topics w))"

definition udp_getOperational :: "verbosity_level \<Rightarrow> udp_worker \<Rightarrow> key_value list" where
  "udp_getOperational verbosity w =
     [kv_int ''udp-total_pkt_received'' (wk_total_pkt_recvd w),
      kv_int ''udp-total_message_count'' (packets (wk_messages w)),
      kv_int ''udp-total_message_count_rate'' (packet_rate (wk_messages w)),
      kv_int ''udp-total_message_bytes'' (bytes (wk_messages w)),
      kv_int ''udp-total_message_byte_rate'' (byte_rate (wk_messages w))] @
     (if verbosity = TERSE then [] else getOperational_path w)"

section \<open>The receiver\<close>

definition PACKET_SIZE :: nat where
  "PACKET_SIZE = 65535"

text \<open>External ids are \<open>int\<close> in the lists and unsigned as keys; both are the same word.\<close>

record udp_receiver =
  ur_ext_id_worker_store :: "(u32, addr) smap"
  ur_int_to_ext_list_store :: "(u32, i32 list) smap"
  ur_buf :: "u8 list"
  ur_messages :: counter
  ur_stats_topics :: "(u32, counter) smap"
  ur_total_pkts_received :: u64
  ur_worker_not_found :: u64
  ur_int_to_ext_list_not_found :: u64
  ur_recvfrom_error :: u64
  ur_worker_add_error :: u64
  ur_worker_del_error :: u64

text \<open>\<open>malloc\<close> leaves the packet buffer as it is in memory.\<close>

definition new_udp_receiver :: "int \<Rightarrow> u8 list \<Rightarrow> udp_receiver" where
  "new_udp_receiver garbage buf =
     \<lparr>ur_ext_id_worker_store = [], ur_int_to_ext_list_store = [], ur_buf = buf,
      ur_messages = new_counter garbage ''UdpReceiver-MessageCounter'' True, ur_stats_topics = [],
      ur_total_pkts_received = 0, ur_worker_not_found = 0, ur_int_to_ext_list_not_found = 0,
      ur_recvfrom_error = 0, ur_worker_add_error = 0, ur_worker_del_error = 0\<rparr>"

definition string_of_i32 :: "i32 \<Rightarrow> string" where
  "string_of_i32 n = string_of_int (sint n)"

text \<open>
  The start of the receiver's thread: the answers of \<open>socket\<close> and \<open>bind\<close>, the address as
  \<open>inet_ntop\<close> prints it, and the port, of which the socket address keeps 16 bits. \<open>False\<close> is
  \<open>exit(1)\<close>, the end of the whole process.
\<close>

definition receiver_open :: "i32 \<Rightarrow> i32 \<Rightarrow> string \<Rightarrow> i32 \<Rightarrow> server_log \<Rightarrow> bool \<times> server_log" where
  "receiver_open sock bound server_ip SERVER_PORT l =
     (let port = string_of_nat (unat (ucast SERVER_PORT :: 16 word))
      in if sint sock < 0 then (False, log_write (''Opening socket error on port '' @ port) False l)
         else if sint bound < 0 then (False, log_write (''Bind socket error on port '' @ port) False l)
         else (True, log_write (''UDP Receiver ready. Listening on IP='' @ server_ip @
                 '', Port='' @ port) False l))"

definition add_worker ::
    "i32 \<Rightarrow> addr \<Rightarrow> udp_receiver \<times> server_log \<Rightarrow> udp_receiver \<times> server_log" where
  "add_worker ext_id wp s =
     (case s of (u, l) \<Rightarrow>
        let l = log_write (''Add Worker Mapping Ext id = '' @ string_of_i32 ext_id) False l
        in case smap_find (ur_ext_id_worker_store u) ext_id of
             Some old \<Rightarrow>
               (u\<lparr>ur_worker_add_error := ur_worker_add_error u + 1\<rparr>,
                log_write (''Error: Mapping of external id '' @ string_of_i32 ext_id @
                  '' to worker thread already found '') False l)
           | None \<Rightarrow>
               (u\<lparr>ur_ext_id_worker_store := smap_put ext_id wp (ur_ext_id_worker_store u)\<rparr>, l))"

definition del_worker :: "i32 \<Rightarrow> udp_receiver \<times> server_log \<Rightarrow> udp_receiver \<times> server_log" where
  "del_worker ext_id s =
     (case s of (u, l) \<Rightarrow>
        let l = log_write (''Delete Worker Mapping Ext id = '' @ string_of_i32 ext_id) False l
        in case smap_find (ur_ext_id_worker_store u) ext_id of
             Some old \<Rightarrow>
               (u\<lparr>ur_ext_id_worker_store := smap_erase ext_id (ur_ext_id_worker_store u)\<rparr>, l)
           | None \<Rightarrow>
               (u\<lparr>ur_worker_del_error := ur_worker_del_error u + 1\<rparr>,
                log_write (''Error: Mapping of external id '' @ string_of_i32 ext_id @
                  '' to worker thread not found '') False l))"

definition add_mapping :: "i32 \<Rightarrow> i32 \<Rightarrow> udp_receiver \<times> server_log \<Rightarrow> udp_receiver \<times> server_log" where
  "add_mapping ext_id int_id s =
     (case s of (u, l) \<Rightarrow>
        let l = log_write (''Add Mapping Ext id = '' @ string_of_i32 ext_id @ '' Int id = '' @
                  string_of_i32 int_id) False l;
            v = (case smap_find (ur_int_to_ext_list_store u) int_id of
                   Some v \<Rightarrow> v @ [ext_id] | None \<Rightarrow> [ext_id])
        in (u\<lparr>ur_int_to_ext_list_store := smap_put int_id v (ur_int_to_ext_list_store u)\<rparr>,
            log_write ''Add Successful'' False l))"

definition del_mapping :: "i32 \<Rightarrow> i32 \<Rightarrow> udp_receiver \<times> server_log \<Rightarrow> udp_receiver \<times> server_log" where
  "del_mapping ext_id int_id s =
     (case s of (u, l) \<Rightarrow>
        let l = log_write (''Delete Mapping Ext id = '' @ string_of_i32 ext_id @ '' Int id = '' @
                  string_of_i32 int_id) False l
        in case smap_find (ur_int_to_ext_list_store u) int_id of
             Some v \<Rightarrow>
               (let v = filter (\<lambda>e. e \<noteq> ext_id) v;
                    m = smap_put int_id v (ur_int_to_ext_list_store u);
                    m = (if v = [] then smap_erase int_id m else m)
                in (u\<lparr>ur_int_to_ext_list_store := m\<rparr>, log_write ''Delete Successful'' False l))
           | None \<Rightarrow> (u, log_write ''Nothing to delete'' False l))"

text \<open>The first four bytes of the buffer in network order.\<close>

definition packet_int_id :: "u8 list \<Rightarrow> u32" where
  "packet_int_id buf =
     (ucast (buf ! 0) * 2 ^ 24 + ucast (buf ! 1) * 2 ^ 16 + ucast (buf ! 2) * 2 ^ 8 + ucast (buf ! 3))"

text \<open>Queueing the payload at each worker of the list.\<close>

fun deliver ::
    "u8 list \<Rightarrow> i32 list \<Rightarrow> udp_receiver \<times> (addr \<Rightarrow> udp_worker) \<Rightarrow> udp_receiver \<times> (addr \<Rightarrow> udp_worker)" where
  "deliver payload [] s = s"
| "deliver payload (ext_id # es) (u, workers) =
     (case smap_find (ur_ext_id_worker_store u) ext_id of
        None \<Rightarrow>
          deliver payload es (u\<lparr>ur_worker_not_found := ur_worker_not_found u + 1\<rparr>, workers)
      | Some wp \<Rightarrow>
          deliver payload es (u, workers(wp := (workers wp)\<lparr>wk_q := wk_q (workers wp) @ [payload]\<rparr>)))"

text \<open>
  One round of the receiver's loop on the result of \<open>recvfrom\<close>: \<open>None\<close> for an error. The id is read
  from the buffer even when the packet is shorter than four bytes; making the payload then
  throws \<open>std::length_error\<close>, here \<open>OutOfRange\<close>.
\<close>

definition receive_packet ::
    "int \<Rightarrow> u8 list option \<Rightarrow> udp_receiver \<times> (addr \<Rightarrow> udp_worker) \<times> server_log \<Rightarrow>
     (udp_receiver \<times> (addr \<Rightarrow> udp_worker) \<times> server_log) res" where
  "receive_packet garbage r s =
     (case s of (u, workers, l) \<Rightarrow>
        case r of
          None \<Rightarrow>
            Inr (u\<lparr>ur_recvfrom_error := ur_recvfrom_error u + 1\<rparr>, workers,
                 log_write ''Error: recvfrom no_of_bytes < 0'' False l)
        | Some pkt \<Rightarrow>
            (let no_of_bytes = (of_nat (length pkt) :: u64);
                 u = u\<lparr>ur_buf := pkt @ drop (length pkt) (ur_buf u)\<rparr>;
                 u = u\<lparr>ur_total_pkts_received := ur_total_pkts_received u + 1\<rparr>;
                 u = u\<lparr>ur_messages := increment 1 no_of_bytes (ur_messages u)\<rparr>;
                 l = (if ur_total_pkts_received u mod 1000 = 0
                      then log_write (''Count = '' @ string_of_u64 (ur_total_pkts_received u)) False l
                      else l);
                 int_id = packet_int_id (ur_buf u);
                 u = u\<lparr>ur_stats_topics :=
                          count_topic garbage string_of_u32 int_id (no_of_bytes - 4) (ur_stats_topics u)\<rparr>
             in case smap_find (ur_int_to_ext_list_store u) int_id of
                  None \<Rightarrow>
                    Inr (u\<lparr>ur_int_to_ext_list_not_found := ur_int_to_ext_list_not_found u + 1\<rparr>, workers, l)
                | Some v \<Rightarrow>
                    if length pkt < 4 \<and> (\<exists>e \<in> set v. smap_find (ur_ext_id_worker_store u) e \<noteq> None)
                    then Inl OutOfRange
                    else (case deliver (drop 4 pkt) v (u, workers) of (u, workers) \<Rightarrow>
                            Inr (u, workers, l))))"

section \<open>Lemmas\<close>

text \<open>
  The abstract routing table: the subscription ids an internal id goes to. Lists are never empty.
\<close>

definition routes :: "udp_receiver \<Rightarrow> u32 \<Rightarrow> i32 list" where
  "routes u i = (case smap_find (ur_int_to_ext_list_store u) i of None \<Rightarrow> [] | Some v \<Rightarrow> v)"

definition receiver_ok :: "udp_receiver \<Rightarrow> bool" where
  "receiver_ok u \<longleftrightarrow> smap_ok (ur_ext_id_worker_store u) \<and> smap_ok (ur_int_to_ext_list_store u) \<and>
     smap_ok (ur_stats_topics u) \<and> (\<forall>i. smap_find (ur_int_to_ext_list_store u) i \<noteq> Some [])"

lemma receiver_ok_new [simp]: "receiver_ok (new_udp_receiver g buf)"
  by (simp add: receiver_ok_def new_udp_receiver_def)

lemma add_mapping_routes:
  "receiver_ok u \<Longrightarrow> receiver_ok (fst (add_mapping e i (u, l))) \<and>
   routes (fst (add_mapping e i (u, l))) = (routes u)(i := routes u i @ [e])"
  by (auto simp: add_mapping_def Let_def receiver_ok_def routes_def smap_ok_put smap_find_put fun_eq_iff
      split: option.splits)

lemma del_mapping_routes:
  "receiver_ok u \<Longrightarrow> receiver_ok (fst (del_mapping e i (u, l))) \<and>
   routes (fst (del_mapping e i (u, l))) = (routes u)(i := filter (\<lambda>x. x \<noteq> e) (routes u i))"
  by (auto simp: del_mapping_def Let_def receiver_ok_def routes_def smap_ok_put smap_ok_erase
      smap_find_put smap_find_erase fun_eq_iff split: option.splits)

lemma mapping_frame [simp]:
  "ur_ext_id_worker_store (fst (add_mapping e i (u, l))) = ur_ext_id_worker_store u"
  "ur_ext_id_worker_store (fst (del_mapping e i (u, l))) = ur_ext_id_worker_store u"
  "ur_int_to_ext_list_store (fst (add_worker j w (u, l))) = ur_int_to_ext_list_store u"
  "ur_int_to_ext_list_store (fst (del_worker j (u, l))) = ur_int_to_ext_list_store u"
  by (simp_all add: add_mapping_def del_mapping_def add_worker_def del_worker_def Let_def split: option.split)

lemma routes_worker_frame [simp]:
  "routes (fst (add_worker j w (u, l))) = routes u" "routes (fst (del_worker j (u, l))) = routes u"
  by (simp_all add: routes_def fun_eq_iff)

lemma add_worker_find:
  "receiver_ok u \<Longrightarrow> receiver_ok (fst (add_worker e w (u, l))) \<and>
   smap_find (ur_ext_id_worker_store (fst (add_worker e w (u, l)))) =
     (case smap_find (ur_ext_id_worker_store u) e of
        None \<Rightarrow> (smap_find (ur_ext_id_worker_store u))(e \<mapsto> w)
      | Some old \<Rightarrow> smap_find (ur_ext_id_worker_store u))"
  by (auto simp: add_worker_def Let_def receiver_ok_def smap_ok_put smap_find_put split: option.split)

lemma del_worker_find:
  "receiver_ok u \<Longrightarrow> receiver_ok (fst (del_worker e (u, l))) \<and>
   smap_find (ur_ext_id_worker_store (fst (del_worker e (u, l)))) =
     (smap_find (ur_ext_id_worker_store u))(e := None)"
  by (auto simp: del_worker_def Let_def receiver_ok_def smap_ok_erase smap_find_erase fun_eq_iff
      split: option.split)

text \<open>Delivery: each worker's queue grows by the payload, once per entry of the list.\<close>

lemma deliver_frame:
  "ur_ext_id_worker_store (fst (deliver p es (u, ws))) = ur_ext_id_worker_store u \<and>
   ur_int_to_ext_list_store (fst (deliver p es (u, ws))) = ur_int_to_ext_list_store u \<and>
   ur_stats_topics (fst (deliver p es (u, ws))) = ur_stats_topics u"
  by (induction p es "(u, ws)" arbitrary: u ws rule: deliver.induct) (auto split: option.split)

lemma deliver_workers:
  "wk_id (snd (deliver p es (u, ws)) w) = wk_id (ws w) \<and>
   wk_system_subscription (snd (deliver p es (u, ws)) w) = wk_system_subscription (ws w) \<and>
   wk_dont_terminate (snd (deliver p es (u, ws)) w) = wk_dont_terminate (ws w)"
  by (induction p es "(u, ws)" arbitrary: u ws rule: deliver.induct) (auto split: option.split)

lemma receive_packet_frame:
  assumes "receive_packet garbage r (u, ws, l) = Inr (u', ws', l')"
  shows "ur_ext_id_worker_store u' = ur_ext_id_worker_store u"
    "wk_id (ws' w) = wk_id (ws w)" "wk_system_subscription (ws' w) = wk_system_subscription (ws w)"
proof -
  have "ur_ext_id_worker_store u' = ur_ext_id_worker_store u \<and> wk_id (ws' w) = wk_id (ws w) \<and>
    wk_system_subscription (ws' w) = wk_system_subscription (ws w)"
  proof (cases r)
    case None
    then show ?thesis using assms by (auto simp: receive_packet_def)
  next
    case (Some pkt)
    have d: "deliver p es s = (u2, ws2) \<Longrightarrow>
      ur_ext_id_worker_store u2 = ur_ext_id_worker_store (fst s) \<and> wk_id (ws2 w) = wk_id (snd s w) \<and>
      wk_system_subscription (ws2 w) = wk_system_subscription (snd s w)" for p es s u2 ws2
      using deliver_frame [of p es "fst s" "snd s"] deliver_workers [of p es "fst s" "snd s" w] by simp
    show ?thesis
      using assms Some
      by (auto simp: receive_packet_def Let_def split: option.splits if_splits prod.splits dest: d)
  qed
  then show "ur_ext_id_worker_store u' = ur_ext_id_worker_store u"
    "wk_id (ws' w) = wk_id (ws w)" "wk_system_subscription (ws' w) = wk_system_subscription (ws w)"
    by simp_all
qed

definition copies :: "udp_receiver \<Rightarrow> i32 list \<Rightarrow> addr \<Rightarrow> nat" where
  "copies u es w = length (filter (\<lambda>e. smap_find (ur_ext_id_worker_store u) e = Some w) es)"

lemma deliver_queue:
  "wk_q (snd (deliver p es (u, ws)) w) = wk_q (ws w) @ replicate (copies u es w) p"
proof (induction p es "(u, ws)" arbitrary: u ws rule: deliver.induct)
  case (2 p e es u ws)
  show ?case
  proof (cases "smap_find (ur_ext_id_worker_store u) e")
    case None
    then show ?thesis using 2(1) by (simp add: copies_def)
  next
    case (Some wp)
    then show ?thesis using 2(2) [OF Some]
      by (simp add: copies_def replicate_app_Cons_same)
  qed
qed (simp add: copies_def)

lemma deliver_not_found:
  "ur_worker_not_found (fst (deliver p es (u, ws))) = ur_worker_not_found u +
     of_nat (length (filter (\<lambda>e. smap_find (ur_ext_id_worker_store u) e = None) es))"
  by (induction p es "(u, ws)" arbitrary: u ws rule: deliver.induct) (auto split: option.split)

text \<open>A whole packet is queued at the workers its internal id is routed to.\<close>

lemma receive_packet_queue:
  assumes "4 \<le> length pkt"
  shows "\<exists>u' ws' l'. receive_packet garbage (Some pkt) (u, ws, l) = Inr (u', ws', l') \<and>
    wk_q (ws' w) = wk_q (ws w) @ replicate (copies u (routes u (packet_int_id pkt)) w) (drop 4 pkt) \<and>
    ur_total_pkts_received u' = ur_total_pkts_received u + 1"
proof -
  have id: "packet_int_id (pkt @ r) = packet_int_id pkt" for r
    using assms by (auto simp: packet_int_id_def nth_append)
  have tot: "ur_total_pkts_received (fst (deliver p es (u, ws))) = ur_total_pkts_received u" for p es u ws
    by (induction p es "(u, ws)" arbitrary: u ws rule: deliver.induct) (auto split: option.split)
  have out: "wk_q (ws' w) = wk_q (ws w) @ replicate (copies u es w) p \<and>
      ur_total_pkts_received u' = ur_total_pkts_received u"
    if "deliver p es (u, ws) = (u', ws')" for p es u ws u' ws'
    using that deliver_queue [of p es u ws w] tot [of p es u ws] by simp
  show ?thesis
    using assms
    by (auto simp: receive_packet_def Let_def id routes_def copies_def
        split: option.split prod.split intro!: exI dest!: out)
qed

text \<open>The worker: everything queued is written in order, and counted, while it is not stopped.\<close>

lemma worker_loop_drains:
  assumes "wk_dont_terminate w" and "tr_writer t = Some out" and "length (wk_q w) \<le> n"
  obtains w' t' where "worker_loop parse n (w, t) = (w', t')" "wk_q w' = []"
    "tr_writer t' = Some (out @ map parse (wk_q w))" "wk_dont_terminate w'"
    "wk_total_pkt_recvd w' = wk_total_pkt_recvd w + of_nat (length (wk_q w))"
proof -
  have "\<exists>w' t'. worker_loop parse n (w, t) = (w', t') \<and> wk_q w' = [] \<and>
      tr_writer t' = Some (out @ map parse (wk_q w)) \<and> wk_dont_terminate w' \<and>
      wk_total_pkt_recvd w' = wk_total_pkt_recvd w + of_nat (length (wk_q w))"
    using assms
  proof (induction n arbitrary: w t out)
    case (Suc n)
    show ?case
    proof (cases "wk_q w")
      case Nil
      then show ?thesis using Suc.prems by (simp add: worker_round_def)
    next
      case (Cons pkt rest)
      let ?w = "w\<lparr>wk_messages := increment 1 (of_nat (length pkt)) (wk_messages w),
                  wk_total_pkt_recvd := wk_total_pkt_recvd w + 1, wk_q := rest\<rparr>"
      have "\<exists>w' t'. worker_loop parse n (?w, transport_write (parse pkt) t) = (w', t') \<and> wk_q w' = [] \<and>
          tr_writer t' = Some ((out @ [parse pkt]) @ map parse (wk_q ?w)) \<and> wk_dont_terminate w' \<and>
          wk_total_pkt_recvd w' = wk_total_pkt_recvd ?w + of_nat (length (wk_q ?w))"
        by (rule Suc.IH) (use Suc.prems Cons in simp_all)
      then show ?thesis using Suc.prems Cons by (simp add: worker_round_def Let_def add.assoc)
    qed
  qed simp
  then show ?thesis using that by blast
qed

lemma worker_stopped: "\<not> wk_dont_terminate w \<Longrightarrow> worker_loop parse n (w, t) = (w, t)"
  by (cases n) simp_all

end
