(* ===== verification/Server.thy ===== *)
theory Server
  imports UdpReceiver PathValidator
begin

text \<open>
  The telemetry service (AgentServer.h, AgentServer.cpp). Objects the code allocates with \<open>new\<close>
  live in stores and are named by addresses; \<open>delete\<close> clears the address's liveness, and a use of
  a dead address is undefined behaviour. \<open>telemetrySubscribe\<close> runs in a thread of its own and is
  cut where other threads can interfere: up to the metadata, \<open>enable\<close>, \<open>setActive(true)\<close>, the
  polling loop, and the part guarded by \<open>_delete_initiate_mutex\<close>.
\<close>

section \<open>State\<close>

text \<open>
  What the service is given: the printers of the protocol messages, the system's operations and
  the configuration.
\<close>

record 'b server_env =
  env_sp :: "path_msg \<Rightarrow> string"
  env_show_request :: "subscription_request \<Rightarrow> string"
  env_show_reply :: "subscription_reply \<Rightarrow> string"
  env_show_id :: "u32 \<Rightarrow> string"
  env_show_operational :: "u32 \<Rightarrow> verbosity_level \<Rightarrow> string"
  env_show_encoding :: string
  env_ops :: "'b system_ops"
  env_gc :: global_config

record 'b server =
  sv_consolidator :: "'b consolidator"
  sv_id_manager :: id_manager
  sv_path_validator :: "path_validator option"
  sv_subs :: "addr \<Rightarrow> subscription"
  sv_sub_live :: "addr \<Rightarrow> bool"
  sv_store :: sub_store
  sv_workers :: "addr \<Rightarrow> udp_worker"
  sv_worker_live :: "addr \<Rightarrow> bool"
  sv_store2 :: worker_store
  sv_receiver :: udp_receiver
  sv_transports :: "addr \<Rightarrow> transport"
  sv_next :: addr
  sv_metadata :: "subscription_reply list"

definition sv_get_log :: "'b server \<Rightarrow> server_log" where
  "sv_get_log c = as_log (cs_system (sv_consolidator c))"

definition sv_set_log :: "server_log \<Rightarrow> 'b server \<Rightarrow> 'b server" where
  "sv_set_log l c =
     c\<lparr>sv_consolidator := (sv_consolidator c)\<lparr>cs_system := (cs_system (sv_consolidator c))\<lparr>as_log := l\<rparr>\<rparr>\<rparr>"

definition sv_log :: "string \<Rightarrow> 'b server \<Rightarrow> 'b server" where
  "sv_log m c = c\<lparr>sv_consolidator := cs_log m (sv_consolidator c)\<rparr>"

text \<open>A live subscription or worker.\<close>

definition deref_sub :: "addr \<Rightarrow> 'b server \<Rightarrow> subscription res" where
  "deref_sub a c = (if sv_sub_live c a then Inr (sv_subs c a) else Inl UseAfterFree)"

definition deref_worker :: "addr \<Rightarrow> 'b server \<Rightarrow> udp_worker res" where
  "deref_worker a c = (if sv_worker_live c a then Inr (sv_workers c a) else Inl UseAfterFree)"

definition put_sub :: "addr \<Rightarrow> subscription \<Rightarrow> 'b server \<Rightarrow> 'b server" where
  "put_sub a sub c = c\<lparr>sv_subs := (sv_subs c)(a := sub)\<rparr>"

definition on_receiver ::
    "(udp_receiver \<times> server_log \<Rightarrow> udp_receiver \<times> server_log) \<Rightarrow> 'b server \<Rightarrow> 'b server" where
  "on_receiver f c =
     (let (u, l) = f (sv_receiver c, sv_get_log c) in sv_set_log l (c\<lparr>sv_receiver := u\<rparr>))"

section \<open>The metadata channel\<close>

definition sendMetaDataInfo :: "'b server_env \<Rightarrow> subscription_reply \<Rightarrow> 'b server \<Rightarrow> 'b server" where
  "sendMetaDataInfo env reply c =
     sv_log (''Subscribe-MetaData-Sent: ID = '' @ string_of_u32 (rep_subscription_id reply))
       (c\<lparr>sv_metadata := sv_metadata c @ [reply]\<rparr>)"

section \<open>Cleaning up\<close>

text \<open>
  \<open>_cleanupSubscription\<close>. \<open>disconnect\<close> and \<open>loop_stop(true)\<close> are calls of the bus library.
\<close>

definition cleanupSubscription :: "'b server_env \<Rightarrow> addr \<Rightarrow> 'b server \<Rightarrow> 'b server res" where
  "cleanupSubscription env a c =
     res_bind (deref_sub a c) (\<lambda>sub.
     res_bind (sub_disable (env_gc env) (sv_consolidator c) (sub, sv_get_log c)) (\<lambda>(sub, l).
     (let c = sv_set_log l c;
          sub = mq_call MqDisconnect sub;
          sub = mq_call (MqLoopStop True) sub;
          c = put_sub a sub c
      in res_bind (removeRequest (env_sp env) (env_ops env) (sub_system_subscription sub) (sv_consolidator c)) (\<lambda>con.
         (let c = c\<lparr>sv_consolidator := con\<rparr>;
              c = c\<lparr>sv_store := deleteSubscription (sub_id sub) (sv_store c)\<rparr>
          in res_bind (deallocate (sub_id sub) (sv_id_manager c)) (\<lambda>(bad, ids).
               Inr (put_sub a (setActive False sub) (c\<lparr>sv_id_manager := ids\<rparr>))))))))"

text \<open>\<open>_cleanupSubscriptionUdpWorker\<close>; the join has returned when it is over.\<close>

definition cleanupSubscriptionUdpWorker :: "'b server_env \<Rightarrow> addr \<Rightarrow> 'b server \<Rightarrow> 'b server res" where
  "cleanupSubscriptionUdpWorker env a c =
     res_bind (deref_worker a c) (\<lambda>w.
     res_bind (system_ids (sv_consolidator c) (wk_system_subscription w)) (\<lambda>is.
     (let c = foldl (\<lambda>c i. on_receiver (del_mapping (wk_id w) i) c) c is;
          c = on_receiver (del_worker (wk_id w)) c;
          c = c\<lparr>sv_workers := (sv_workers c)(a := setTerminate w)\<rparr>
      in Inr (c\<lparr>sv_store2 := deleteUdpSubscription (wk_id w) (sv_store2 c)\<rparr>))))"

section \<open>Subscribing\<close>

text \<open>What the thread of a subscription keeps on its stack.\<close>

record session =
  ss_id :: u32
  ss_sub :: addr
  ss_worker :: "addr option"
  ss_transport :: addr

text \<open>The paths of a request that the path validator lets through, adjusted.\<close>

fun validate_paths ::
    "path_msg list \<Rightarrow> path_validator \<Rightarrow> path_msg list \<times> path_validator" where
  "validate_paths [] v = ([], v)"
| "validate_paths (p # ps) v =
     (let (p, v) = validate_path p v;
          (qs, v) = validate_paths ps v
      in (if path_has_bytes p then p # qs else qs, v))"

definition validate_request ::
    "'b server_env \<Rightarrow> subscription_request \<Rightarrow> 'b server \<Rightarrow> (subscription_request \<times> 'b server) res" where
  "validate_request env request c =
     (if validate_ocpaths (env_gc env) then
        let c = sv_log ''Validating paths ...'' c
        in case sv_path_validator c of
             None \<Rightarrow> Inl NullPointer
           | Some v \<Rightarrow>
               (let (qs, v) = validate_paths (sr_path_list request) v;
                    validated = subscription_request_cleared
                      \<lparr>sr_additional_config := sr_additional_config request, sr_path_list := qs\<rparr>;
                    c = c\<lparr>sv_path_validator := Some v\<rparr>
                in Inr (validated, sv_log (''Validated Paths->'' @ env_show_request env validated) c))
      else Inr (request, c))"

definition final_paths_line :: "path_msg list \<Rightarrow> string" where
  "final_paths_line ps = ''Final-path-list: '' @ concat (map (\<lambda>p. p_path p @ '':'') ps)"

text \<open>The UDP side of a new subscription: its worker, and a mapping for each of its system handles.\<close>

definition start_udp_worker ::
    "'b server_env \<Rightarrow> int \<Rightarrow> u32 \<Rightarrow> addr \<Rightarrow> addr \<Rightarrow> string list \<Rightarrow> 'b server \<Rightarrow>
     (addr option \<times> 'b server) res" where
  "start_udp_worker env garbage i system_handle tr paths c =
     (if udp_server_module (env_gc env) then
        let a = sv_next c;
            (workers, store2) = createSubscriptionUdpWorker garbage i system_handle tr paths a
              (sv_workers c, sv_store2 c);
            c = c\<lparr>sv_next := Suc a, sv_workers := workers, sv_store2 := store2,
                  sv_worker_live := (sv_worker_live c)(a := True)\<rparr>;
            c = on_receiver (add_worker i a) c
        in res_bind (system_ids (sv_consolidator c) (Some system_handle)) (\<lambda>is.
             Inr (Some a, foldl (\<lambda>c int_id. on_receiver (add_mapping i int_id) c) c is))
      else Inr (None, c))"

text \<open>
  From \<open>addRequest\<close> to \<open>_sendMetaDataInfo\<close>: the consolidator's handle, the transport, the
  subscription and its worker. The two failure branches behind \<open>operator new\<close> are not reachable:
  it throws instead of answering null.
\<close>

definition open_subscription ::
    "'b server_env \<Rightarrow> int \<Rightarrow> bool \<Rightarrow> u32 \<Rightarrow> subscription_request \<Rightarrow> 'b server \<Rightarrow>
     (session option \<times> 'b server) res" where
  "open_subscription env garbage garbage_active i validated c =
     res_bind (addRequest (env_sp env) (env_ops env) i (sr_path_list validated) []
         (sv_consolidator c)) (\<lambda>(system_handle, accepted, con).
       let c = c\<lparr>sv_consolidator := con\<rparr>;
           system_accepted = subscription_request_cleared
             \<lparr>sr_additional_config := sr_additional_config validated, sr_path_list := accepted\<rparr>;
           c = sv_log (''System Accepted Paths->'' @ env_show_request env system_accepted) c;
           c = sv_log (final_paths_line accepted) c;
           paths = map p_path accepted;
           tr = sv_next c;
           a = Suc tr;
           c = c\<lparr>sv_next := Suc a,
                 sv_transports := (sv_transports c)(tr := new_transport (Some False) (Some []))\<rparr>;
           limits = new_limits (scast (limit_records (sr_additional_config system_accepted)))
                      (scast (limit_time_seconds (sr_additional_config system_accepted)));
           (subs, store) = createSubscription garbage garbage_active i system_handle tr paths
             limits None a (sv_subs c, sv_store c);
           c = c\<lparr>sv_subs := subs, sv_store := store, sv_sub_live := (sv_sub_live c)(a := True)\<rparr>
       in res_bind (start_udp_worker env garbage i system_handle tr paths c) (\<lambda>(w, c).
            Inr (Some \<lparr>ss_id = i, ss_sub = a, ss_worker = w, ss_transport = tr\<rparr>,
              sendMetaDataInfo env \<lparr>rep_subscription_id = i, rep_path_list = accepted\<rparr> c)))"

text \<open>
  \<open>telemetrySubscribe\<close> up to \<open>_sendMetaDataInfo\<close>. The reply carries id 0 and no session remains
  when the request has no path or no id is left.
\<close>

definition telemetrySubscribe ::
    "'b server_env \<Rightarrow> int \<Rightarrow> bool \<Rightarrow> subscription_request \<Rightarrow> 'b server \<Rightarrow>
     (session option \<times> 'b server) res" where
  "telemetrySubscribe env garbage garbage_active request c =
     (let c = sv_log (''telemetrySubscribe->'' @ env_show_request env request) c
      in if sr_path_list request = [] then
           Inr (None, sendMetaDataInfo env (subscription_reply_cleared\<lparr>rep_subscription_id := getNullIdentifier\<rparr>)
             (sv_log ''Subscription-stream-end: Error, Path List is Zero'' c))
         else
           let c = sv_log ''Subscription-Begin'' c
           in res_bind (allocate (sv_id_manager c)) (\<lambda>(i, ids).
             let c = c\<lparr>sv_id_manager := ids\<rparr>
             in if i = getNullIdentifier then
                  Inr (None, sendMetaDataInfo env (subscription_reply_cleared\<lparr>rep_subscription_id := i\<rparr>)
                    (sv_log ''Subscription-stream-end: Error, ID Exhausted'' c))
                else
                  res_bind (validate_request env request
                      (sv_log (''Subscription-Allocate: ID = '' @ string_of_u32 i) c)) (\<lambda>(validated, c).
                    open_subscription env garbage garbage_active i validated c)))"

definition session_enable :: "'b server_env \<Rightarrow> session \<Rightarrow> 'b server \<Rightarrow> 'b server res" where
  "session_enable env s c =
     res_bind (deref_sub (ss_sub s) c) (\<lambda>sub.
       let (sub, l) = sub_enable (env_gc env) (sub, sv_get_log c)
       in Inr (put_sub (ss_sub s) sub (sv_set_log l c)))"

definition session_activate :: "session \<Rightarrow> 'b server \<Rightarrow> 'b server res" where
  "session_activate s c =
     res_bind (deref_sub (ss_sub s) c) (\<lambda>sub. Inr (put_sub (ss_sub s) (setActive True sub) c))"

text \<open>Whether the polling loop is left.\<close>

definition session_over :: "session \<Rightarrow> 'b server \<Rightarrow> bool res" where
  "session_over s c =
     res_bind (deref_sub (ss_sub s) c) (\<lambda>sub.
       Inr (sub_expired sub \<or> getClientDisconnects (sv_transports c (sub_transport sub)) \<or> \<not> sub_active sub))"

definition stream_over_line :: "u32 \<Rightarrow> bool \<Rightarrow> bool \<Rightarrow> string" where
  "stream_over_line i expired disconnected =
     ''Channel disconnected or Subscription expired: ID = '' @ string_of_u32 i @
     '', Expired : '' @ string_of_bool expired @ '', Client Disconnects : '' @ string_of_bool disconnected"

text \<open>The rest of \<open>telemetrySubscribe\<close>, under the mutex: clean up unless cancelled, and delete.\<close>

definition session_end :: "'b server_env \<Rightarrow> session \<Rightarrow> 'b server \<Rightarrow> 'b server res" where
  "session_end env s c =
     res_bind (deref_sub (ss_sub s) c) (\<lambda>sub.
     (let disconnected = getClientDisconnects (sv_transports c (sub_transport sub))
      in res_bind
           (if sub_active sub \<and> (sub_expired sub \<or> disconnected) then
              let c = sv_log (stream_over_line (ss_id s) (sub_expired sub) disconnected) c
              in res_bind (case ss_worker s of None \<Rightarrow> Inr c | Some w \<Rightarrow> cleanupSubscriptionUdpWorker env w c)
                   (cleanupSubscription env (ss_sub s))
            else Inr c) (\<lambda>c.
         (let c = sv_log (''Subscription-stream-end: ID = '' @ string_of_u32 (sub_id sub)) c;
              c = (case ss_worker s of None \<Rightarrow> c
                   | Some w \<Rightarrow> c\<lparr>sv_worker_live := (sv_worker_live c)(w := False)\<rparr>)
          in Inr (c\<lparr>sv_sub_live := (sv_sub_live c)(ss_sub s := False)\<rparr>)))))"

section \<open>Cancelling\<close>

definition not_found :: "string \<Rightarrow> u32 \<Rightarrow> string" where
  "not_found what i = what @ '' Not Found. ID = '' @ string_of_u32 i"

definition cancelTelemetrySubscription ::
    "'b server_env \<Rightarrow> u32 \<Rightarrow> 'b server \<Rightarrow> (cancel_reply \<times> 'b server) res" where
  "cancelTelemetrySubscription env i c =
     (let c = sv_log (''cancelTelemetrySubscription->'' @ env_show_id env i) c
      in if udp_server_module (env_gc env) \<and> findUdpSubscription i (sv_store2 c) = None then
           let err = not_found ''UDP Subscription'' i
           in Inr (\<lparr>cr_code = NO_SUBSCRIPTION_ENTRY, cr_code_str = err\<rparr>, sv_log err c)
         else
           res_bind (case (if udp_server_module (env_gc env) then findUdpSubscription i (sv_store2 c) else None) of
                       None \<Rightarrow> Inr c
                     | Some w \<Rightarrow> cleanupSubscriptionUdpWorker env w c) (\<lambda>c.
           case findSubscription i (sv_store c) of
             None \<Rightarrow>
               (let err = not_found ''Subscription'' i
                in Inr (\<lparr>cr_code = NO_SUBSCRIPTION_ENTRY, cr_code_str = err\<rparr>, sv_log err c))
           | Some a \<Rightarrow>
               res_bind (cleanupSubscription env a c) (\<lambda>c.
                 Inr (\<lparr>cr_code = SUCCESS, cr_code_str = ''Subscription Successfully Deleted''\<rparr>,
                      sv_log (''cancelTelemetrySubscriptionEnd: ID = '' @ string_of_u32 i) c))))"

section \<open>Queries\<close>

text \<open>The reply for one subscription: the paths the consolidator keeps for it.\<close>

definition subscription_entry :: "'b server \<Rightarrow> addr \<Rightarrow> subscription_reply res" where
  "subscription_entry c a =
     res_bind (deref_sub a c) (\<lambda>sub.
       case sub_system_subscription sub of
         None \<Rightarrow> Inl NullPointer
       | Some p \<Rightarrow>
           (case smap_find (con_live (sv_consolidator c)) p of
              None \<Rightarrow> Inl UseAfterFree
            | Some h \<Rightarrow> Inr \<lparr>rep_subscription_id = sub_id sub,
                rep_path_list = map (\<lambda>b. h_path (cs_heap (sv_consolidator c) b)) (ch_handles h)\<rparr>))"

fun res_map :: "('a \<Rightarrow> 'c res) \<Rightarrow> 'a list \<Rightarrow> 'c list res" where
  "res_map f [] = Inr []"
| "res_map f (x # xs) = res_bind (f x) (\<lambda>y. res_bind (res_map f xs) (\<lambda>ys. Inr (y # ys)))"

definition ALL_SUBSCRIPTIONS :: u32 where
  "ALL_SUBSCRIPTIONS = 0xFFFFFFFF"

definition getTelemetrySubscriptions ::
    "'b server_env \<Rightarrow> u32 \<Rightarrow> 'b server \<Rightarrow> (subscription_reply list \<times> 'b server) res" where
  "getTelemetrySubscriptions env i c =
     (let c = sv_log (''getTelemetrySubscriptions->'' @ env_show_id env i) c
      in if i \<noteq> ALL_SUBSCRIPTIONS then
           (case findSubscription i (sv_store c) of
              None \<Rightarrow> Inr ([], sv_log (''Subcription Not Found. ID = '' @ string_of_u32 i) c)
            | Some a \<Rightarrow> res_bind (subscription_entry c a) (\<lambda>r. Inr ([r], c)))
         else
           res_bind (returned (all_subscriptions (sv_subs c) (sv_store c))) (\<lambda>as.
           res_bind (res_map (subscription_entry c) as) (\<lambda>rs. Inr (rs, c))))"

text \<open>The pairs for one subscription and its worker, with the lines logged about it.\<close>

definition operational_entry ::
    "'b server_env \<Rightarrow> u32 \<Rightarrow> verbosity_level \<Rightarrow> 'b server \<Rightarrow> addr \<Rightarrow> (key_value list \<times> string list) res" where
  "operational_entry env asked verbosity c a =
     res_bind (deref_sub a c) (\<lambda>sub.
     (let kvs = kv_int ''subscription_id'' (ucast (sub_id sub)) # sub_getOperational verbosity sub
      in if udp_server_module (env_gc env) then
           (case findUdpSubscription (sub_id sub) (sv_store2 c) of
              None \<Rightarrow> Inr (kvs @ [kv_str ''error'' ''UDP Subscription Not Found''],
                           [not_found ''UDP Subscription'' asked])
            | Some w \<Rightarrow> res_bind (deref_worker w c) (\<lambda>wk.
                Inr (kvs @ udp_getOperational verbosity wk, [])))
         else Inr (kvs, [])))"

definition agent_stats :: "'b server \<Rightarrow> key_value list" where
  "agent_stats c =
     [kv_str ''agent-stats'' ''begin'', kv_int ''total_subscriptions'' (of_nat (length (sv_store c))),
      kv_str ''agent-stats'' ''end'']"

definition getTelemetryOperationalState ::
    "'b server_env \<Rightarrow> u32 \<Rightarrow> verbosity_level \<Rightarrow> 'b server \<Rightarrow> (key_value list \<times> 'b server) res" where
  "getTelemetryOperationalState env i verbosity c =
     (let c = sv_log (''getTelemetryOperationalState->'' @ env_show_operational env i verbosity) c
      in if i = 0 then Inr (agent_stats c, c)
         else if i \<noteq> ALL_SUBSCRIPTIONS then
           (case findSubscription i (sv_store c) of
              None \<Rightarrow> Inr ([kv_int ''subscription_id'' (ucast i), kv_str ''error'' ''Subscription Not Found''],
                            sv_log (not_found ''Subscription'' i) c)
            | Some a \<Rightarrow>
                res_bind (deref_sub a c) (\<lambda>sub.
                (let kvs = kv_int ''subscription_id'' (ucast i) # sub_getOperational verbosity sub
                 in if udp_server_module (env_gc env) then
                      (case findUdpSubscription i (sv_store2 c) of
                         None \<Rightarrow> Inr (kvs @ [kv_str ''error'' ''UDP Subscription Not Found''],
                                      sv_log (not_found ''UDP Subscription'' i) c)
                       | Some w \<Rightarrow> res_bind (deref_worker w c) (\<lambda>wk.
                           Inr (kvs @ udp_getOperational verbosity wk, c)))
                    else Inr (kvs, c))))
         else
           res_bind (returned (all_subscriptions (sv_subs c) (sv_store c))) (\<lambda>as.
           res_bind (res_map (operational_entry env i verbosity c) as) (\<lambda>rs.
             Inr (concat (map fst rs) @ agent_stats c, foldl (\<lambda>c m. sv_log m c) c (concat (map snd rs))))))"

definition getDataEncodings :: "'b server_env \<Rightarrow> 'b server \<Rightarrow> encoding_type list \<times> 'b server" where
  "getDataEncodings env c = ([PROTO3], sv_log (''getDataEncodings->'' @ env_show_encoding env) c)"

section \<open>Messages and packets\<close>

definition bus_message ::
    "'b server_env \<Rightarrow> oc_registry \<Rightarrow> (u8 list \<Rightarrow> telemetry_stream option) \<Rightarrow> int \<Rightarrow> int \<Rightarrow> int \<Rightarrow>
     addr \<Rightarrow> mosquitto_message \<Rightarrow> 'b server \<Rightarrow> 'b server res" where
  "bus_message env reg parse now usec garbage a msg c =
     res_bind (deref_sub a c) (\<lambda>sub.
     res_bind (sub_on_message (env_gc env) reg parse now usec garbage (sv_consolidator c) msg
         (sub, sv_transports c (sub_transport sub), sv_get_log c)) (\<lambda>(sub', t, l).
       Inr (sv_set_log l (put_sub a sub' (c\<lparr>sv_transports := (sv_transports c)(sub_transport sub := t)\<rparr>)))))"

text \<open>
  A packet at the receiver: using a worker that has been deleted is undefined. And a turn of a
  worker's thread, with the transport it shares with its subscription.
\<close>

definition udp_packet :: "int \<Rightarrow> u8 list option \<Rightarrow> 'b server \<Rightarrow> 'b server res" where
  "udp_packet garbage r c =
     (let u = sv_receiver c;
          dests = (case r of None \<Rightarrow> []
                   | Some pkt \<Rightarrow> routes u (packet_int_id (pkt @ drop (length pkt) (ur_buf u))))
      in if \<exists>e \<in> set dests. \<exists>w \<in> set_option (smap_find (ur_ext_id_worker_store u) e). \<not> sv_worker_live c w
         then Inl UseAfterFree
         else res_bind (receive_packet garbage r (u, sv_workers c, sv_get_log c)) (\<lambda>(u, ws, l).
                Inr (sv_set_log l (c\<lparr>sv_receiver := u, sv_workers := ws\<rparr>))))"

definition worker_turn :: "(u8 list \<Rightarrow> open_config_data) \<Rightarrow> addr \<Rightarrow> 'b server \<Rightarrow> 'b server res" where
  "worker_turn parse a c =
     res_bind (deref_worker a c) (\<lambda>w.
       case worker_round parse (w, sv_transports c (wk_transport w)) of
         None \<Rightarrow> Inr c
       | Some (w', t) \<Rightarrow>
           Inr (c\<lparr>sv_workers := (sv_workers c)(a := w'),
                  sv_transports := (sv_transports c)(wk_transport w := t)\<rparr>))"

definition client_disconnect :: "addr \<Rightarrow> 'b server \<Rightarrow> 'b server" where
  "client_disconnect tr c =
     c\<lparr>sv_transports := (sv_transports c)(tr := (sv_transports c tr)\<lparr>tr_context := Some True\<rparr>)\<rparr>"

definition new_server :: "'b agent_system \<Rightarrow> path_validator option \<Rightarrow> udp_receiver \<Rightarrow> 'b server" where
  "new_server s v u =
     \<lparr>sv_consolidator = new_consolidator s, sv_id_manager = new_id_manager SUBSCRIPTION_ID_SPACE_SIZE 1,
      sv_path_validator = v,
      sv_subs = (\<lambda>_. new_subscription 0 False [] 0 0 0 [] (new_limits 0 0)),
      sv_sub_live = (\<lambda>_. False), sv_store = [],
      sv_workers = (\<lambda>_. new_udp_worker 0 0 0 0 []), sv_worker_live = (\<lambda>_. False), sv_store2 = [],
      sv_receiver = u, sv_transports = (\<lambda>_. new_transport None None), sv_next = 0, sv_metadata = []\<rparr>"

end
