(* ===== verification/ServerInvariant.thy ===== *)
theory ServerInvariant
  imports Server
begin

text \<open>
  The invariant of the service: the identifiers handed out, the registry of subscriptions, the
  registry of UDP workers and the handles of the consolidator name the same set of
  subscriptions, and every registered object is live. Each operation of the service keeps it.
\<close>

section \<open>The invariant\<close>

text \<open>The ids of subscriptions are 1 to 63.\<close>

definition id_bounds :: "id_manager \<Rightarrow> bool" where
  "id_bounds m \<longleftrightarrow> length (id_space m) = SUBSCRIPTION_ID_SPACE_SIZE \<and> MIN_ID_SPACE_SIZE m = 1"

text \<open>A registered subscription is live, carries its id and owns a handle of the consolidator.\<close>

definition sub_entry_ok :: "'b server \<Rightarrow> u32 \<Rightarrow> addr \<Rightarrow> bool" where
  "sub_entry_ok c i a \<longleftrightarrow> sv_sub_live c a \<and> sub_id (sv_subs c a) = i \<and>
     (\<exists>p h. sub_system_subscription (sv_subs c a) = Some p \<and>
        smap_find (con_live (sv_consolidator c)) p = Some h \<and> ch_subscription_id h = i)"

definition handle_owned :: "'b server \<Rightarrow> addr \<Rightarrow> con_handle \<Rightarrow> bool" where
  "handle_owned c p h \<longleftrightarrow> length (ch_handles h) < 2 ^ 31 \<and>
     (\<exists>a. smap_find (sv_store c) (ch_subscription_id h) = Some a \<and>
        sub_system_subscription (sv_subs c a) = Some p)"

definition sub_fresh :: "'b server \<Rightarrow> bool" where
  "sub_fresh c \<longleftrightarrow> (\<forall>a. sv_sub_live c a \<longrightarrow> a < sv_next c \<and> sub_transport (sv_subs c a) < sv_next c)"

definition server_inv :: "'b server_env \<Rightarrow> 'b server \<Rightarrow> bool" where
  "server_inv env c \<longleftrightarrow>
     con_inv (env_sp env) (sv_consolidator c) \<and>
     id_ok (sv_id_manager c) \<and> id_bounds (sv_id_manager c) \<and>
     smap_ok (sv_store c) \<and> live_ids (sv_id_manager c) = dom (smap_find (sv_store c)) \<and>
     (validate_ocpaths (env_gc env) \<longrightarrow> sv_path_validator c \<noteq> None) \<and>
     (\<forall>i a. smap_find (sv_store c) i = Some a \<longrightarrow> sub_entry_ok c i a) \<and>
     (\<forall>p h. smap_find (con_live (sv_consolidator c)) p = Some h \<longrightarrow> handle_owned c p h) \<and>
     sub_fresh c"

text \<open>A registered worker is live, carries its id and shares the handle of its subscription.\<close>

definition worker_entry_ok :: "'b server \<Rightarrow> u32 \<Rightarrow> addr \<Rightarrow> bool" where
  "worker_entry_ok c i w \<longleftrightarrow> sv_worker_live c w \<and> w < sv_next c \<and> wk_id (sv_workers c w) = i \<and>
     (\<forall>a. smap_find (sv_store c) i = Some a \<longrightarrow>
        wk_system_subscription (sv_workers c w) = sub_system_subscription (sv_subs c a))"

definition udp_inv :: "'b server_env \<Rightarrow> 'b server \<Rightarrow> bool" where
  "udp_inv env c \<longleftrightarrow> smap_ok (sv_store2 c) \<and> smap_ok (ur_ext_id_worker_store (sv_receiver c)) \<and>
     smap_find (ur_ext_id_worker_store (sv_receiver c)) = smap_find (sv_store2 c) \<and>
     (if udp_server_module (env_gc env) then dom (smap_find (sv_store2 c)) = dom (smap_find (sv_store c))
      else sv_store2 c = []) \<and>
     (\<forall>i w. smap_find (sv_store2 c) i = Some w \<longrightarrow> worker_entry_ok c i w)"

lemma server_inv_sub:
  assumes "server_inv env c" and "smap_find (sv_store c) i = Some a"
  obtains p h where "sv_sub_live c a" "sub_id (sv_subs c a) = i"
    "sub_system_subscription (sv_subs c a) = Some p"
    "smap_find (con_live (sv_consolidator c)) p = Some h" "ch_subscription_id h = i"
proof -
  have "sub_entry_ok c i a" using assms by (simp add: server_inv_def)
  then show thesis using that by (auto simp: sub_entry_ok_def)
qed

lemma server_inv_below:
  assumes "server_inv env c" and "smap_find (sv_store c) i = Some a"
  shows "a < sv_next c" "sub_transport (sv_subs c a) < sv_next c"
proof -
  have "sv_sub_live c a" by (rule server_inv_sub [OF assms])
  moreover have "sub_fresh c" using assms(1) by (simp add: server_inv_def)
  ultimately show "a < sv_next c" "sub_transport (sv_subs c a) < sv_next c"
    by (simp_all add: sub_fresh_def)
qed

section \<open>Logging\<close>

lemma sv_log_eq: "sv_log m c = sv_set_log (log_write m False (sv_get_log c)) c"
  by (simp add: sv_log_def sv_set_log_def sv_get_log_def cs_log_def sys_log_def)

lemma sv_set_log_frame [simp]:
  "sv_id_manager (sv_set_log l c) = sv_id_manager c"
  "sv_path_validator (sv_set_log l c) = sv_path_validator c"
  "sv_subs (sv_set_log l c) = sv_subs c" "sv_sub_live (sv_set_log l c) = sv_sub_live c"
  "sv_store (sv_set_log l c) = sv_store c" "sv_workers (sv_set_log l c) = sv_workers c"
  "sv_worker_live (sv_set_log l c) = sv_worker_live c" "sv_store2 (sv_set_log l c) = sv_store2 c"
  "sv_receiver (sv_set_log l c) = sv_receiver c" "sv_transports (sv_set_log l c) = sv_transports c"
  "sv_next (sv_set_log l c) = sv_next c" "sv_metadata (sv_set_log l c) = sv_metadata c"
  "con_live (sv_consolidator (sv_set_log l c)) = con_live (sv_consolidator c)"
  "con_next (sv_consolidator (sv_set_log l c)) = con_next (sv_consolidator c)"
  "cs_heap (sv_consolidator (sv_set_log l c)) = cs_heap (sv_consolidator c)"
  "cs_sysdb (sv_consolidator (sv_set_log l c)) = cs_sysdb (sv_consolidator c)"
  by (simp_all add: sv_set_log_def)

lemma con_inv_system [simp]: "con_inv sp (c\<lparr>cs_system := s\<rparr>) = con_inv sp c"
  by (simp add: con_inv_def)

lemma con_inv_set_log [simp]:
  "con_inv sp (sv_consolidator (sv_set_log l c)) = con_inv sp (sv_consolidator c)"
  by (simp add: sv_set_log_def)

lemma requested_set_log [simp]:
  "requested sp (sv_consolidator (sv_set_log l c)) = requested sp (sv_consolidator c)"
  by (simp add: requested_def)

lemma system_ids_cong:
  "con_live c' = con_live c \<Longrightarrow> cs_heap c' = cs_heap c \<Longrightarrow> system_ids c' p = system_ids c p"
  by (simp add: system_ids_def split: option.split)

lemma sub_fresh_set_log [simp]: "sub_fresh (sv_set_log l c) = sub_fresh c"
  by (simp add: sub_fresh_def)

lemma server_inv_set_log [simp]: "server_inv env (sv_set_log l c) = server_inv env c"
  by (simp add: server_inv_def sub_entry_ok_def handle_owned_def)

lemma udp_inv_set_log [simp]: "udp_inv env (sv_set_log l c) = udp_inv env c"
  by (simp add: udp_inv_def worker_entry_ok_def)

lemma server_inv_log [simp]: "server_inv env (sv_log m c) = server_inv env c"
  by (simp add: sv_log_eq)

lemma udp_inv_log [simp]: "udp_inv env (sv_log m c) = udp_inv env c"
  by (simp add: sv_log_eq)

lemma sv_log_frame [simp]:
  "sv_id_manager (sv_log m c) = sv_id_manager c"
  "sv_path_validator (sv_log m c) = sv_path_validator c"
  "sv_subs (sv_log m c) = sv_subs c" "sv_sub_live (sv_log m c) = sv_sub_live c"
  "sv_store (sv_log m c) = sv_store c" "sv_workers (sv_log m c) = sv_workers c"
  "sv_worker_live (sv_log m c) = sv_worker_live c" "sv_store2 (sv_log m c) = sv_store2 c"
  "sv_receiver (sv_log m c) = sv_receiver c" "sv_transports (sv_log m c) = sv_transports c"
  "sv_next (sv_log m c) = sv_next c" "sv_metadata (sv_log m c) = sv_metadata c"
  "con_live (sv_consolidator (sv_log m c)) = con_live (sv_consolidator c)"
  "con_next (sv_consolidator (sv_log m c)) = con_next (sv_consolidator c)"
  "cs_heap (sv_consolidator (sv_log m c)) = cs_heap (sv_consolidator c)"
  by (simp_all add: sv_log_eq)

section \<open>The initial state\<close>

lemma new_server_inv:
  assumes "validate_ocpaths (env_gc env) \<longrightarrow> v \<noteq> None"
  shows "server_inv env (new_server s v u)"
proof -
  have "id_ok (new_id_manager SUBSCRIPTION_ID_SPACE_SIZE 1)"
    by (rule id_ok_new) (simp_all add: SUBSCRIPTION_ID_SPACE_SIZE_def)
  moreover have "id_bounds (new_id_manager SUBSCRIPTION_ID_SPACE_SIZE 1)"
    by (simp add: new_id_manager_def id_bounds_def)
  ultimately show ?thesis
    using assms by (simp add: server_inv_def new_server_def sub_fresh_def dom_def)
qed

lemma new_server_udp:
  assumes "ur_ext_id_worker_store u = []"
  shows "udp_inv env (new_server s v u)"
  using assms by (simp add: udp_inv_def new_server_def)

section \<open>Counting\<close>

text \<open>
  At most 64 handles of less than \<open>2 ^ 31\<close> references each: the reference counts cannot wrap.
\<close>

lemma size_held: "size (held m) = sum_list (map (\<lambda>(p, h). length (ch_handles h)) m)"
  by (induction m) (auto simp: held_def)

lemma server_inv_handle_ids:
  assumes "server_inv env c"
  shows "inj_on (\<lambda>p. ch_subscription_id (the (smap_find (con_live (sv_consolidator c)) p)))
     (dom (smap_find (con_live (sv_consolidator c))))"
proof (rule inj_onI)
  fix p q
  let ?m = "smap_find (con_live (sv_consolidator c))"
  assume "p \<in> dom ?m" "q \<in> dom ?m" and eq: "ch_subscription_id (the (?m p)) = ch_subscription_id (the (?m q))"
  then obtain h k where "?m p = Some h" "?m q = Some k" by blast
  then have "handle_owned c p h" "handle_owned c q k" "ch_subscription_id h = ch_subscription_id k"
    using assms eq by (auto simp: server_inv_def)
  then show "p = q" by (auto simp: handle_owned_def)
qed

lemma server_inv_room:
  assumes inv: "server_inv env c"
  shows "size (requested sp (sv_consolidator c)) \<le> 64 * 2 ^ 31"
proof -
  let ?l = "con_live (sv_consolidator c)"
  let ?m = "smap_find ?l"
  let ?f = "\<lambda>p. ch_subscription_id (the (?m p))"
  have ok: "smap_ok ?l" using inv by (simp add: server_inv_def con_inv_def)
  have "?f ` dom ?m \<subseteq> live_ids (sv_id_manager c)"
    using inv by (fastforce simp: server_inv_def handle_owned_def)
  then have "card (dom ?m) \<le> card (live_ids (sv_id_manager c))"
    using card_image [OF server_inv_handle_ids [OF inv]] card_mono [OF finite_live_ids] by metis
  also have "\<dots> = length (filter id (id_space (sv_id_manager c)))"
    using inv id_count_card by (metis server_inv_def id_count_def bitset_count_def)
  also have "\<dots> \<le> 64"
    using inv length_filter_le [of id "id_space (sv_id_manager c)"]
    by (simp add: server_inv_def id_bounds_def SUBSCRIPTION_ID_SPACE_SIZE_def)
  finally have n: "length ?l \<le> 64" by (simp add: smap_size_card [OF ok])
  have "sum_list (map (\<lambda>(p, h). length (ch_handles h)) ?l) \<le> sum_list (map (\<lambda>_. 2 ^ 31) ?l)"
  proof (rule sum_list_mono)
    fix ph assume "ph \<in> set ?l"
    then have "?m (fst ph) = Some (snd ph)" by (simp add: smap_find_set [OF ok])
    then have "handle_owned c (fst ph) (snd ph)" using inv by (simp add: server_inv_def)
    then show "(case ph of (p, h) \<Rightarrow> length (ch_handles h)) \<le> 2 ^ 31"
      by (simp add: handle_owned_def split_beta)
  qed
  also have "\<dots> \<le> 64 * 2 ^ 31" using n by (simp add: sum_list_triv)
  finally show ?thesis by (simp add: size_held)
qed

section \<open>The receiver\<close>

text \<open>Mappings change the receiver's lists and the log, not its map of workers.\<close>

lemma on_receiver_eq:
  obtains u l where "on_receiver f c = sv_set_log l (c\<lparr>sv_receiver := u\<rparr>)"
    "u = fst (f (sv_receiver c, sv_get_log c))"
  by (cases "f (sv_receiver c, sv_get_log c)") (auto simp: on_receiver_def)

lemma mapping_workers:
  "ur_ext_id_worker_store (fst (add_mapping e i (u, l))) = ur_ext_id_worker_store u"
  "ur_ext_id_worker_store (fst (del_mapping e i (u, l))) = ur_ext_id_worker_store u"
  by (auto simp: add_mapping_def del_mapping_def Let_def split: option.split)

lemma server_set_receiver [simp]:
  "server_inv env (c\<lparr>sv_receiver := u\<rparr>) = server_inv env c"
  by (simp add: server_inv_def sub_entry_ok_def handle_owned_def sub_fresh_def)

lemma set_log_receiver:
  "(sv_set_log l c)\<lparr>sv_receiver := u\<rparr> = sv_set_log l (c\<lparr>sv_receiver := u\<rparr>)"
  "sv_set_log l (sv_set_log l' c) = sv_set_log l c"
  by (simp_all add: sv_set_log_def)

lemma foldl_on_receiver:
  assumes "\<And>i u l. ur_ext_id_worker_store (fst (f i (u, l))) = ur_ext_id_worker_store u"
  shows "\<exists>u l. foldl (\<lambda>c i. on_receiver (f i) c) c js = sv_set_log l (c\<lparr>sv_receiver := u\<rparr>) \<and>
     ur_ext_id_worker_store u = ur_ext_id_worker_store (sv_receiver c)"
proof (induction js rule: rev_induct)
  case Nil
  have "c = sv_set_log (sv_get_log c) (c\<lparr>sv_receiver := sv_receiver c\<rparr>)"
    by (simp add: sv_set_log_def sv_get_log_def)
  then show ?case
    by (intro exI [of _ "sv_receiver c"] exI [of _ "sv_get_log c"] conjI refl) simp
next
  case (snoc i js)
  then obtain u l where ul: "foldl (\<lambda>c i. on_receiver (f i) c) c js = sv_set_log l (c\<lparr>sv_receiver := u\<rparr>)"
    "ur_ext_id_worker_store u = ur_ext_id_worker_store (sv_receiver c)" by blast
  let ?c = "sv_set_log l (c\<lparr>sv_receiver := u\<rparr>)"
  obtain u' l' where r: "on_receiver (f i) ?c = sv_set_log l' (?c\<lparr>sv_receiver := u'\<rparr>)"
    "u' = fst (f i (sv_receiver ?c, sv_get_log ?c))" by (rule on_receiver_eq)
  have "ur_ext_id_worker_store u' = ur_ext_id_worker_store (sv_receiver c)"
    using assms [of i u "sv_get_log ?c"] ul(2) r(2) by simp
  then show ?case using ul(1) r(1) by (auto simp: set_log_receiver)
qed

section \<open>Cleaning up\<close>

text \<open>The worker of a subscription: forgotten by the registry and the receiver, and told to stop.\<close>

lemma cleanup_worker:
  assumes inv: "server_inv env c" "udp_inv env c" and a: "smap_find (sv_store c) i = Some a"
    and w: "smap_find (sv_store2 c) i = Some w"
  obtains l u where
    "cleanupSubscriptionUdpWorker env w c = Inr (sv_set_log l (c\<lparr>sv_receiver := u,
       sv_workers := (sv_workers c)(w := setTerminate (sv_workers c w)),
       sv_store2 := smap_erase i (sv_store2 c)\<rparr>))"
    "ur_ext_id_worker_store u = smap_erase i (ur_ext_id_worker_store (sv_receiver c))"
proof -
  let ?wk = "sv_workers c w"
  have we: "worker_entry_ok c i w" and se: "sub_entry_ok c i a"
    using inv a w by (simp_all add: server_inv_def udp_inv_def)
  obtain p h where p: "wk_system_subscription ?wk = Some p"
    "smap_find (con_live (sv_consolidator c)) p = Some h"
    using we se a by (auto simp: worker_entry_ok_def sub_entry_ok_def)
  then obtain js where js: "system_ids (sv_consolidator c) (wk_system_subscription ?wk) = Inr js"
    by (simp add: system_ids_def)
  have live: "sv_worker_live c w" and wid: "wk_id ?wk = i" using we by (simp_all add: worker_entry_ok_def)
  obtain u l where f: "foldl (\<lambda>c j. on_receiver (del_mapping i j) c) c js = sv_set_log l (c\<lparr>sv_receiver := u\<rparr>)"
    "ur_ext_id_worker_store u = ur_ext_id_worker_store (sv_receiver c)"
    using foldl_on_receiver [of "del_mapping i" c js] mapping_workers(2) by blast
  let ?c = "sv_set_log l (c\<lparr>sv_receiver := u\<rparr>)"
  obtain u' l' where r: "on_receiver (del_worker i) ?c = sv_set_log l' (?c\<lparr>sv_receiver := u'\<rparr>)"
    "u' = fst (del_worker i (sv_receiver ?c, sv_get_log ?c))" by (rule on_receiver_eq)
  have found: "smap_find (ur_ext_id_worker_store (sv_receiver c)) i = Some w"
    using inv(2) w by (simp add: udp_inv_def)
  have u': "ur_ext_id_worker_store u' = smap_erase i (ur_ext_id_worker_store (sv_receiver c))"
    using f(2) found r(2) by (simp add: del_worker_def Let_def)
  show thesis
  proof (rule that [OF _ u'])
    show "cleanupSubscriptionUdpWorker env w c = Inr (sv_set_log l' (c\<lparr>sv_receiver := u',
       sv_workers := (sv_workers c)(w := setTerminate (sv_workers c w)),
       sv_store2 := smap_erase i (sv_store2 c)\<rparr>))"
      using live wid js f(1) r(1) w
      by (simp add: cleanupSubscriptionUdpWorker_def deref_worker_def deleteUdpSubscription_def)
        (simp add: sv_set_log_def)
  qed
qed

text \<open>
  The subscription: its handle is returned to the consolidator, its id to the id manager, and
  the object stays, inactive, for the thread that owns it.
\<close>

lemma cleanup_subscription:
  assumes inv: "server_inv env c" and a: "smap_find (sv_store c) i = Some a"
  obtains con ids cs l where
    "cleanupSubscription env a c = Inr (c\<lparr>sv_consolidator := con, sv_id_manager := ids,
       sv_subs := (sv_subs c)(a := (sv_subs c a)\<lparr>mq_calls := cs, sub_active := False\<rparr>),
       sv_store := smap_erase i (sv_store c)\<rparr>)"
    "con_inv (env_sp env) con"
    "con_live con = smap_erase (the (sub_system_subscription (sv_subs c a))) (con_live (sv_consolidator c))"
    "id_ok ids" "id_bounds ids"
    "live_ids ids = live_ids (sv_id_manager c) - {i}"
    "sub_topics (env_gc env) (sv_consolidator c) (sv_subs c a) = Inr l"
    "cs = mq_calls (sv_subs c a) @ map MqUnsubscribe l @ [MqDisconnect, MqLoopStop True]"
    "\<And>p h. sub_system_subscription (sv_subs c a) = Some p \<Longrightarrow>
       smap_find (con_live (sv_consolidator c)) p = Some h \<Longrightarrow>
       requested (env_sp env) (sv_consolidator c) = requested (env_sp env) con +
         mset (map (\<lambda>b. env_sp env (h_path (cs_heap (sv_consolidator c) b))) (ch_handles h))"
proof -
  let ?sub = "sv_subs c a"
  obtain p h where p: "sub_system_subscription ?sub = Some p"
    "smap_find (con_live (sv_consolidator c)) p = Some h" and live: "sv_sub_live c a" and si: "sub_id ?sub = i"
    by (rule server_inv_sub [OF inv a])
  obtain ts where ts: "sub_topics (env_gc env) (sv_consolidator c) ?sub = Inr ts"
    using sub_topics_live [OF p] by blast
  obtain l where dis: "sub_disable (env_gc env) (sv_consolidator c) (?sub, sv_get_log c) =
      Inr (?sub\<lparr>mq_calls := mq_calls ?sub @ map MqUnsubscribe ts\<rparr>, l)"
    using sub_disable_calls [OF ts] by blast
  let ?con = "sv_consolidator (sv_set_log l c)"
  have cinv: "con_inv (env_sp env) ?con" using inv by (simp add: server_inv_def)
  have plive: "smap_find (con_live ?con) p = Some h" using p by simp
  obtain con where rm: "removeRequest (env_sp env) (env_ops env) (Some p) ?con = Inr con"
    "con_inv (env_sp env) con" "con_live con = smap_erase p (con_live ?con)"
    "requested (env_sp env) ?con = mset (map (\<lambda>b. env_sp env (h_path (cs_heap ?con b))) (ch_handles h)) +
       requested (env_sp env) con"
    by (rule removeRequest_inv [OF cinv plive, of "env_ops env"]) blast
  have idm: "id_ok (sv_id_manager c)" "i \<in> live_ids (sv_id_manager c)"
    "id_bounds (sv_id_manager c)"
    using inv a by (auto simp: server_inv_def)
  obtain ids where de: "deallocate i (sv_id_manager c) = Inr (False, ids)" "id_ok ids"
    "live_ids ids = live_ids (sv_id_manager c) - {i}"
    using ids.dealloc_step [OF idm(1), of i] idm(2) by auto
  have len: "id_bounds ids"
    using de(1) idm(3) by (auto simp: id_bounds_def deallocate_def bitset_test_def bitset_put_def split: if_splits)
  let ?cs = "mq_calls ?sub @ map MqUnsubscribe ts @ [MqDisconnect, MqLoopStop True]"
  show thesis
  proof (rule that [where con = con and ids = ids and cs = ?cs and l = ts])
    show "cleanupSubscription env a c = Inr (c\<lparr>sv_consolidator := con, sv_id_manager := ids,
       sv_subs := (sv_subs c)(a := ?sub\<lparr>mq_calls := ?cs, sub_active := False\<rparr>),
       sv_store := smap_erase i (sv_store c)\<rparr>)"
      using live si p(1) dis rm(1) de(1) a
      by (simp add: cleanupSubscription_def deref_sub_def put_sub_def mq_call_def deleteSubscription_def
          setActive_def Let_def)
  qed (use rm de len ts p in \<open>simp_all add: add.commute\<close>)
qed

text \<open>What the two cleanups leave behind.\<close>

definition cleaned :: "u32 \<Rightarrow> addr \<Rightarrow> 'b server \<Rightarrow> 'b server \<Rightarrow> bool" where
  "cleaned i a c c' \<longleftrightarrow> sv_store c' = smap_erase i (sv_store c) \<and>
     (\<exists>cs. sv_subs c' = (sv_subs c)(a := (sv_subs c a)\<lparr>mq_calls := cs, sub_active := False\<rparr>)) \<and>
     sv_store2 c' = smap_erase i (sv_store2 c) \<and>
     ur_ext_id_worker_store (sv_receiver c') = smap_erase i (ur_ext_id_worker_store (sv_receiver c)) \<and>
     (\<forall>w. wk_id (sv_workers c' w) = wk_id (sv_workers c w) \<and>
        wk_system_subscription (sv_workers c' w) = wk_system_subscription (sv_workers c w)) \<and>
     sv_sub_live c' = sv_sub_live c \<and> sv_worker_live c' = sv_worker_live c \<and>
     sv_next c' = sv_next c \<and> sv_transports c' = sv_transports c \<and>
     sv_path_validator c' = sv_path_validator c"

lemma cleaned_sub [simp]:
  assumes "cleaned i a c c'"
  shows "sub_id (sv_subs c' b) = sub_id (sv_subs c b)"
    "sub_transport (sv_subs c' b) = sub_transport (sv_subs c b)"
    "sub_system_subscription (sv_subs c' b) = sub_system_subscription (sv_subs c b)"
    "limits_reached (sv_subs c' b) = limits_reached (sv_subs c b)"
    "sub_active (sv_subs c' b) \<longleftrightarrow> b \<noteq> a \<and> sub_active (sv_subs c b)"
  using assms by (cases "b = a"; auto simp: cleaned_def)+

lemma cleaned_frame:
  assumes "cleaned i a c c'"
  shows "smap_find (sv_store c') = (smap_find (sv_store c))(i := None)"
    "smap_find (sv_store2 c') = (smap_find (sv_store2 c))(i := None)"
    "smap_find (ur_ext_id_worker_store (sv_receiver c')) =
       (smap_find (ur_ext_id_worker_store (sv_receiver c)))(i := None)"
    "wk_id (sv_workers c' w) = wk_id (sv_workers c w)"
    "wk_system_subscription (sv_workers c' w) = wk_system_subscription (sv_workers c w)"
    "sv_sub_live c' = sv_sub_live c" "sv_worker_live c' = sv_worker_live c"
    "sv_next c' = sv_next c" "sv_transports c' = sv_transports c"
    "sv_path_validator c' = sv_path_validator c"
  using assms by (simp_all add: cleaned_def smap_find_erase)

lemma udp_inv_cleaned:
  assumes "udp_inv env c" and "cleaned i a c c'"
  shows "udp_inv env c'"
proof -
  note f = cleaned_frame [OF assms(2)]
  have "worker_entry_ok c' j w" if "smap_find (sv_store2 c') j = Some w" for j w
  proof -
    have j: "j \<noteq> i" "smap_find (sv_store2 c) j = Some w" using that by (auto simp: f split: if_splits)
    then have "worker_entry_ok c j w" using assms(1) by (simp add: udp_inv_def)
    then show ?thesis
      using j(1) by (simp add: worker_entry_ok_def f cleaned_sub [OF assms(2)])
  qed
  moreover have "smap_ok (sv_store2 c')" "smap_ok (ur_ext_id_worker_store (sv_receiver c'))"
    using assms by (simp_all add: cleaned_def udp_inv_def smap_ok_erase)
  moreover have "sv_store2 c = [] \<Longrightarrow> sv_store2 c' = []"
    using assms(2) by (simp add: cleaned_def smap_erase_def)
  ultimately show ?thesis
    using assms(1) by (simp add: udp_inv_def f split: if_splits)
qed

lemma other_handle:
  assumes inv: "server_inv env c" and a: "smap_find (sv_store c) i = Some a"
    and b: "smap_find (sv_store c) j = Some b" "i \<noteq> j"
  shows "sub_system_subscription (sv_subs c b) \<noteq> sub_system_subscription (sv_subs c a)" "a \<noteq> b"
proof -
  have "sub_entry_ok c i a" "sub_entry_ok c j b" using assms by (simp_all add: server_inv_def)
  then show "sub_system_subscription (sv_subs c b) \<noteq> sub_system_subscription (sv_subs c a)" "a \<noteq> b"
    using b(2) by (auto simp: sub_entry_ok_def)
qed

lemma server_inv_cleaned:
  assumes inv: "server_inv env c" and a: "smap_find (sv_store c) i = Some a" and c': "cleaned i a c c'"
    and con: "con_inv (env_sp env) (sv_consolidator c')"
      "con_live (sv_consolidator c') =
         smap_erase (the (sub_system_subscription (sv_subs c a))) (con_live (sv_consolidator c))"
    and ids: "id_ok (sv_id_manager c')" "id_bounds (sv_id_manager c')"
      "live_ids (sv_id_manager c') = live_ids (sv_id_manager c) - {i}"
  shows "server_inv env c'"
proof -
  note f = cleaned_frame [OF c']
  obtain p where p: "sub_system_subscription (sv_subs c a) = Some p"
    by (rule server_inv_sub [OF inv a])
  note find = f(1)
  have live: "smap_find (con_live (sv_consolidator c')) = (smap_find (con_live (sv_consolidator c)))(p := None)"
    using f con p by (simp_all add: smap_find_erase)
  have "sub_entry_ok c' j b" if "smap_find (sv_store c') j = Some b" for j b
  proof -
    have j: "i \<noteq> j" "smap_find (sv_store c) j = Some b" using that by (auto simp: find split: if_splits)
    then have "sub_entry_ok c j b" using inv by (simp add: server_inv_def)
    moreover have "sub_system_subscription (sv_subs c b) \<noteq> Some p"
      using other_handle(1) [OF inv a j(2,1)] p by simp
    ultimately show ?thesis
      by (auto simp: sub_entry_ok_def live f cleaned_sub [OF c'])
  qed
  moreover have "handle_owned c' q h" if "smap_find (con_live (sv_consolidator c')) q = Some h" for q h
  proof -
    have q: "q \<noteq> p" "smap_find (con_live (sv_consolidator c)) q = Some h"
      using that by (auto simp: live split: if_splits)
    then have o: "handle_owned c q h" using inv by (simp add: server_inv_def)
    then have "ch_subscription_id h \<noteq> i" using a p q(1) by (auto simp: handle_owned_def)
    then show ?thesis using o by (auto simp: handle_owned_def find cleaned_sub [OF c'])
  qed
  moreover have "sub_fresh c'"
    using inv by (simp add: server_inv_def sub_fresh_def f cleaned_sub [OF c'])
  moreover have "live_ids (sv_id_manager c') = dom (smap_find (sv_store c'))"
    using inv ids(3) by (auto simp: server_inv_def find)
  moreover have "smap_ok (sv_store c')"
    using inv c' by (simp add: server_inv_def cleaned_def smap_ok_erase)
  ultimately show ?thesis
    using inv con(1) ids by (simp add: server_inv_def f)
qed

text \<open>
  The cleanup of a registered subscription, with its worker when the UDP server is configured,
  never fails and keeps the invariants.
\<close>

lemma cleanup_both:
  assumes inv: "server_inv env c" "udp_inv env c" and a: "smap_find (sv_store c) i = Some a"
    and ow: "ow = (if udp_server_module (env_gc env) then smap_find (sv_store2 c) i else None)"
  obtains c' where
    "res_bind (case ow of None \<Rightarrow> Inr c | Some w \<Rightarrow> cleanupSubscriptionUdpWorker env w c)
       (cleanupSubscription env a) = Inr c'"
    "cleaned i a c c'" "server_inv env c'" "udp_inv env c'"
proof -
  have "\<exists>l u ws. (case ow of None \<Rightarrow> Inr c | Some w \<Rightarrow> cleanupSubscriptionUdpWorker env w c) =
      Inr (sv_set_log l (c\<lparr>sv_receiver := u, sv_workers := ws, sv_store2 := smap_erase i (sv_store2 c)\<rparr>)) \<and>
      ur_ext_id_worker_store u = smap_erase i (ur_ext_id_worker_store (sv_receiver c)) \<and>
      (\<forall>w. wk_id (ws w) = wk_id (sv_workers c w) \<and>
        wk_system_subscription (ws w) = wk_system_subscription (sv_workers c w))"
  proof (cases ow)
    case None
    have "i \<notin> dom (smap_find (sv_store2 c))"
      using None ow inv(2) a by (auto simp: udp_inv_def split: if_splits)
    then have "smap_find (sv_store2 c) i = None" by auto
    moreover from this have "smap_find (ur_ext_id_worker_store (sv_receiver c)) i = None"
      using inv(2) by (simp add: udp_inv_def)
    moreover have "sv_set_log (sv_get_log c) c = c" by (simp add: sv_set_log_def sv_get_log_def)
    ultimately show ?thesis
      using None
      by (intro exI [of _ "sv_get_log c"] exI [of _ "sv_receiver c"] exI [of _ "sv_workers c"])
        (simp add: smap_erase_None)
  next
    case (Some w)
    then have w: "smap_find (sv_store2 c) i = Some w" using ow by (simp split: if_splits)
    obtain l u where r: "cleanupSubscriptionUdpWorker env w c = Inr (sv_set_log l (c\<lparr>sv_receiver := u,
       sv_workers := (sv_workers c)(w := setTerminate (sv_workers c w)),
       sv_store2 := smap_erase i (sv_store2 c)\<rparr>))"
      "ur_ext_id_worker_store u = smap_erase i (ur_ext_id_worker_store (sv_receiver c))"
      by (rule cleanup_worker [OF inv a w])
    show ?thesis
      by (rule exI [of _ l], rule exI [of _ u],
          rule exI [of _ "(sv_workers c)(w := setTerminate (sv_workers c w))"])
        (use r Some in \<open>simp add: setTerminate_def\<close>)
  qed
  then obtain l u ws where
    1: "(case ow of None \<Rightarrow> Inr c | Some w \<Rightarrow> cleanupSubscriptionUdpWorker env w c) =
      Inr (sv_set_log l (c\<lparr>sv_receiver := u, sv_workers := ws, sv_store2 := smap_erase i (sv_store2 c)\<rparr>))"
    and u: "ur_ext_id_worker_store u = smap_erase i (ur_ext_id_worker_store (sv_receiver c))"
    and ws: "\<forall>w. wk_id (ws w) = wk_id (sv_workers c w) \<and>
        wk_system_subscription (ws w) = wk_system_subscription (sv_workers c w)" by blast
  let ?c = "sv_set_log l (c\<lparr>sv_receiver := u, sv_workers := ws, sv_store2 := smap_erase i (sv_store2 c)\<rparr>)"
  have inv': "server_inv env ?c"
    using inv(1) by (simp add: server_inv_def sub_entry_ok_def handle_owned_def sub_fresh_def)
  have a': "smap_find (sv_store ?c) i = Some a" using a by simp
  obtain con ids cs where 2: "cleanupSubscription env a ?c = Inr (?c\<lparr>sv_consolidator := con, sv_id_manager := ids,
       sv_subs := (sv_subs ?c)(a := (sv_subs ?c a)\<lparr>mq_calls := cs, sub_active := False\<rparr>),
       sv_store := smap_erase i (sv_store ?c)\<rparr>)"
    and con: "con_inv (env_sp env) con"
    "con_live con = smap_erase (the (sub_system_subscription (sv_subs ?c a))) (con_live (sv_consolidator ?c))"
    and ids: "id_ok ids" "id_bounds ids"
    "live_ids ids = live_ids (sv_id_manager ?c) - {i}"
    by (rule cleanup_subscription [OF inv' a']) blast
  let ?c' = "?c\<lparr>sv_consolidator := con, sv_id_manager := ids,
       sv_subs := (sv_subs ?c)(a := (sv_subs ?c a)\<lparr>mq_calls := cs, sub_active := False\<rparr>),
       sv_store := smap_erase i (sv_store ?c)\<rparr>"
  have cl: "cleaned i a c ?c'" unfolding cleaned_def using u ws by auto
  show thesis
  proof (rule that [OF _ cl])
    show "res_bind (case ow of None \<Rightarrow> Inr c | Some w \<Rightarrow> cleanupSubscriptionUdpWorker env w c)
       (cleanupSubscription env a) = Inr ?c'" using 1 2 by simp
    show "server_inv env ?c'"
      by (rule server_inv_cleaned [OF inv(1) a cl]) (use con ids in simp_all)
    show "udp_inv env ?c'" by (rule udp_inv_cleaned [OF inv(2) cl])
  qed
qed

end
