(* ===== verification/ServerRuns.thy ===== *)
theory ServerRuns
  imports ServerInvariant
begin

text \<open>
  Runs of the service: subscribing, the threads of the subscriptions, cancellations, bus messages
  and disconnects as steps, in any order; the invariant of the threads; and what it gives.
\<close>

section \<open>Subscribing\<close>

lemma validate_paths_length: "length (fst (validate_paths ps v)) \<le> length ps"
proof (induction ps arbitrary: v)
  case (Cons p ps)
  obtain q v1 where v1: "validate_path p v = (q, v1)" by fastforce
  then show ?case using Cons [of v1] by (auto split: prod.split)
qed simp

lemma validate_request_ok:
  assumes "validate_ocpaths (env_gc env) \<longrightarrow> sv_path_validator c \<noteq> None"
  obtains validated pv l where
    "validate_request env request c = Inr (validated, sv_set_log l (c\<lparr>sv_path_validator := pv\<rparr>))"
    "length (sr_path_list validated) \<le> length (sr_path_list request)"
    "validate_ocpaths (env_gc env) \<longrightarrow> pv \<noteq> None"
proof (cases "validate_ocpaths (env_gc env)")
  case True
  then obtain v where v: "sv_path_validator c = Some v" using assms by blast
  obtain qs v' where q: "validate_paths (sr_path_list request) v = (qs, v')" by fastforce
  have "length qs \<le> length (sr_path_list request)"
    using validate_paths_length [of "sr_path_list request" v] q by simp
  then have len: "length (sr_path_list (subscription_request_cleared
      \<lparr>sr_additional_config := sr_additional_config request, sr_path_list := qs\<rparr>)) \<le>
    length (sr_path_list request)" by simp
  have "\<exists>l. validate_request env request c =
      Inr (subscription_request_cleared\<lparr>sr_additional_config := sr_additional_config request, sr_path_list := qs\<rparr>,
        sv_set_log l (c\<lparr>sv_path_validator := Some v'\<rparr>))"
    using True v q
    by (simp add: validate_request_def sv_log_eq Let_def) (auto simp: sv_set_log_def sv_get_log_def)
  then obtain l where r: "validate_request env request c =
      Inr (subscription_request_cleared\<lparr>sr_additional_config := sr_additional_config request, sr_path_list := qs\<rparr>,
        sv_set_log l (c\<lparr>sv_path_validator := Some v'\<rparr>))" by blast
  show thesis by (rule that [OF r len]) simp
next
  case False
  have "sv_set_log (sv_get_log c) c = c" by (simp add: sv_set_log_def sv_get_log_def)
  then show thesis
    using False by (intro that [where validated = request and pv = "sv_path_validator c" and l = "sv_get_log c"])
      (simp_all add: validate_request_def)
qed

text \<open>What a successful subscription adds to the state.\<close>

definition opened :: "'b server_env \<Rightarrow> bool \<Rightarrow> session \<Rightarrow> 'b server \<Rightarrow> 'b server \<Rightarrow> bool" where
  "opened env active s c c' \<longleftrightarrow>
     smap_find (sv_store c) (ss_id s) = None \<and>
     sv_store c' = smap_put (ss_id s) (ss_sub s) (sv_store c) \<and>
     sv_next c \<le> ss_sub s \<and> sv_next c \<le> sv_next c' \<and>
     (\<exists>sub. sv_subs c' = (sv_subs c)(ss_sub s := sub) \<and> sub_id sub = ss_id s \<and> \<not> limits_reached sub \<and>
        sub_active sub = active \<and> sub_transport sub = ss_transport s) \<and>
     sv_sub_live c' = (sv_sub_live c)(ss_sub s := True) \<and>
     sv_next c \<le> ss_transport s \<and>
     sv_transports c' = (sv_transports c)(ss_transport s := new_transport (Some False) (Some [])) \<and>
     (case ss_worker s of
        None \<Rightarrow> \<not> udp_server_module (env_gc env) \<and> sv_store2 c' = sv_store2 c \<and>
          sv_workers c' = sv_workers c \<and> sv_worker_live c' = sv_worker_live c
      | Some w \<Rightarrow> udp_server_module (env_gc env) \<and> sv_next c \<le> w \<and> w < sv_next c' \<and>
          sv_store2 c' = smap_put (ss_id s) w (sv_store2 c) \<and>
          sv_worker_live c' = (sv_worker_live c)(w := True) \<and>
          (\<exists>wk. sv_workers c' = (sv_workers c)(w := wk) \<and> wk_id wk = ss_id s))"

text \<open>The worker of a new subscription.\<close>

lemma start_worker:
  assumes h: "smap_find (con_live (sv_consolidator c)) p = Some h"
    and new: "smap_find (ur_ext_id_worker_store (sv_receiver c)) i = None"
  obtains (off) "\<not> udp_server_module (env_gc env)"
      "start_udp_worker env garbage i p tr paths c = Inr (None, c)"
    | (on) l u where "udp_server_module (env_gc env)"
      "start_udp_worker env garbage i p tr paths c = Inr (Some (sv_next c), sv_set_log l
         (c\<lparr>sv_next := Suc (sv_next c),
            sv_workers := (sv_workers c)(sv_next c := new_udp_worker garbage i p tr paths),
            sv_store2 := smap_put i (sv_next c) (sv_store2 c),
            sv_worker_live := (sv_worker_live c)(sv_next c := True), sv_receiver := u\<rparr>))"
      "ur_ext_id_worker_store u = smap_put i (sv_next c) (ur_ext_id_worker_store (sv_receiver c))"
proof (cases "udp_server_module (env_gc env)")
  case False
  then show thesis using off by (simp add: start_udp_worker_def)
next
  case True
  let ?w = "sv_next c"
  let ?c1 = "c\<lparr>sv_next := Suc ?w,
            sv_workers := (sv_workers c)(?w := new_udp_worker garbage i p tr paths),
            sv_store2 := smap_put i ?w (sv_store2 c),
            sv_worker_live := (sv_worker_live c)(?w := True)\<rparr>"
  obtain u l where r: "on_receiver (add_worker i ?w) ?c1 = sv_set_log l (?c1\<lparr>sv_receiver := u\<rparr>)"
    "u = fst (add_worker i ?w (sv_receiver ?c1, sv_get_log ?c1))" by (rule on_receiver_eq)
  have u: "ur_ext_id_worker_store u = smap_put i ?w (ur_ext_id_worker_store (sv_receiver c))"
    using r(2) new by (simp add: add_worker_def Let_def)
  let ?c2 = "sv_set_log l (?c1\<lparr>sv_receiver := u\<rparr>)"
  obtain js where js: "system_ids (sv_consolidator ?c2) (Some p) = Inr js"
    using h by (simp add: system_ids_def)
  obtain u' l' where f: "foldl (\<lambda>c j. on_receiver (add_mapping i j) c) ?c2 js =
      sv_set_log l' (?c2\<lparr>sv_receiver := u'\<rparr>)"
    "ur_ext_id_worker_store u' = ur_ext_id_worker_store (sv_receiver ?c2)"
    using foldl_on_receiver [of "add_mapping i" ?c2 js] mapping_workers(1) by blast
  show thesis
  proof (rule on [OF True])
    show "ur_ext_id_worker_store u' = smap_put i ?w (ur_ext_id_worker_store (sv_receiver c))"
      using f(2) u by simp
    show "start_udp_worker env garbage i p tr paths c = Inr (Some ?w, sv_set_log l' (?c1\<lparr>sv_receiver := u'\<rparr>))"
      using True r(1) js f(1)
      by (simp add: start_udp_worker_def createSubscriptionUdpWorker_def Let_def set_log_receiver)
  qed
qed

lemma con_inv_sv_log [simp]: "con_inv sp (sv_consolidator (sv_log m c)) = con_inv sp (sv_consolidator c)"
  by (simp add: sv_log_eq)

lemma sendMetaDataInfo_frame [simp]:
  "server_inv env (sendMetaDataInfo env' r c) = server_inv env c"
  "udp_inv env (sendMetaDataInfo env' r c) = udp_inv env c"
  "opened env act s c0 (sendMetaDataInfo env' r c) = opened env act s c0 c"
  "sv_metadata (sendMetaDataInfo env' r c) = sv_metadata c @ [r]"
  "sv_store (sendMetaDataInfo env' r c) = sv_store c"
  by (simp_all add: sendMetaDataInfo_def)
    (simp_all add: server_inv_def udp_inv_def sub_entry_ok_def handle_owned_def sub_fresh_def
      worker_entry_ok_def opened_def split: option.split)

text \<open>
  The state a subscription is registered in, before its worker is started: \<open>c1\<close> adds to \<open>c\<close> the
  handle, the transport and the subscription \<open>i\<close>.
\<close>

lemma server_inv_open:
  assumes con: "con_inv (env_sp env) (sv_consolidator c1)"
    "con_live (sv_consolidator c1) = smap_put p h (con_live (sv_consolidator c))"
    "smap_find (con_live (sv_consolidator c)) p = None" "smap_ok (con_live (sv_consolidator c))"
    "ch_subscription_id h = i" "length (ch_handles h) < 2 ^ 31"
    and ids: "id_ok (sv_id_manager c1)" "id_bounds (sv_id_manager c1)"
    "live_ids (sv_id_manager c1) = insert i (dom (smap_find (sv_store c)))"
    and old: "smap_ok (sv_store c)" "smap_find (sv_store c) i = None" "sub_fresh c"
    "\<And>j b. smap_find (sv_store c) j = Some b \<Longrightarrow> sub_entry_ok c j b"
    "\<And>q k. smap_find (con_live (sv_consolidator c)) q = Some k \<Longrightarrow> handle_owned c q k"
    and pv: "validate_ocpaths (env_gc env) \<longrightarrow> sv_path_validator c1 \<noteq> None"
    and st: "sv_store c1 = smap_put i a (sv_store c)" "sv_subs c1 = (sv_subs c)(a := sub)"
    "sv_sub_live c1 = (sv_sub_live c)(a := True)" "sv_next c \<le> a" "a < sv_next c1"
    and sub: "sub_id sub = i" "sub_system_subscription sub = Some p" "sub_transport sub < sv_next c1"
  shows "server_inv env c1"
proof -
  have find: "smap_find (sv_store c1) = (smap_find (sv_store c))(i \<mapsto> a)"
    and live: "smap_find (con_live (sv_consolidator c1)) = (smap_find (con_live (sv_consolidator c)))(p \<mapsto> h)"
    using st(1) old(1) con by (simp_all add: smap_find_put)
  have fresh: "\<not> sv_sub_live c a" using old(3) st(4) by (auto simp: sub_fresh_def)
  have "sub_entry_ok c1 j b" if "smap_find (sv_store c1) j = Some b" for j b
  proof (cases "j = i")
    case True
    then show ?thesis using that st(2-) sub con(5) by (simp add: sub_entry_ok_def find live)
  next
    case False
    then have o: "sub_entry_ok c j b" using that old(4) by (simp add: find)
    then have "b \<noteq> a" using fresh by (auto simp: sub_entry_ok_def)
    then show ?thesis using o con(3) st(2-) by (auto simp: sub_entry_ok_def live)
  qed
  moreover have "handle_owned c1 q k" if "smap_find (con_live (sv_consolidator c1)) q = Some k" for q k
  proof (cases "q = p")
    case True
    then show ?thesis using that st(2-) sub con(5,6) by (simp add: handle_owned_def find live)
  next
    case False
    then have "handle_owned c q k" using that old(5) by (simp add: live)
    then obtain b where b: "length (ch_handles k) < 2 ^ 31" "smap_find (sv_store c) (ch_subscription_id k) = Some b"
      "sub_system_subscription (sv_subs c b) = Some q" by (auto simp: handle_owned_def)
    then have "sub_entry_ok c (ch_subscription_id k) b" by (intro old(4))
    then have "b \<noteq> a" using fresh by (auto simp: sub_entry_ok_def)
    moreover have "ch_subscription_id k \<noteq> i" using b(2) old(2) by auto
    ultimately show ?thesis using b st(2-) by (simp add: handle_owned_def find)
  qed
  moreover have "sub_fresh c1"
    using old(3) st sub by (auto simp: sub_fresh_def intro: less_le_trans le_less_trans less_trans)
  moreover have "smap_ok (sv_store c1)" using st(1) old(1) by (simp add: smap_ok_put)
  moreover have "live_ids (sv_id_manager c1) = dom (smap_find (sv_store c1))" using ids(3) by (simp add: find)
  ultimately show ?thesis
    using con(1) ids pv by (simp add: server_inv_def)
qed

text \<open>
  Registering: \<open>c\<close> is a state of the invariant in which the id has been taken and the request
  validated, \<open>c1\<close> the state before the worker is started.
\<close>

lemma register_ok:
  assumes inv: "server_inv env c0" and al: "allocate (sv_id_manager c0) = Inr (i, ids)" "i \<noteq> 0"
    and c: "c = sv_set_log l (c0\<lparr>sv_id_manager := ids, sv_path_validator := pv\<rparr>)"
    and pv: "validate_ocpaths (env_gc env) \<longrightarrow> pv \<noteq> None"
    and len: "length (sr_path_list validated) < 2 ^ 31"
  obtains acc c1 p h sub a tr where
    "open_subscription env garbage act i validated c =
      res_bind (start_udp_worker env garbage i p tr (map p_path acc) c1) (\<lambda>(w, c).
        Inr (Some \<lparr>ss_id = i, ss_sub = a, ss_worker = w, ss_transport = tr\<rparr>,
          sendMetaDataInfo env \<lparr>rep_subscription_id = i, rep_path_list = acc\<rparr> c))"
    "server_inv env c1" "smap_find (sv_store c0) i = None" "subseq acc (sr_path_list validated)"
    "tr = sv_next c0" "a = Suc tr" "sv_next c1 = Suc a"
    "sv_store c1 = smap_put i a (sv_store c0)" "sv_subs c1 = (sv_subs c0)(a := sub)"
    "sv_sub_live c1 = (sv_sub_live c0)(a := True)"
    "sv_transports c1 = (sv_transports c0)(tr := new_transport (Some False) (Some []))"
    "sv_store2 c1 = sv_store2 c0" "sv_workers c1 = sv_workers c0" "sv_worker_live c1 = sv_worker_live c0"
    "sv_receiver c1 = sv_receiver c0" "sv_metadata c1 = sv_metadata c0"
    "smap_find (con_live (sv_consolidator c1)) p = Some h"
    "sub_id sub = i" "sub_system_subscription sub = Some p" "sub_transport sub = tr"
    "sub_active sub = act" "\<not> limits_reached sub"
proof -
  let ?con = "sv_consolidator c" and ?p = "con_next (sv_consolidator c)" and ?tr = "sv_next c0"
  have inv0: "con_inv (env_sp env) ?con" "smap_ok (con_live ?con)"
    using inv by (simp_all add: c server_inv_def con_inv_def sv_set_log_def)
  have "requested (env_sp env) ?con = requested (env_sp env) (sv_consolidator c0)"
    by (simp add: c)
  then have room: "size (requested (env_sp env) ?con) + length (sr_path_list validated) < 2 ^ 64 - 1"
    using server_inv_room [OF inv, of "env_sp env"] len by (simp del: size_requested)
  obtain h acc con' where add:
    "addRequest (env_sp env) (env_ops env) i (sr_path_list validated) [] ?con = Inr (?p, [] @ acc, con')"
    "con_inv (env_sp env) con'" "subseq acc (sr_path_list validated)"
    "con_live con' = smap_put ?p h (con_live ?con)" "ch_subscription_id h = i"
    "map (\<lambda>a. env_sp env (h_path (cs_heap con' a))) (ch_handles h) = map (env_sp env) acc"
    by (rule addRequest_inv [OF inv0(1) room, of "env_ops env" i "[]"]) blast
  have "length (ch_handles h) = length acc" using arg_cong [OF add(6), of length] by simp
  then have hl: "length (ch_handles h) < 2 ^ 31" using list_emb_length [OF add(3)] len by simp
  define sa where "sa = subscription_request_cleared
      \<lparr>sr_additional_config := sr_additional_config validated, sr_path_list := acc\<rparr>"
  define limits where "limits = new_limits (scast (limit_records (sr_additional_config sa)))
      (scast (limit_time_seconds (sr_additional_config sa)))"
  define sub where "sub = new_subscription garbage act (''client-'' @ string_of_u32 i) i ?p ?tr (map p_path acc) limits"
  define c1 where "c1 = (sv_log (final_paths_line acc)
      (sv_log (''System Accepted Paths->'' @ env_show_request env sa) (c\<lparr>sv_consolidator := con'\<rparr>)))
      \<lparr>sv_next := Suc (Suc ?tr), sv_transports := (sv_transports c0)(?tr := new_transport (Some False) (Some [])),
       sv_subs := (sv_subs c0)(Suc ?tr := sub), sv_store := smap_put i (Suc ?tr) (sv_store c0),
       sv_sub_live := (sv_sub_live c0)(Suc ?tr := True)\<rparr>"
  have sub: "sub_id sub = i" "sub_system_subscription sub = Some ?p" "sub_transport sub = ?tr"
    "sub_active sub = act" "\<not> limits_reached sub"
    by (simp_all add: sub_def new_subscription_def new_mqtt_def mqtt.defs)
  have call: "open_subscription env garbage act i validated c =
      res_bind (start_udp_worker env garbage i ?p ?tr (map p_path acc) c1) (\<lambda>(w, c).
        Inr (Some \<lparr>ss_id = i, ss_sub = Suc ?tr, ss_worker = w, ss_transport = ?tr\<rparr>,
          sendMetaDataInfo env \<lparr>rep_subscription_id = i, rep_path_list = acc\<rparr> c))"
    using add(1) by (simp add: open_subscription_def Let_def createSubscription_def c1_def sa_def
        limits_def sub_def c)
  have idf: "id_ok ids" "i \<notin> live_ids (sv_id_manager c0)" "live_ids ids = insert i (live_ids (sv_id_manager c0))"
    using ids.alloc_step [OF _ al(1)] inv al(2) by (auto simp: server_inv_def)
  have idl: "id_bounds ids"
  proof -
    have "id_ok (sv_id_manager c0)" "id_bounds (sv_id_manager c0)"
      using inv by (simp_all add: server_inv_def)
    then show ?thesis using al(1) by (cases rule: allocate_cases) (auto simp: id_bounds_def)
  qed
  have new: "smap_find (sv_store c0) i = None" "live_ids (sv_id_manager c0) = dom (smap_find (sv_store c0))"
    using idf(2) inv by (auto simp: server_inv_def)
  have c1f: "sv_store c1 = smap_put i (Suc ?tr) (sv_store c0)" "sv_subs c1 = (sv_subs c0)(Suc ?tr := sub)"
    "sv_sub_live c1 = (sv_sub_live c0)(Suc ?tr := True)" "sv_next c1 = Suc (Suc ?tr)"
    "sv_transports c1 = (sv_transports c0)(?tr := new_transport (Some False) (Some []))"
    "con_live (sv_consolidator c1) = smap_put ?p h (con_live (sv_consolidator c0))"
    "sv_path_validator c1 = pv" "sv_id_manager c1 = ids" "sv_store2 c1 = sv_store2 c0"
    "sv_workers c1 = sv_workers c0" "sv_worker_live c1 = sv_worker_live c0"
    "sv_receiver c1 = sv_receiver c0" "sv_metadata c1 = sv_metadata c0"
    "con_inv (env_sp env) (sv_consolidator c1)"
    using add(2,4) by (simp_all add: c1_def c)
  have old: "smap_ok (sv_store c0)" "sub_fresh c0" "smap_ok (con_live (sv_consolidator c0))"
    "\<And>j b. smap_find (sv_store c0) j = Some b \<Longrightarrow> sub_entry_ok c0 j b"
    "\<And>q k. smap_find (con_live (sv_consolidator c0)) q = Some k \<Longrightarrow> handle_owned c0 q k"
    using inv by (auto simp: server_inv_def con_inv_def)
  have none: "smap_find (con_live (sv_consolidator c0)) ?p = None"
    using con_inv_fresh [OF inv0(1)] by (simp add: c)
  have c1inv: "server_inv env c1"
    by (rule server_inv_open [where c = c0 and p = ?p and h = h and i = i and a = "Suc ?tr" and sub = sub])
      (simp_all add: c1f old sub new hl [simplified] add(5) idf(1,3) idl pv none)
  show thesis
    by (rule that [where sub = sub and h = h, OF call c1inv new(1) add(3)]) (simp_all add: c1f sub old(3) smap_find_put)
qed

text \<open>The UDP side of a registered subscription.\<close>

lemma udp_inv_open:
  assumes inv: "udp_inv env c0" "server_inv env c0" and new: "smap_find (sv_store c0) i = None"
    and st: "sv_store c' = smap_put i a (sv_store c0)" "sv_subs c' = (sv_subs c0)(a := sub)"
    "sv_next c0 \<le> a" "sv_next c0 \<le> sv_next c'"
    and wk: "case w of
       None \<Rightarrow> \<not> udp_server_module (env_gc env) \<and> sv_store2 c' = sv_store2 c0 \<and>
         sv_workers c' = sv_workers c0 \<and> sv_worker_live c' = sv_worker_live c0 \<and>
         ur_ext_id_worker_store (sv_receiver c') = ur_ext_id_worker_store (sv_receiver c0)
     | Some w \<Rightarrow> udp_server_module (env_gc env) \<and> sv_next c0 \<le> w \<and> w < sv_next c' \<and>
         sv_store2 c' = smap_put i w (sv_store2 c0) \<and>
         sv_workers c' = (sv_workers c0)(w := wk) \<and> wk_id wk = i \<and>
         wk_system_subscription wk = sub_system_subscription sub \<and>
         sv_worker_live c' = (sv_worker_live c0)(w := True) \<and>
         ur_ext_id_worker_store (sv_receiver c') = smap_put i w (ur_ext_id_worker_store (sv_receiver c0))"
  shows "udp_inv env c'"
proof (cases w)
  case None
  then show ?thesis using wk inv(1) by (simp add: udp_inv_def)
next
  case (Some w')
  note wk = wk [unfolded Some option.case]
  have ok: "smap_ok (sv_store c0)" "smap_ok (sv_store2 c0)" "smap_ok (ur_ext_id_worker_store (sv_receiver c0))"
    using inv by (simp_all add: server_inv_def udp_inv_def)
  have find: "smap_find (sv_store c') = (smap_find (sv_store c0))(i \<mapsto> a)"
    and find2: "smap_find (sv_store2 c') = (smap_find (sv_store2 c0))(i \<mapsto> w')"
    and find3: "smap_find (ur_ext_id_worker_store (sv_receiver c')) =
        (smap_find (ur_ext_id_worker_store (sv_receiver c0)))(i \<mapsto> w')"
    using st(1) wk ok by (simp_all add: smap_find_put)
  have "worker_entry_ok c' j v" if "smap_find (sv_store2 c') j = Some v" for j v
  proof (cases "j = i")
    case True
    then have "v = w'" using that by (simp add: find2)
    then show ?thesis using True wk st(2) by (simp add: worker_entry_ok_def find)
  next
    case False
    then have o: "worker_entry_ok c0 j v" using that inv(1) by (simp add: udp_inv_def find2)
    then have "v \<noteq> w'" using wk by (auto simp: worker_entry_ok_def)
    moreover have "b \<noteq> a" if "smap_find (sv_store c0) j = Some b" for b
      using server_inv_below(1) [OF inv(2) that] st(3) by simp
    moreover have "v < sv_next c'" using o st(4) by (simp add: worker_entry_ok_def)
    moreover have "sv_workers c' v = sv_workers c0 v" "sv_worker_live c' v = sv_worker_live c0 v"
      using wk calculation by auto
    ultimately show ?thesis using o False st(2) by (simp add: worker_entry_ok_def find)
  qed
  moreover have "smap_ok (sv_store2 c')" "smap_ok (ur_ext_id_worker_store (sv_receiver c'))"
    using wk ok by (simp_all add: smap_ok_put)
  moreover have "udp_server_module (env_gc env)" using wk by simp
  ultimately show ?thesis
    using inv(1) by (simp add: udp_inv_def find find2 find3)
qed

lemma open_subscription_ok:
  assumes inv: "server_inv env c0" "udp_inv env c0"
    and al: "allocate (sv_id_manager c0) = Inr (i, ids)" "i \<noteq> 0"
    and c: "c = sv_set_log l (c0\<lparr>sv_id_manager := ids, sv_path_validator := pv\<rparr>)"
    and pv: "validate_ocpaths (env_gc env) \<longrightarrow> pv \<noteq> None"
    and len: "length (sr_path_list validated) < 2 ^ 31"
  obtains s acc c' where "open_subscription env garbage act i validated c = Inr (Some s, c')"
    "server_inv env c'" "udp_inv env c'" "opened env act s c0 c'" "ss_id s = i"
    "subseq acc (sr_path_list validated)"
    "sv_metadata c' = sv_metadata c0 @ [\<lparr>rep_subscription_id = i, rep_path_list = acc\<rparr>]"
proof (rule register_ok [OF inv(1) al c pv len, of garbage act])
  fix acc c1 p h sub a tr
  let ?paths = "map p_path acc" and ?r = "\<lparr>rep_subscription_id = i, rep_path_list = acc\<rparr>"
  assume call: "open_subscription env garbage act i validated c =
      res_bind (start_udp_worker env garbage i p tr ?paths c1) (\<lambda>(w, c).
        Inr (Some \<lparr>ss_id = i, ss_sub = a, ss_worker = w, ss_transport = tr\<rparr>, sendMetaDataInfo env ?r c))"
    and inv1: "server_inv env c1" and new: "smap_find (sv_store c0) i = None"
    and acc: "subseq acc (sr_path_list validated)" and tr: "tr = sv_next c0" "a = Suc tr"
    and c1: "sv_next c1 = Suc a" "sv_store c1 = smap_put i a (sv_store c0)"
      "sv_subs c1 = (sv_subs c0)(a := sub)" "sv_sub_live c1 = (sv_sub_live c0)(a := True)"
      "sv_transports c1 = (sv_transports c0)(tr := new_transport (Some False) (Some []))"
      "sv_store2 c1 = sv_store2 c0" "sv_workers c1 = sv_workers c0"
      "sv_worker_live c1 = sv_worker_live c0" "sv_receiver c1 = sv_receiver c0"
      "sv_metadata c1 = sv_metadata c0"
    and h: "smap_find (con_live (sv_consolidator c1)) p = Some h"
    and sub: "sub_id sub = i" "sub_system_subscription sub = Some p" "sub_transport sub = tr"
      "sub_active sub = act" "\<not> limits_reached sub"
  have new2: "smap_find (ur_ext_id_worker_store (sv_receiver c1)) i = None"
    using inv(2) new by (auto simp: udp_inv_def c1 split: if_splits)
  show thesis
  proof (rule start_worker [OF h new2, of env garbage tr ?paths])
    assume off: "\<not> udp_server_module (env_gc env)"
      "start_udp_worker env garbage i p tr ?paths c1 = Inr (None, c1)"
    let ?s = "\<lparr>ss_id = i, ss_sub = a, ss_worker = None, ss_transport = tr\<rparr>"
    have "udp_inv env c1"
      by (rule udp_inv_open [OF inv(2,1) new c1(2,3), where w = None]) (use off c1 tr in simp_all)
    moreover have "opened env act ?s c0 c1"
      using off(1) sub by (auto simp: opened_def c1 tr new)
    ultimately show thesis
      using call off(2) inv1 acc
      by (intro that [of ?s "sendMetaDataInfo env ?r c1" acc]) (simp_all add: c1)
  next
    fix l u
    let ?w = "sv_next c1"
    let ?wk = "new_udp_worker garbage i p tr ?paths"
    let ?c2 = "sv_set_log l (c1\<lparr>sv_next := Suc ?w, sv_workers := (sv_workers c1)(?w := ?wk),
        sv_store2 := smap_put i ?w (sv_store2 c1), sv_worker_live := (sv_worker_live c1)(?w := True),
        sv_receiver := u\<rparr>)"
    assume on: "udp_server_module (env_gc env)"
      "start_udp_worker env garbage i p tr ?paths c1 = Inr (Some ?w, ?c2)"
      "ur_ext_id_worker_store u = smap_put i ?w (ur_ext_id_worker_store (sv_receiver c1))"
    let ?s = "\<lparr>ss_id = i, ss_sub = a, ss_worker = Some ?w, ss_transport = tr\<rparr>"
    have wk: "wk_id ?wk = i" "wk_system_subscription ?wk = Some p"
      by (simp_all add: new_udp_worker_def Let_def)
    have fresh: "sub_fresh c1" using inv1 by (simp add: server_inv_def)
    have "sub_fresh ?c2" using fresh by (fastforce simp: sub_fresh_def)
    then have inv2: "server_inv env ?c2"
      using inv1 by (simp add: server_inv_def sub_entry_ok_def handle_owned_def)
    have "udp_inv env ?c2"
      by (rule udp_inv_open [OF inv(2,1) new, where w = "Some ?w" and wk = ?wk and a = a and sub = sub])
        (use on c1 tr wk sub in simp_all)
    moreover have "opened env act ?s c0 ?c2"
      using on(1) sub wk by (auto simp: opened_def c1 tr new)
    ultimately show thesis
      using call on(2) inv2 acc
      by (intro that [of ?s "sendMetaDataInfo env ?r ?c2" acc]) (simp_all add: c1)
  qed
qed

text \<open>A request for a subscription: refused with id 0 and nothing changed, or registered.\<close>

lemma telemetrySubscribe_ok:
  assumes inv: "server_inv env c" "udp_inv env c" and len: "length (sr_path_list request) < 2 ^ 31"
  obtains (refused) l where
      "telemetrySubscribe env garbage act request c =
         Inr (None, sv_set_log l (c\<lparr>sv_metadata := sv_metadata c @ [subscription_reply_cleared]\<rparr>))"
      "sr_path_list request = [] \<or> (\<forall>j. 0 < unat j \<and> unat j < 64 \<longrightarrow> j \<in> dom (smap_find (sv_store c)))"
    | (begun) s acc c' where
      "telemetrySubscribe env garbage act request c = Inr (Some s, c')" "server_inv env c'"
      "udp_inv env c'" "opened env act s c c'"
      "sv_metadata c' = sv_metadata c @ [\<lparr>rep_subscription_id = ss_id s, rep_path_list = acc\<rparr>]"
      "ss_id s \<noteq> 0" "length acc \<le> length (sr_path_list request)"
proof -
  have cl: "subscription_reply_cleared\<lparr>rep_subscription_id := 0\<rparr> = subscription_reply_cleared"
    by (simp add: subscription_reply_cleared_def)
  have send: "\<exists>l'. sendMetaDataInfo env (subscription_reply_cleared\<lparr>rep_subscription_id := 0\<rparr>) (sv_log m (sv_set_log l c)) =
      sv_set_log l' (c\<lparr>sv_metadata := sv_metadata c @ [subscription_reply_cleared]\<rparr>)" for m l
    unfolding sendMetaDataInfo_def cl by (auto simp: sv_log_eq sv_set_log_def sv_get_log_def)
  obtain l0 where l0: "sv_log (''telemetrySubscribe->'' @ env_show_request env request) c = sv_set_log l0 c"
    by (simp add: sv_log_eq)
  obtain l1 where l1: "sv_log ''Subscription-Begin'' (sv_set_log l0 c) = sv_set_log l1 c"
    by (auto simp: sv_log_eq set_log_receiver)
  have idm: "id_ok (sv_id_manager c)" "id_bounds (sv_id_manager c)"
    using inv(1) by (simp_all add: server_inv_def)
  obtain i ids where al: "allocate (sv_id_manager c) = Inr (i, ids)"
    using ids.alloc_total [OF idm(1)] by blast
  have call: "telemetrySubscribe env garbage act request c =
    (if sr_path_list request = [] then
       Inr (None, sendMetaDataInfo env (subscription_reply_cleared\<lparr>rep_subscription_id := 0\<rparr>)
         (sv_log ''Subscription-stream-end: Error, Path List is Zero'' (sv_set_log l0 c)))
     else if i = 0 then
       Inr (None, sendMetaDataInfo env (subscription_reply_cleared\<lparr>rep_subscription_id := 0\<rparr>)
         (sv_log ''Subscription-stream-end: Error, ID Exhausted'' ((sv_set_log l1 c)\<lparr>sv_id_manager := ids\<rparr>)))
     else res_bind (validate_request env request
         (sv_log (''Subscription-Allocate: ID = '' @ string_of_u32 i) ((sv_set_log l1 c)\<lparr>sv_id_manager := ids\<rparr>)))
         (\<lambda>(validated, c). open_subscription env garbage act i validated c))"
    unfolding telemetrySubscribe_def Let_def l0 l1 getNullIdentifier_def by (simp add: al)
  show thesis
  proof (cases "sr_path_list request = [] \<or> i = 0")
    case True
    have full: "\<forall>j. 0 < unat j \<and> unat j < 64 \<longrightarrow> j \<in> dom (smap_find (sv_store c))" if "i = 0"
    proof -
      have "live_ids (sv_id_manager c) = dom (smap_find (sv_store c))" using inv(1) by (simp add: server_inv_def)
      then show ?thesis
        using allocate_0_iff [OF idm(1) al] that idm(2)
        by (auto simp: id_bounds_def SUBSCRIPTION_ID_SPACE_SIZE_def live_ids_def)
    qed
    have "ids = sv_id_manager c" if "i = 0"
      using allocate_full [OF idm(1)] al that by simp
    then have "(sv_set_log l1 c)\<lparr>sv_id_manager := ids\<rparr> = sv_set_log l1 c" if "i = 0"
      using that by (simp add: sv_set_log_def)
    moreover obtain l' l'' where
      "sendMetaDataInfo env (subscription_reply_cleared\<lparr>rep_subscription_id := 0\<rparr>)
        (sv_log ''Subscription-stream-end: Error, Path List is Zero'' (sv_set_log l0 c)) =
        sv_set_log l' (c\<lparr>sv_metadata := sv_metadata c @ [subscription_reply_cleared]\<rparr>)"
      "sendMetaDataInfo env (subscription_reply_cleared\<lparr>rep_subscription_id := 0\<rparr>)
        (sv_log ''Subscription-stream-end: Error, ID Exhausted'' (sv_set_log l1 c)) =
        sv_set_log l'' (c\<lparr>sv_metadata := sv_metadata c @ [subscription_reply_cleared]\<rparr>)"
      using send by metis
    ultimately show thesis
      using True full refused [of l'] refused [of l''] unfolding call
      by (cases "sr_path_list request = []") simp_all
  next
    case False
    let ?c = "sv_log (''Subscription-Allocate: ID = '' @ string_of_u32 i) ((sv_set_log l1 c)\<lparr>sv_id_manager := ids\<rparr>)"
    have "validate_ocpaths (env_gc env) \<longrightarrow> sv_path_validator ?c \<noteq> None"
      using inv(1) by (simp add: server_inv_def)
    then obtain validated pv l where v:
      "validate_request env request ?c = Inr (validated, sv_set_log l (?c\<lparr>sv_path_validator := pv\<rparr>))"
      "length (sr_path_list validated) \<le> length (sr_path_list request)"
      "validate_ocpaths (env_gc env) \<longrightarrow> pv \<noteq> None"
      by (rule validate_request_ok)
    have eq: "sv_set_log l (?c\<lparr>sv_path_validator := pv\<rparr>) =
        sv_set_log l (c\<lparr>sv_id_manager := ids, sv_path_validator := pv\<rparr>)"
      by (simp add: sv_log_eq) (simp add: sv_set_log_def)
    have len': "length (sr_path_list validated) < 2 ^ 31" using v(2) len by simp
    have nz: "i \<noteq> 0" using False by simp
    obtain s acc c' where
      o: "open_subscription env garbage act i validated (sv_set_log l (?c\<lparr>sv_path_validator := pv\<rparr>)) = Inr (Some s, c')"
      "server_inv env c'" "udp_inv env c'" "opened env act s c c'" "ss_id s = i"
      "subseq acc (sr_path_list validated)"
      "sv_metadata c' = sv_metadata c @ [\<lparr>rep_subscription_id = i, rep_path_list = acc\<rparr>]"
      by (rule open_subscription_ok [OF inv al nz eq v(3) len'])
    have "length acc \<le> length (sr_path_list request)"
      using list_emb_length [OF o(6)] v(2) by simp
    then show thesis
      using False call v(1) o by (intro begun [of s c' acc]) simp_all
  qed
qed

end
