(* ===== verification/ServerThreads.thy ===== *)
theory ServerThreads
  imports ServerRuns
begin

text \<open>
  The service as a transition system: the threads of the subscriptions, cancellations, bus
  messages, UDP packets, disconnects and queries, interleaved in any order. A subscription
  thread goes through the phases of \<open>telemetrySubscribe\<close>. The steps leave one interleaving out,
  the cancellation of a subscription whose thread has not yet run \<open>setActive(true)\<close>; the last
  section shows what it does.
\<close>

section \<open>Threads\<close>

datatype phase = MetaSent | Enabled | Streaming | Leaving

type_synonym threads = "nat \<Rightarrow> (phase \<times> session) option"

definition registered :: "'b server \<Rightarrow> session \<Rightarrow> bool" where
  "registered c s \<longleftrightarrow> smap_find (sv_store c) (ss_id s) = Some (ss_sub s)"

definition cancellable :: "'b server \<Rightarrow> threads \<Rightarrow> u32 \<Rightarrow> bool" where
  "cancellable c ts i \<longleftrightarrow>
     (\<forall>k ph s. ts k = Some (ph, s) \<and> registered c s \<and> ss_id s = i \<longrightarrow> ph = Streaming \<or> ph = Leaving)"

inductive agent_step :: "'b server_env \<Rightarrow> 'b server \<times> threads \<Rightarrow> 'b server \<times> threads \<Rightarrow> bool" for env where
  subscribe: "ts k = None \<Longrightarrow> length (sr_path_list request) < 2 ^ 31 \<Longrightarrow>
    telemetrySubscribe env garbage act request c = Inr (Some s, c') \<Longrightarrow>
    agent_step env (c, ts) (c', ts(k \<mapsto> (MetaSent, s)))"
| refuse: "telemetrySubscribe env garbage act request c = Inr (None, c') \<Longrightarrow>
    length (sr_path_list request) < 2 ^ 31 \<Longrightarrow> agent_step env (c, ts) (c', ts)"
| enable: "ts k = Some (MetaSent, s) \<Longrightarrow> session_enable env s c = Inr c' \<Longrightarrow>
    agent_step env (c, ts) (c', ts(k \<mapsto> (Enabled, s)))"
| activate: "ts k = Some (Enabled, s) \<Longrightarrow> session_activate s c = Inr c' \<Longrightarrow>
    agent_step env (c, ts) (c', ts(k \<mapsto> (Streaming, s)))"
| leave: "ts k = Some (Streaming, s) \<Longrightarrow> session_over s c = Inr True \<Longrightarrow>
    agent_step env (c, ts) (c, ts(k \<mapsto> (Leaving, s)))"
| finish: "ts k = Some (Leaving, s) \<Longrightarrow> session_end env s c = Inr c' \<Longrightarrow>
    agent_step env (c, ts) (c', ts(k := None))"
| cancel: "cancellable c ts i \<Longrightarrow> cancelTelemetrySubscription env i c = Inr (r, c') \<Longrightarrow>
    agent_step env (c, ts) (c', ts)"
| message: "smap_find (sv_store c) i = Some a \<Longrightarrow>
    bus_message env reg parse now usec garbage a msg c = Inr c' \<Longrightarrow> agent_step env (c, ts) (c', ts)"
| packet: "udp_packet garbage pkt c = Inr c' \<Longrightarrow> agent_step env (c, ts) (c', ts)"
| turn: "smap_find (sv_store2 c) i = Some w \<Longrightarrow> worker_turn decode w c = Inr c' \<Longrightarrow>
    agent_step env (c, ts) (c', ts)"
| disconnect: "ts k = Some (ph, s) \<Longrightarrow> agent_step env (c, ts) (client_disconnect (ss_transport s) c, ts)"
| subscriptions: "getTelemetrySubscriptions env i c = Inr (rs, c') \<Longrightarrow> agent_step env (c, ts) (c', ts)"
| operational: "getTelemetryOperationalState env i v c = Inr (kvs, c') \<Longrightarrow> agent_step env (c, ts) (c', ts)"
| encodings: "getDataEncodings env c = (es, c') \<Longrightarrow> agent_step env (c, ts) (c', ts)"

inductive reachable :: "'b server_env \<Rightarrow> 'b server \<times> threads \<Rightarrow> bool" for env where
  start: "validate_ocpaths (env_gc env) \<longrightarrow> v \<noteq> None \<Longrightarrow> reachable env (new_server sys v (new_udp_receiver g buf), \<lambda>_. None)"
| step: "reachable env s \<Longrightarrow> agent_step env s s' \<Longrightarrow> reachable env s'"

section \<open>The invariant of the threads\<close>

text \<open>
  A thread owns a live subscription. Once it has run \<open>setActive(true)\<close>, the flag says whether the
  subscription is still registered; a thread that has left its polling loop has a reason to.
\<close>

definition session_ok :: "'b server_env \<Rightarrow> 'b server \<Rightarrow> phase \<Rightarrow> session \<Rightarrow> bool" where
  "session_ok env c ph s \<longleftrightarrow>
     sv_sub_live c (ss_sub s) \<and> sub_id (sv_subs c (ss_sub s)) = ss_id s \<and>
     sub_transport (sv_subs c (ss_sub s)) = ss_transport s \<and>
     (case ph of
        MetaSent \<Rightarrow> registered c s
      | Enabled \<Rightarrow> registered c s
      | Streaming \<Rightarrow> sub_active (sv_subs c (ss_sub s)) = registered c s
      | Leaving \<Rightarrow> sub_active (sv_subs c (ss_sub s)) = registered c s \<and>
          (registered c s \<longrightarrow> sub_expired (sv_subs c (ss_sub s)) \<or>
             getClientDisconnects (sv_transports c (ss_transport s)))) \<and>
     (case ss_worker s of
        None \<Rightarrow> \<not> udp_server_module (env_gc env)
      | Some w \<Rightarrow> udp_server_module (env_gc env) \<and> wk_id (sv_workers c w) = ss_id s \<and> w < sv_next c \<and>
          (smap_find (sv_store2 c) (ss_id s) = Some w) = registered c s)"

definition threads_inv :: "'b server_env \<Rightarrow> 'b server \<Rightarrow> threads \<Rightarrow> bool" where
  "threads_inv env c ts \<longleftrightarrow>
     (\<forall>k ph s. ts k = Some (ph, s) \<longrightarrow> session_ok env c ph s) \<and>
     (\<forall>j k ph ph' s s'. ts j = Some (ph, s) \<and> ts k = Some (ph', s') \<and> ss_sub s = ss_sub s' \<longrightarrow> j = k) \<and>
     (\<forall>i a. smap_find (sv_store c) i = Some a \<longrightarrow> (\<exists>k ph s. ts k = Some (ph, s) \<and> ss_sub s = a))"

definition agent_inv :: "'b server_env \<Rightarrow> 'b server \<Rightarrow> threads \<Rightarrow> bool" where
  "agent_inv env c ts \<longleftrightarrow> server_inv env c \<and> udp_inv env c \<and> threads_inv env c ts"

section \<open>Steps that change no registration\<close>

definition quiet :: "'b server \<Rightarrow> 'b server \<Rightarrow> bool" where
  "quiet c c' \<longleftrightarrow>
     (\<exists>s. sv_consolidator c' = (sv_consolidator c)\<lparr>cs_system := s\<rparr>) \<and>
     sv_id_manager c' = sv_id_manager c \<and> sv_path_validator c' = sv_path_validator c \<and>
     sv_sub_live c' = sv_sub_live c \<and> sv_store c' = sv_store c \<and> sv_worker_live c' = sv_worker_live c \<and>
     sv_store2 c' = sv_store2 c \<and> sv_next c' = sv_next c \<and>
     ur_ext_id_worker_store (sv_receiver c') = ur_ext_id_worker_store (sv_receiver c) \<and>
     (\<forall>a. sub_id (sv_subs c' a) = sub_id (sv_subs c a) \<and>
        sub_system_subscription (sv_subs c' a) = sub_system_subscription (sv_subs c a) \<and>
        sub_transport (sv_subs c' a) = sub_transport (sv_subs c a) \<and>
        (limits_reached (sv_subs c a) \<longrightarrow> limits_reached (sv_subs c' a))) \<and>
     (\<forall>w. wk_id (sv_workers c' w) = wk_id (sv_workers c w) \<and>
        wk_system_subscription (sv_workers c' w) = wk_system_subscription (sv_workers c w)) \<and>
     (\<forall>t. getClientDisconnects (sv_transports c t) \<longrightarrow> getClientDisconnects (sv_transports c' t))"

definition same_active :: "'b server \<Rightarrow> 'b server \<Rightarrow> bool" where
  "same_active c c' \<longleftrightarrow> (\<forall>a. sub_active (sv_subs c' a) = sub_active (sv_subs c a))"

lemma quiet_server_inv:
  assumes "quiet c c'" and "server_inv env c"
  shows "server_inv env c'"
proof -
  obtain s where con: "sv_consolidator c' = (sv_consolidator c)\<lparr>cs_system := s\<rparr>"
    using assms(1) by (auto simp: quiet_def)
  have eq: "sv_id_manager c' = sv_id_manager c" "sv_path_validator c' = sv_path_validator c"
    "sv_sub_live c' = sv_sub_live c" "sv_store c' = sv_store c" "sv_next c' = sv_next c"
    "sub_id (sv_subs c' a) = sub_id (sv_subs c a)"
    "sub_system_subscription (sv_subs c' a) = sub_system_subscription (sv_subs c a)"
    "sub_transport (sv_subs c' a) = sub_transport (sv_subs c a)" for a
    using assms(1) by (auto simp: quiet_def)
  show ?thesis
    using assms(2) by (simp add: server_inv_def sub_entry_ok_def handle_owned_def sub_fresh_def eq con)
qed

lemma quiet_udp_inv:
  assumes "quiet c c'" and "udp_inv env c"
  shows "udp_inv env c'"
proof -
  have eq: "sv_store c' = sv_store c" "sv_next c' = sv_next c" "sv_store2 c' = sv_store2 c"
    "sv_worker_live c' = sv_worker_live c"
    "ur_ext_id_worker_store (sv_receiver c') = ur_ext_id_worker_store (sv_receiver c)"
    "sub_system_subscription (sv_subs c' a) = sub_system_subscription (sv_subs c a)"
    "wk_id (sv_workers c' a) = wk_id (sv_workers c a)"
    "wk_system_subscription (sv_workers c' a) = wk_system_subscription (sv_workers c a)" for a
    using assms(1) by (auto simp: quiet_def)
  show ?thesis
    using assms(2) by (simp add: udp_inv_def worker_entry_ok_def eq)
qed

lemma quiet_session:
  assumes "quiet c c'" and "session_ok env c ph s"
    and "sub_active (sv_subs c' (ss_sub s)) = sub_active (sv_subs c (ss_sub s))"
  shows "session_ok env c' ph s"
proof -
  have eq: "sv_store c' = sv_store c" "sv_next c' = sv_next c" "sv_store2 c' = sv_store2 c"
    "sv_sub_live c' = sv_sub_live c" "sub_id (sv_subs c' a) = sub_id (sv_subs c a)"
    "sub_transport (sv_subs c' a) = sub_transport (sv_subs c a)"
    "wk_id (sv_workers c' a) = wk_id (sv_workers c a)" for a
    using assms(1) by (auto simp: quiet_def)
  have mono: "limits_reached (sv_subs c a) \<Longrightarrow> limits_reached (sv_subs c' a)"
    "getClientDisconnects (sv_transports c a) \<Longrightarrow> getClientDisconnects (sv_transports c' a)" for a
    using assms(1) by (auto simp: quiet_def)
  have reg: "registered c' s = registered c s" by (simp add: registered_def eq)
  show ?thesis
    using assms(2,3) mono
    by (cases ph) (auto simp: session_ok_def eq reg sub_expired_def split: option.split)
qed

lemma quiet_agent_inv:
  assumes "quiet c c'" and "same_active c c'" and "agent_inv env c ts"
  shows "agent_inv env c' ts"
proof -
  have "sv_store c' = sv_store c" using assms(1) by (simp add: quiet_def)
  then have "threads_inv env c' ts"
    using assms quiet_session [OF assms(1)]
    by (simp add: agent_inv_def threads_inv_def same_active_def)
  then show ?thesis
    using assms quiet_server_inv quiet_udp_inv by (auto simp: agent_inv_def)
qed

lemma quiet_log: "quiet c (sv_set_log l c)" "same_active c (sv_set_log l c)"
  by (auto simp: quiet_def same_active_def) (auto simp: sv_set_log_def)

lemma logs_eq: "\<exists>l. foldl (\<lambda>c m. sv_log m c) c ms = sv_set_log l c"
proof (induction ms rule: rev_induct)
  case Nil
  have "c = sv_set_log (sv_get_log c) c" by (simp add: sv_set_log_def sv_get_log_def)
  then show ?case by (intro exI) simp
next
  case (snoc m ms)
  then show ?case by (auto simp: sv_log_eq set_log_receiver)
qed

lemma quiet_enable:
  assumes "sv_sub_live c (ss_sub s)"
  obtains c' where "session_enable env s c = Inr c'" "quiet c c'" "same_active c c'"
proof -
  have "\<exists>c'. session_enable env s c = Inr c' \<and> quiet c c' \<and> same_active c c'"
    using assms
    by (simp add: session_enable_def deref_sub_def sub_enable_def BusConnect_def mq_call_def put_sub_def
        quiet_def same_active_def) (auto simp: sv_set_log_def)
  then show thesis using that by blast
qed

lemma quiet_message:
  assumes inv: "server_inv env c" and a: "smap_find (sv_store c) i = Some a"
  obtains c' where "bus_message env reg parse now usec garbage a msg c = Inr c'" "quiet c c'" "same_active c c'"
proof -
  let ?sub = "sv_subs c a"
  let ?t = "sv_transports c (sub_transport ?sub)"
  obtain p h where live: "sv_sub_live c a" and p: "sub_system_subscription ?sub = Some p"
    "smap_find (con_live (sv_consolidator c)) p = Some h"
    by (rule server_inv_sub [OF inv a])
  obtain path where "count_path (env_gc env) (sv_consolidator c) ?sub (msg_topic msg) = Inr path"
    using count_path_live [OF p] by blast
  then obtain sub' t' l' where
    1: "sub_on_message (env_gc env) reg parse now usec garbage (sv_consolidator c) msg
      (?sub, ?t, sv_get_log c) = Inr (sub', t', l')"
    and f: "sub_id sub' = sub_id ?sub" "sub_system_subscription sub' = sub_system_subscription ?sub"
    "sub_transport sub' = sub_transport ?sub" "sub_active sub' = sub_active ?sub"
    "limits_reached ?sub \<Longrightarrow> limits_reached sub'" "tr_context t' = tr_context ?t"
    by (rule sub_on_message_frame) blast
  let ?c' = "sv_set_log l' (put_sub a sub' (c\<lparr>sv_transports := (sv_transports c)(sub_transport ?sub := t')\<rparr>))"
  have "bus_message env reg parse now usec garbage a msg c = Inr ?c'"
    using live 1 by (simp add: bus_message_def deref_sub_def)
  moreover have "quiet c ?c'"
    using f by (simp add: quiet_def put_sub_def getClientDisconnects_def) (auto simp: sv_set_log_def)
  moreover have "same_active c ?c'" using f by (simp add: same_active_def put_sub_def)
  ultimately show thesis by (rule that)
qed

lemma quiet_packet:
  assumes "udp_packet garbage pkt c = Inr c'"
  shows "quiet c c'" "same_active c c'"
proof -
  obtain u ws l where r: "receive_packet garbage pkt (sv_receiver c, sv_workers c, sv_get_log c) = Inr (u, ws, l)"
    and c': "c' = sv_set_log l (c\<lparr>sv_receiver := u, sv_workers := ws\<rparr>)"
    using assms by (auto simp: udp_packet_def Let_def res_bind_Inr_iff split: if_splits)
  show "quiet c c'"
    using receive_packet_frame [OF r] by (simp add: c' quiet_def) (auto simp: sv_set_log_def)
  show "same_active c c'" by (simp add: c' same_active_def)
qed

lemma quiet_turn:
  assumes "worker_turn decode w c = Inr c'"
  shows "quiet c c'" "same_active c c'"
proof -
  let ?w = "sv_workers c w"
  have "worker_round decode (?w, t) = Some (w', t') \<Longrightarrow>
      wk_id w' = wk_id ?w \<and> wk_system_subscription w' = wk_system_subscription ?w \<and>
      tr_context t' = tr_context t" for t w' t'
    by (auto simp: worker_round_def Let_def split: list.splits if_splits)
  moreover have "\<exists>s. sv_consolidator c = (sv_consolidator c)\<lparr>cs_system := s\<rparr>"
    by (rule exI [of _ "cs_system (sv_consolidator c)"]) simp
  ultimately show "quiet c c'" "same_active c c'"
    using assms
    by (auto simp: worker_turn_def deref_worker_def quiet_def same_active_def getClientDisconnects_def
        split: if_splits option.splits)
qed

lemma quiet_disconnect: "quiet c (client_disconnect t c)" "same_active c (client_disconnect t c)"
  by (simp_all add: quiet_def same_active_def client_disconnect_def getClientDisconnects_def)
    (rule exI [of _ "cs_system (sv_consolidator c)"], simp)

section \<open>Steps that change a registration\<close>

text \<open>One thread moves on; the others keep what they had.\<close>

lemma threads_move:
  assumes "threads_inv env c ts" and "ts k = Some (ph0, s)" and "sv_store c' = sv_store c"
    and "\<And>j ph s'. j \<noteq> k \<Longrightarrow> ts j = Some (ph, s') \<Longrightarrow> session_ok env c' ph s'"
    and "session_ok env c' ph1 s"
  shows "threads_inv env c' (ts(k \<mapsto> (ph1, s)))"
proof -
  have "\<exists>j ph t. (ts(k \<mapsto> (ph1, s))) j = Some (ph, t) \<and> ss_sub t = a"
    if a: "smap_find (sv_store c) i = Some a" for i a
  proof -
    obtain j ph t where "ts j = Some (ph, t)" "ss_sub t = a"
      using assms(1) a unfolding threads_inv_def by blast
    then show ?thesis using assms(2) by (cases "j = k") auto
  qed
  then show ?thesis
    using assms by (auto simp: threads_inv_def split: if_splits)
qed

lemma thread_session: "threads_inv env c ts \<Longrightarrow> ts k = Some (ph, s) \<Longrightarrow> session_ok env c ph s"
  by (simp add: threads_inv_def)

lemma thread_unique:
  "threads_inv env c ts \<Longrightarrow> ts j = Some (ph, s) \<Longrightarrow> ts k = Some (ph', s') \<Longrightarrow> j \<noteq> k \<Longrightarrow> ss_sub s \<noteq> ss_sub s'"
  unfolding threads_inv_def by blast

lemma thread_owner:
  assumes "threads_inv env c ts" and "smap_find (sv_store c) i = Some a"
  obtains k ph s where "ts k = Some (ph, s)" "ss_sub s = a"
  using assms unfolding threads_inv_def by blast

lemma activate_inv:
  assumes inv: "agent_inv env c ts" and k: "ts k = Some (Enabled, s)"
  obtains c' where "session_activate s c = Inr c'" "agent_inv env c' (ts(k \<mapsto> (Streaming, s)))"
proof -
  let ?c' = "put_sub (ss_sub s) (setActive True (sv_subs c (ss_sub s))) c"
  have th: "threads_inv env c ts" and so: "session_ok env c Enabled s"
    using inv k by (auto simp: agent_inv_def threads_inv_def)
  have q: "quiet c ?c'"
    by (simp add: quiet_def put_sub_def setActive_def)
      (rule exI [of _ "cs_system (sv_consolidator c)"], simp)
  have others: "session_ok env ?c' ph s'" if "j \<noteq> k" "ts j = Some (ph, s')" for j ph s'
    using thread_unique [OF th that(2) k that(1)]
    by (intro quiet_session [OF q thread_session [OF th that(2)]]) (simp add: put_sub_def)
  have me: "session_ok env ?c' Streaming s"
    using so by (auto simp: session_ok_def put_sub_def setActive_def registered_def split: option.splits)
  have "threads_inv env ?c' (ts(k \<mapsto> (Streaming, s)))"
    by (rule threads_move [OF th k _ others me]) (simp_all add: put_sub_def)
  then have "agent_inv env ?c' (ts(k \<mapsto> (Streaming, s)))"
    using inv quiet_server_inv [OF q] quiet_udp_inv [OF q] by (simp add: agent_inv_def)
  then show thesis
    by (rule that [rotated]) (use so in \<open>simp add: session_activate_def deref_sub_def session_ok_def\<close>)
qed

lemma cleaned_session:
  assumes cl: "cleaned i a c c'" and a: "smap_find (sv_store c) i = Some a"
    and so: "session_ok env c ph s" and ne: "ss_sub s \<noteq> a"
  shows "session_ok env c' ph s"
proof -
  note f = cleaned_frame [OF cl] and g = cleaned_sub [OF cl]
  have reg: "registered c' s = registered c s" using a ne by (simp add: registered_def f)
  have "(smap_find (sv_store2 c') (ss_id s) = Some w) = registered c' s"
    if "(smap_find (sv_store2 c) (ss_id s) = Some w) = registered c s" for w
    using that a ne unfolding reg by (auto simp: registered_def f)
  then show ?thesis
    using so ne by (auto simp: session_ok_def f(4-) g reg sub_expired_def split: option.splits phase.splits)
qed

text \<open>The worker a session holds is the one registered under its id.\<close>

lemma session_worker:
  assumes "session_ok env c ph s" and "registered c s"
  shows "ss_worker s = (if udp_server_module (env_gc env) then smap_find (sv_store2 c) (ss_id s) else None)"
  using assms by (auto simp: session_ok_def split: option.splits)

text \<open>Deleting a subscription and its worker that are not registered.\<close>

definition retire :: "session \<Rightarrow> 'b server \<Rightarrow> 'b server" where
  "retire s c = (case ss_worker s of None \<Rightarrow> c | Some w \<Rightarrow> c\<lparr>sv_worker_live := (sv_worker_live c)(w := False)\<rparr>)
     \<lparr>sv_sub_live := (sv_sub_live c)(ss_sub s := False)\<rparr>"

lemma retire_frame [simp]:
  "sv_consolidator (retire s c) = sv_consolidator c" "sv_id_manager (retire s c) = sv_id_manager c"
  "sv_path_validator (retire s c) = sv_path_validator c" "sv_subs (retire s c) = sv_subs c"
  "sv_store (retire s c) = sv_store c" "sv_store2 (retire s c) = sv_store2 c"
  "sv_next (retire s c) = sv_next c" "sv_workers (retire s c) = sv_workers c"
  "sv_receiver (retire s c) = sv_receiver c" "sv_transports (retire s c) = sv_transports c"
  "sv_sub_live (retire s c) = (sv_sub_live c)(ss_sub s := False)"
  "sv_worker_live (retire s c) = (\<lambda>w. sv_worker_live c w \<and> ss_worker s \<noteq> Some w)"
  by (auto simp: retire_def fun_eq_iff split: option.split)

lemma retire_inv:
  assumes inv: "server_inv env c" "udp_inv env c" and so: "session_ok env c ph s" and reg: "\<not> registered c s"
  shows "server_inv env (retire s c)" "udp_inv env (retire s c)"
proof -
  have "a \<noteq> ss_sub s" if a: "smap_find (sv_store c) i = Some a" for i a
  proof -
    have "sub_id (sv_subs c a) = i" by (rule server_inv_sub [OF inv(1) a])
    then show ?thesis using so reg a by (auto simp: session_ok_def registered_def)
  qed
  then have "sub_entry_ok (retire s c) i a" if "smap_find (sv_store c) i = Some a" for i a
    using inv(1) that by (simp add: server_inv_def sub_entry_ok_def)
  then show "server_inv env (retire s c)"
    using inv(1) by (simp add: server_inv_def handle_owned_def sub_fresh_def)
  have "worker_entry_ok (retire s c) i w" if w: "smap_find (sv_store2 c) i = Some w" for i w
  proof -
    have we: "worker_entry_ok c i w" using inv(2) w by (simp add: udp_inv_def)
    then have "ss_worker s \<noteq> Some w"
      using so reg w by (auto simp: worker_entry_ok_def session_ok_def)
    then show ?thesis using we by (simp add: worker_entry_ok_def)
  qed
  then show "udp_inv env (retire s c)"
    using inv(2) by (simp add: udp_inv_def)
qed

lemma retire_session:
  "session_ok env c ph s' \<Longrightarrow> ss_sub s' \<noteq> ss_sub s \<Longrightarrow> session_ok env (retire s c) ph s'"
  by (cases ph) (auto simp: session_ok_def registered_def split: option.splits)

text \<open>The end of a thread: it cleans up unless it was cancelled, and deletes its objects.\<close>

lemma finish_inv:
  assumes inv: "agent_inv env c ts" and k: "ts k = Some (Leaving, s)"
  obtains c' where "session_end env s c = Inr c'" "agent_inv env c' (ts(k := None))"
    "sv_store c' = (if registered c s then smap_erase (ss_id s) (sv_store c) else sv_store c)"
proof -
  let ?sub = "sv_subs c (ss_sub s)"
  let ?dis = "getClientDisconnects (sv_transports c (sub_transport ?sub))"
  have sinv: "server_inv env c" "udp_inv env c" and th: "threads_inv env c ts"
    and so: "session_ok env c Leaving s"
    using inv k by (auto simp: agent_inv_def threads_inv_def)
  have live: "sv_sub_live c (ss_sub s)" and act: "sub_active ?sub = registered c s"
    and why: "registered c s \<Longrightarrow> sub_expired ?sub \<or> ?dis"
    using so by (auto simp: session_ok_def)
  have "\<exists>c1 m. session_end env s c = Inr (retire s (sv_log m c1)) \<and> server_inv env c1 \<and> udp_inv env c1 \<and>
      session_ok env c1 Leaving s \<and> \<not> registered c1 s \<and>
      (\<forall>j ph t. j \<noteq> k \<and> ts j = Some (ph, t) \<longrightarrow> session_ok env c1 ph t) \<and>
      sv_store c1 = (if registered c s then smap_erase (ss_id s) (sv_store c) else sv_store c)"
  proof (cases "registered c s")
    case False
    have "session_end env s c = Inr (retire s (sv_log (''Subscription-stream-end: ID = '' @ string_of_u32 (sub_id ?sub)) c))"
      using live act False by (simp add: session_end_def deref_sub_def Let_def retire_def split: option.split)
    then show ?thesis using sinv so False thread_session [OF th] by auto
  next
    case True
    then have a: "smap_find (sv_store c) (ss_id s) = Some (ss_sub s)" by (simp add: registered_def)
    define m where "m = stream_over_line (ss_id s) (sub_expired ?sub) ?dis"
    let ?c = "sv_log m c"
    have a': "smap_find (sv_store ?c) (ss_id s) = Some (ss_sub s)" using a by simp
    have ow: "ss_worker s = (if udp_server_module (env_gc env) then smap_find (sv_store2 ?c) (ss_id s) else None)"
      using session_worker [OF so True] by simp
    have i': "server_inv env ?c" "udp_inv env ?c" using sinv by simp_all
    obtain c1 where c1: "res_bind (case ss_worker s of None \<Rightarrow> Inr ?c | Some w \<Rightarrow> cleanupSubscriptionUdpWorker env w ?c)
        (cleanupSubscription env (ss_sub s)) = Inr c1"
      and cl: "cleaned (ss_id s) (ss_sub s) ?c c1" and inv1: "server_inv env c1" "udp_inv env c1"
      by (rule cleanup_both [OF i' a' ow])
    have "session_end env s c = Inr (retire s (sv_log (''Subscription-stream-end: ID = '' @ string_of_u32 (sub_id ?sub)) c1))"
      using live act True why [OF True] c1 [unfolded m_def]
      by (cases "ss_worker s") (simp_all add: session_end_def deref_sub_def Let_def retire_def)
    moreover have reg1: "\<not> registered c1 s" by (simp add: registered_def cleaned_frame [OF cl])
    moreover have "session_ok env c1 Leaving s"
      using so True reg1
      by (auto simp: session_ok_def cleaned_frame [OF cl] cleaned_sub [OF cl] split: option.splits)
    moreover have "session_ok env c1 ph t" if "j \<noteq> k" "ts j = Some (ph, t)" for j ph t
    proof (rule cleaned_session [OF cl a'])
      show "session_ok env ?c ph t"
        by (rule quiet_session [OF _ thread_session [OF th that(2)]]) (simp_all add: sv_log_eq quiet_log)
      show "ss_sub t \<noteq> ss_sub s" using thread_unique [OF th that(2) k that(1)] .
    qed
    moreover have "sv_store c1 = smap_erase (ss_id s) (sv_store c)" using cl by (simp add: cleaned_def)
    ultimately show ?thesis using inv1 True by auto
  qed
  then obtain c1 m where c1: "session_end env s c = Inr (retire s (sv_log m c1))"
    "server_inv env c1" "udp_inv env c1" "session_ok env c1 Leaving s" "\<not> registered c1 s"
    and others: "\<And>j ph t. j \<noteq> k \<Longrightarrow> ts j = Some (ph, t) \<Longrightarrow> session_ok env c1 ph t"
    and store: "sv_store c1 = (if registered c s then smap_erase (ss_id s) (sv_store c) else sv_store c)"
    by blast
  have q: "quiet c1 (sv_log m c1)" "same_active c1 (sv_log m c1)" by (simp_all add: sv_log_eq quiet_log)
  have so2: "session_ok env (sv_log m c1) Leaving s"
    using quiet_session [OF q(1) c1(4)] q(2) by (simp add: same_active_def)
  have nreg: "\<not> registered (sv_log m c1) s" using c1(5) by (simp add: registered_def)
  let ?c' = "retire s (sv_log m c1)"
  have "server_inv env ?c'" "udp_inv env ?c'"
    using retire_inv [OF _ _ so2 nreg] c1(2,3) by simp_all
  moreover have "threads_inv env ?c' (ts(k := None))"
    unfolding threads_inv_def
  proof (intro conjI allI impI)
    fix j ph t assume "(ts(k := None)) j = Some (ph, t)"
    then have j: "j \<noteq> k" "ts j = Some (ph, t)" by (auto split: if_splits)
    have "session_ok env (sv_log m c1) ph t"
      by (rule quiet_session [OF q(1) others [OF j]]) simp
    then show "session_ok env ?c' ph t"
      using thread_unique [OF th j(2) k j(1)] by (rule retire_session)
  next
    fix i j ph ph' t t'
    assume "(ts(k := None)) i = Some (ph, t) \<and> (ts(k := None)) j = Some (ph', t') \<and> ss_sub t = ss_sub t'"
    then show "i = j" using th unfolding threads_inv_def by (auto split: if_splits)
  next
    fix i a assume i: "smap_find (sv_store ?c') i = Some a"
    then have a: "smap_find (sv_store c) i = Some a"
      by (auto simp: store smap_find_erase split: if_splits)
    then obtain j ph t where j: "ts j = Some (ph, t)" "ss_sub t = a"
      using th unfolding threads_inv_def by blast
    have "j \<noteq> k"
    proof
      assume "j = k"
      then have "a = ss_sub s" using j k by simp
      moreover have "sub_id (sv_subs c a) = i" by (rule server_inv_sub [OF sinv(1) a])
      ultimately have "registered c s \<and> i = ss_id s" using so a by (auto simp: session_ok_def registered_def)
      then show False using i by (simp add: store smap_find_erase)
    qed
    then show "\<exists>j ph t. (ts(k := None)) j = Some (ph, t) \<and> ss_sub t = a" using j by auto
  qed
  ultimately show thesis
    using store by (intro that [OF c1(1)]) (simp_all add: agent_inv_def)
qed

text \<open>Cancelling: the registration goes, the thread stays and finds itself inactive.\<close>

lemma cleanup_worker_store:
  assumes "server_inv env c" "udp_inv env c" "smap_find (sv_store c) i = Some a"
    and "ow = (if udp_server_module (env_gc env) then smap_find (sv_store2 c) i else None)"
    and "(case ow of None \<Rightarrow> Inr c | Some w \<Rightarrow> cleanupSubscriptionUdpWorker env w c) = Inr c1"
  shows "sv_store c1 = sv_store c"
proof (cases ow)
  case None
  then show ?thesis using assms(5) by simp
next
  case (Some w)
  then have w: "smap_find (sv_store2 c) i = Some w" using assms(4) by (simp split: if_splits)
  show ?thesis
    by (rule cleanup_worker [OF assms(1-3) w]) (use assms(5) Some in auto)
qed

lemma cancel_registered:
  assumes sinv: "server_inv env c" "udp_inv env c" and Some: "smap_find (sv_store c) i = Some a"
  obtains l0 c1 where "cancelTelemetrySubscription env i c =
      Inr (\<lparr>cr_code = SUCCESS, cr_code_str = ''Subscription Successfully Deleted''\<rparr>,
           sv_log (''cancelTelemetrySubscriptionEnd: ID = '' @ string_of_u32 i) c1)"
    "cleaned i a (sv_set_log l0 c) c1" "server_inv env c1" "udp_inv env c1"
proof -
  obtain l0 where l0: "sv_log (''cancelTelemetrySubscription->'' @ env_show_id env i) c = sv_set_log l0 c"
    by (simp add: sv_log_eq)
  let ?c = "sv_set_log l0 c"
  define ow where "ow = (if udp_server_module (env_gc env) then smap_find (sv_store2 ?c) i else None)"
  have a: "smap_find (sv_store ?c) i = Some a" using Some by simp
  have i': "server_inv env ?c" "udp_inv env ?c" using sinv by simp_all
  obtain c1 where c1: "res_bind (case ow of None \<Rightarrow> Inr ?c | Some w \<Rightarrow> cleanupSubscriptionUdpWorker env w ?c)
      (cleanupSubscription env a) = Inr c1"
    and cl: "cleaned i a ?c c1" and inv1: "server_inv env c1" "udp_inv env c1"
    by (rule cleanup_both [OF i' a ow_def])
  obtain c2 where c2: "(case ow of None \<Rightarrow> Inr ?c | Some w \<Rightarrow> cleanupSubscriptionUdpWorker env w ?c) = Inr c2"
    "cleanupSubscription env a c2 = Inr c1" using c1 by (auto simp: res_bind_Inr_iff)
  have st2: "smap_find (sv_store c2) i = Some a"
    using cleanup_worker_store [OF i' a ow_def c2(1)] a by simp
  have "\<not> (udp_server_module (env_gc env) \<and> findUdpSubscription i (sv_store2 ?c) = None)"
    using sinv(2) Some by (auto simp: udp_inv_def findUdpSubscription_def split: if_splits)
  then have "cancelTelemetrySubscription env i c =
      Inr (\<lparr>cr_code = SUCCESS, cr_code_str = ''Subscription Successfully Deleted''\<rparr>,
           sv_log (''cancelTelemetrySubscriptionEnd: ID = '' @ string_of_u32 i) c1)"
    using c2 st2 unfolding cancelTelemetrySubscription_def Let_def l0
    by (cases "udp_server_module (env_gc env)")
      (auto simp: ow_def findSubscription_def findUdpSubscription_def)
  then show thesis using cl inv1 by (rule that)
qed

lemma cancel_absent:
  assumes inv: "udp_inv env c" and none: "smap_find (sv_store c) i = None"
  obtains l m where "cancelTelemetrySubscription env i c =
      Inr (\<lparr>cr_code = NO_SUBSCRIPTION_ENTRY, cr_code_str = m\<rparr>, sv_set_log l c)"
proof -
  have "smap_find (sv_store2 c) i = None"
    using inv none by (auto simp: udp_inv_def split: if_splits)
  then have "\<exists>l m. cancelTelemetrySubscription env i c =
    Inr (\<lparr>cr_code = NO_SUBSCRIPTION_ENTRY, cr_code_str = m\<rparr>, sv_set_log l c)"
    using none unfolding cancelTelemetrySubscription_def Let_def
    by (auto simp: findSubscription_def findUdpSubscription_def sv_log_eq set_log_receiver)
  then show thesis using that by blast
qed

lemma cancel_inv:
  assumes inv: "agent_inv env c ts" and can: "cancellable c ts i"
  obtains (absent) l m where "cancelTelemetrySubscription env i c =
      Inr (\<lparr>cr_code = NO_SUBSCRIPTION_ENTRY, cr_code_str = m\<rparr>, sv_set_log l c)"
      "smap_find (sv_store c) i = None"
    | (done_it) c' where "cancelTelemetrySubscription env i c =
        Inr (\<lparr>cr_code = SUCCESS, cr_code_str = ''Subscription Successfully Deleted''\<rparr>, c')"
      "agent_inv env c' ts" "sv_store c' = smap_erase i (sv_store c)" "smap_find (sv_store c) i \<noteq> None"
proof -
  have sinv: "server_inv env c" "udp_inv env c" and th: "threads_inv env c ts"
    using inv by (simp_all add: agent_inv_def)
  show thesis
  proof (cases "smap_find (sv_store c) i")
    case None
    then show thesis by (rule cancel_absent [OF sinv(2)]) (rule absent [OF _ None])
  next
    case (Some a)
    obtain l0 c1 where call: "cancelTelemetrySubscription env i c =
      Inr (\<lparr>cr_code = SUCCESS, cr_code_str = ''Subscription Successfully Deleted''\<rparr>,
           sv_log (''cancelTelemetrySubscriptionEnd: ID = '' @ string_of_u32 i) c1)"
      and cl: "cleaned i a (sv_set_log l0 c) c1" and inv1: "server_inv env c1" "udp_inv env c1"
      by (rule cancel_registered [OF sinv Some])
    let ?c = "sv_set_log l0 c"
    have a: "smap_find (sv_store ?c) i = Some a" using Some by simp
    let ?c' = "sv_log (''cancelTelemetrySubscriptionEnd: ID = '' @ string_of_u32 i) c1"
    have q0: "quiet c ?c" "same_active c ?c" by (rule quiet_log)+
    have "session_ok env c1 ph s" if k: "ts k = Some (ph, s)" for k ph s
    proof -
      have so: "session_ok env c ph s" by (rule thread_session [OF th k])
      then have so': "session_ok env ?c ph s"
        by (rule quiet_session [OF q0(1)]) simp
      show ?thesis
      proof (cases "ss_sub s = a")
        case False
        then show ?thesis by (rule cleaned_session [OF cl a so'])
      next
        case True
        have "sub_id (sv_subs c a) = i" by (rule server_inv_sub [OF sinv(1) Some])
        then have id: "ss_id s = i" using so True by (simp add: session_ok_def)
        then have "registered c s" using True Some by (simp add: registered_def)
        then have "ph = Streaming \<or> ph = Leaving" using can k id unfolding cancellable_def by blast
        moreover have "\<not> registered c1 s" by (simp add: registered_def cleaned_frame [OF cl] id)
        ultimately show ?thesis
          using so' id True
          by (auto simp: session_ok_def cleaned_frame [OF cl] cleaned_sub [OF cl] split: option.splits)
      qed
    qed
    then have "threads_inv env c1 ts"
      using th by (auto simp: threads_inv_def cleaned_frame [OF cl] split: if_splits)
    then have "agent_inv env c1 ts" using inv1 by (simp add: agent_inv_def)
    then have "agent_inv env ?c' ts"
      using quiet_agent_inv quiet_log unfolding sv_log_eq by blast
    moreover have "sv_store ?c' = smap_erase i (sv_store c)" using cl by (simp add: cleaned_def)
    ultimately show thesis by (rule done_it [OF call]) (simp add: Some)
  qed
qed

text \<open>A new subscription and its thread.\<close>

lemma opened_session:
  assumes op: "opened env act s c c'" and so: "session_ok env c ph t" and inv: "server_inv env c" "udp_inv env c"
  shows "session_ok env c' ph t" "ss_sub t \<noteq> ss_sub s"
proof -
  note o = op [unfolded opened_def]
  have ok: "smap_ok (sv_store c)" "smap_ok (sv_store2 c)" and fr: "sub_fresh c"
    using inv by (simp_all add: server_inv_def udp_inv_def)
  have "ss_sub t < sv_next c" "ss_transport t < sv_next c"
    using so fr by (auto simp: session_ok_def sub_fresh_def)
  then have ne: "ss_sub t \<noteq> ss_sub s" "ss_transport t \<noteq> ss_transport s"
    using o by auto
  then show "ss_sub t \<noteq> ss_sub s" by simp
  have subs: "sv_subs c' (ss_sub t) = sv_subs c (ss_sub t)" "sv_sub_live c' (ss_sub t) = sv_sub_live c (ss_sub t)"
    "sv_transports c' (ss_transport t) = sv_transports c (ss_transport t)"
    using o ne by auto
  have store: "smap_find (sv_store c') = (smap_find (sv_store c))(ss_id s \<mapsto> ss_sub s)"
    using o ok by (simp add: smap_find_put)
  have nreg: "\<not> registered c t" if "ss_id t = ss_id s" using o that by (simp add: registered_def)
  have reg: "registered c' t = registered c t"
    using ne nreg by (auto simp: registered_def store)
  have wk: "wk_id (sv_workers c' w) = ss_id t \<and> w < sv_next c' \<and>
      (smap_find (sv_store2 c') (ss_id t) = Some w) = registered c t"
    if w: "ss_worker t = Some w" for w
  proof -
    have on: "udp_server_module (env_gc env)" "wk_id (sv_workers c w) = ss_id t" "w < sv_next c"
      "(smap_find (sv_store2 c) (ss_id t) = Some w) = registered c t"
      using so w by (auto simp: session_ok_def)
    then obtain v wk where v: "sv_next c \<le> v" "sv_store2 c' = smap_put (ss_id s) v (sv_store2 c)"
      "sv_workers c' = (sv_workers c)(v := wk)" "sv_next c \<le> sv_next c'"
      using o by (auto split: option.splits)
    have "w \<noteq> v" using on(3) v(1) by simp
    then show ?thesis
      using on v nreg by (auto simp: smap_find_put [OF ok(2)])
  qed
  show "session_ok env c' ph t"
    using so wk by (cases ph) (auto simp: session_ok_def subs reg split: option.splits)
qed

lemma begin_inv:
  assumes inv: "agent_inv env c ts" and k: "ts k = None" and op: "opened env act s c c'"
    and inv': "server_inv env c'" "udp_inv env c'"
  shows "agent_inv env c' (ts(k \<mapsto> (MetaSent, s)))"
proof -
  note o = op [unfolded opened_def]
  have sinv: "server_inv env c" "udp_inv env c" and th: "threads_inv env c ts"
    using inv by (simp_all add: agent_inv_def)
  have ok: "smap_ok (sv_store c)" "smap_ok (sv_store2 c)"
    using sinv by (simp_all add: server_inv_def udp_inv_def)
  have store: "smap_find (sv_store c') = (smap_find (sv_store c))(ss_id s \<mapsto> ss_sub s)"
    using o ok by (simp add: smap_find_put)
  have me: "session_ok env c' MetaSent s"
    using o by (auto simp: session_ok_def registered_def smap_find_put [OF ok(1)] smap_find_put [OF ok(2)]
        split: option.splits)
  note others = opened_session [OF op thread_session [OF th] sinv]
  have "\<exists>j ph t. (ts(k \<mapsto> (MetaSent, s))) j = Some (ph, t) \<and> ss_sub t = a"
    if a: "smap_find (sv_store c') i = Some a" for i a
  proof (cases "i = ss_id s")
    case True
    then have "a = ss_sub s" using a by (simp add: store)
    then show ?thesis by auto
  next
    case False
    then obtain j ph t where "ts j = Some (ph, t)" "ss_sub t = a"
      using a thread_owner [OF th, of i a] by (auto simp: store)
    then show ?thesis using k by (intro exI [of _ j]) auto
  qed
  then have "threads_inv env c' (ts(k \<mapsto> (MetaSent, s)))"
    using me others th unfolding threads_inv_def by (auto split: if_splits) blast+
  then show ?thesis using inv' by (simp add: agent_inv_def)
qed

section \<open>The service\<close>

lemma agent_inv_start:
  assumes "validate_ocpaths (env_gc env) \<longrightarrow> v \<noteq> None"
  shows "agent_inv env (new_server sys v (new_udp_receiver g buf)) (\<lambda>_. None)"
proof -
  have "udp_inv env (new_server sys v (new_udp_receiver g buf))"
    by (rule new_server_udp) (simp add: new_udp_receiver_def)
  then show ?thesis
    using new_server_inv [OF assms] by (simp add: agent_inv_def threads_inv_def) (simp add: new_server_def)
qed

lemma agent_inv_quiet_move:
  assumes inv: "agent_inv env c ts" and k: "ts k = Some (ph0, s)"
    and q: "quiet c c'" "same_active c c'" and me: "session_ok env c' ph1 s"
  shows "agent_inv env c' (ts(k \<mapsto> (ph1, s)))"
proof -
  have i': "agent_inv env c' ts" by (rule quiet_agent_inv [OF q inv])
  then have th: "threads_inv env c' ts" by (simp add: agent_inv_def)
  have "threads_inv env c' (ts(k \<mapsto> (ph1, s)))"
    by (rule threads_move [OF th k refl _ me]) (rule thread_session [OF th])
  then show ?thesis using i' by (simp add: agent_inv_def)
qed

lemma query_log:
  "getTelemetrySubscriptions env i c = Inr (rs, c') \<Longrightarrow> \<exists>l. c' = sv_set_log l c"
  "getTelemetryOperationalState env i v c = Inr (kvs, c') \<Longrightarrow> \<exists>l. c' = sv_set_log l c"
  "getDataEncodings env c = (es, c') \<Longrightarrow> \<exists>l. c' = sv_set_log l c"
proof -
  have log: "\<exists>l. sv_log m2 (sv_log m c) = sv_set_log l c" "\<exists>l. sv_log m c = sv_set_log l c" for m m2
    by (auto simp: sv_log_eq set_log_receiver)
  have logs: "\<exists>l. foldl (\<lambda>c m. sv_log m c) (sv_log m c) ms = sv_set_log l c" for m ms
    using logs_eq [of c "m # ms"] by simp
  show "getTelemetrySubscriptions env i c = Inr (rs, c') \<Longrightarrow> \<exists>l. c' = sv_set_log l c"
    using log by (auto simp: getTelemetrySubscriptions_def Let_def res_bind_Inr_iff
        split: if_splits option.splits)
  show "getTelemetryOperationalState env i v c = Inr (kvs, c') \<Longrightarrow> \<exists>l. c' = sv_set_log l c"
    using log logs by (auto simp: getTelemetryOperationalState_def Let_def res_bind_Inr_iff
        split: if_splits option.splits)
  show "getDataEncodings env c = (es, c') \<Longrightarrow> \<exists>l. c' = sv_set_log l c"
    using log by (auto simp: getDataEncodings_def)
qed

theorem agent_step_inv: "agent_step env (c, ts) (c', ts') \<Longrightarrow> agent_inv env c ts \<Longrightarrow> agent_inv env c' ts'"
proof (induction "(c, ts)" "(c', ts')" rule: agent_step.induct)
  case (subscribe k request garbage act s)
  then have inv: "server_inv env c" "udp_inv env c" by (simp_all add: agent_inv_def)
  show ?case
    by (rule telemetrySubscribe_ok [OF inv subscribe.hyps(2), where garbage = garbage and act = act])
      (use subscribe begin_inv in auto)
next
  case (refuse garbage act request)
  then have inv: "server_inv env c" "udp_inv env c" by (simp_all add: agent_inv_def)
  show ?case
  proof (rule telemetrySubscribe_ok [OF inv refuse.hyps(2), where garbage = garbage and act = act])
    fix l
    let ?c = "sv_set_log l (c\<lparr>sv_metadata := sv_metadata c @ [subscription_reply_cleared]\<rparr>)"
    assume "telemetrySubscribe env garbage act request c = Inr (None, ?c)"
    then have "c' = ?c" using refuse.hyps(1) by simp
    moreover have "quiet c ?c" "same_active c ?c"
      by (simp_all add: quiet_def same_active_def) (auto simp: sv_set_log_def)
    ultimately show ?thesis using refuse.prems quiet_agent_inv refuse.hyps by blast
  qed (use refuse in auto)
next
  case (enable k s)
  then have so: "session_ok env c MetaSent s" by (simp add: agent_inv_def threads_inv_def)
  then have "sv_sub_live c (ss_sub s)" by (simp add: session_ok_def)
  then obtain c1 where c1: "session_enable env s c = Inr c1" "quiet c c1" "same_active c c1"
    by (rule quiet_enable)
  have "session_ok env c1 MetaSent s"
    by (rule quiet_session [OF c1(2) so]) (use c1(3) in \<open>simp add: same_active_def\<close>)
  then have "session_ok env c1 Enabled s" by (simp add: session_ok_def)
  then show ?case using agent_inv_quiet_move [OF enable.prems enable.hyps(1) c1(2,3)] c1(1) enable by auto
next
  case (activate k s)
  then show ?case by (elim activate_inv [of env c ts k s]) simp_all
next
  case (leave k s)
  then have so: "session_ok env c Streaming s" by (simp add: agent_inv_def threads_inv_def)
  then have "session_ok env c Leaving s"
    using leave by (auto simp: session_ok_def session_over_def deref_sub_def)
  moreover have "quiet c c" "same_active c c"
    by (simp_all add: quiet_def same_active_def) (rule exI [of _ "cs_system (sv_consolidator c)"], simp)
  ultimately show ?case using agent_inv_quiet_move leave by blast
next
  case (finish k s)
  then show ?case by (elim finish_inv [of env c ts k s]) simp_all
next
  case (cancel i r)
  show ?case
  proof (rule cancel_inv [OF cancel.prems cancel.hyps(1)])
    fix l m
    assume "cancelTelemetrySubscription env i c =
      Inr (\<lparr>cr_code = NO_SUBSCRIPTION_ENTRY, cr_code_str = m\<rparr>, sv_set_log l c)"
    then show ?thesis using cancel quiet_agent_inv [OF quiet_log] by simp
  qed (use cancel in simp_all)
next
  case (message i a reg parse now usec garbage msg)
  have "server_inv env c" using message.prems by (simp add: agent_inv_def)
  then show ?case
    by (rule quiet_message [OF _ message.hyps(1), of env reg parse now usec garbage msg])
      (use message quiet_agent_inv in auto)
next
  case (packet garbage pkt)
  then show ?case using quiet_packet quiet_agent_inv by blast
next
  case (turn i w decode)
  then show ?case using quiet_turn quiet_agent_inv by blast
next
  case (disconnect k ph s)
  then show ?case using quiet_disconnect quiet_agent_inv by blast
next
  case (subscriptions i rs)
  then show ?case using query_log(1) quiet_agent_inv [OF quiet_log] by blast
next
  case (operational i v kvs)
  then show ?case using query_log(2) quiet_agent_inv [OF quiet_log] by blast
next
  case (encodings es)
  then show ?case using query_log(3) quiet_agent_inv [OF quiet_log] by blast
qed

lemma reachable_inv: "reachable env (c, ts) \<Longrightarrow> agent_inv env c ts"
proof (induction "(c, ts)" arbitrary: c ts rule: reachable.induct)
  case (start v sys g buf)
  then show ?case by (simp add: agent_inv_start)
next
  case (step s)
  then show ?case by (cases s) (auto intro: agent_step_inv)
qed

end
