(* ===== verification/ServerSafety.thy ===== *)
theory ServerSafety
  imports ServerThreads
begin

text \<open>
  What the invariant of the service gives: no thread touches a deleted object, queries answer for
  every registered subscription, everything is released when the last thread is gone, a
  disconnected client's subscription ends. And the one interleaving the steps leave out: a
  cancellation before \<open>setActive(true)\<close> ends in a use of a deleted handle.
\<close>

section \<open>Progress of a thread\<close>

lemma thread_progress:
  assumes inv: "agent_inv env c ts" and k: "ts k = Some (ph, s)"
  shows "case ph of
      MetaSent \<Rightarrow> \<exists>c'. session_enable env s c = Inr c'
    | Enabled \<Rightarrow> \<exists>c'. session_activate s c = Inr c'
    | Streaming \<Rightarrow> \<exists>over. session_over s c = Inr over
    | Leaving \<Rightarrow> \<exists>c'. session_end env s c = Inr c'"
proof (cases ph)
  case Leaving
  then have "ts k = Some (Leaving, s)" using k by simp
  from finish_inv [OF inv this] show ?thesis using Leaving by fastforce
next
  case Enabled
  then have "ts k = Some (Enabled, s)" using k by simp
  from activate_inv [OF inv this] show ?thesis using Enabled by fastforce
next
  case MetaSent
  have "sv_sub_live c (ss_sub s)" using inv k by (auto simp: agent_inv_def threads_inv_def session_ok_def)
  then obtain c' where "session_enable env s c = Inr c'" by (rule quiet_enable)
  then show ?thesis using MetaSent by simp
next
  case Streaming
  have "sv_sub_live c (ss_sub s)" using inv k by (auto simp: agent_inv_def threads_inv_def session_ok_def)
  then show ?thesis using Streaming by (simp add: session_over_def deref_sub_def)
qed

text \<open>A packet never reaches a deleted worker.\<close>

lemma packet_live:
  assumes inv: "agent_inv env c ts"
  shows "udp_packet garbage pkt c \<noteq> Inl UseAfterFree"
proof -
  have "sv_worker_live c w" if "smap_find (ur_ext_id_worker_store (sv_receiver c)) e = Some w" for e w
    using inv that by (simp add: agent_inv_def udp_inv_def worker_entry_ok_def)
  then have live: "\<not> (\<exists>e \<in> set d. \<exists>w \<in> set_option (smap_find (ur_ext_id_worker_store (sv_receiver c)) e).
      \<not> sv_worker_live c w)" for d
    by auto
  have "receive_packet garbage pkt (sv_receiver c, sv_workers c, sv_get_log c) \<noteq> Inl UseAfterFree"
    by (auto simp: receive_packet_def Let_def split: option.split prod.split)
  then show ?thesis
    using live by (cases "receive_packet garbage pkt (sv_receiver c, sv_workers c, sv_get_log c)")
      (auto simp: udp_packet_def Let_def)
qed

section \<open>Release\<close>

lemma smap_empty: "smap_find m = Map.empty \<Longrightarrow> m = []"
  by (cases m) (auto simp: smap_find_def fun_eq_iff split: if_splits)

lemma nothing_left:
  assumes inv: "agent_inv env c (\<lambda>_. None)"
  shows "sv_store c = []" "sv_store2 c = []" "live_ids (sv_id_manager c) = {}"
    "con_live (sv_consolidator c) = []" "cs_sysdb (sv_consolidator c) = []"
    "ur_ext_id_worker_store (sv_receiver c) = []"
proof -
  have sinv: "server_inv env c" "udp_inv env c" and th: "threads_inv env c (\<lambda>_. None)"
    using inv by (simp_all add: agent_inv_def)
  have "smap_find (sv_store c) i = None" for i
    using th by (cases "smap_find (sv_store c) i") (auto simp: threads_inv_def)
  then have e: "smap_find (sv_store c) = Map.empty" by auto
  then show st: "sv_store c = []" by (rule smap_empty)
  have "smap_find (sv_store2 c) = Map.empty"
    using sinv(2) e by (auto simp: udp_inv_def split: if_splits)
  then show "sv_store2 c = []" "ur_ext_id_worker_store (sv_receiver c) = []"
    using sinv(2) by (simp_all add: udp_inv_def smap_empty)
  show "live_ids (sv_id_manager c) = {}" using sinv(1) e by (simp add: server_inv_def)
  have "smap_find (con_live (sv_consolidator c)) p = None" for p
    using sinv(1) e by (cases "smap_find (con_live (sv_consolidator c)) p")
      (auto simp: server_inv_def handle_owned_def)
  then have "smap_find (con_live (sv_consolidator c)) = Map.empty" by auto
  then show con: "con_live (sv_consolidator c) = []" by (rule smap_empty)
  have "con_inv (env_sp env) (sv_consolidator c)" using sinv(1) by (simp add: server_inv_def)
  from con_inv_sysdb(2) [OF this] show "cs_sysdb (sv_consolidator c) = []"
    by (simp add: requested_def con)
qed

text \<open>At most 63 subscriptions at a time.\<close>

lemma at_most_63:
  assumes "server_inv env c"
  shows "card (dom (smap_find (sv_store c))) \<le> 63"
proof -
  have ids: "id_ok (sv_id_manager c)" "id_bounds (sv_id_manager c)"
    "dom (smap_find (sv_store c)) = live_ids (sv_id_manager c)"
    using assms by (simp_all add: server_inv_def)
  have "unat ` live_ids (sv_id_manager c) \<subseteq> {1..63}"
    using live_ids_bounds [OF ids(1)] ids(1,2)
    by (force simp: id_ok_def id_bounds_def SUBSCRIPTION_ID_SPACE_SIZE_def)
  then have "card (unat ` live_ids (sv_id_manager c)) \<le> card {1..63::nat}"
    by (rule card_mono [rotated]) simp
  moreover have "inj_on unat (live_ids (sv_id_manager c))" by (rule inj_onI) (simp add: word_unat_eq_iff)
  ultimately show ?thesis by (simp add: ids(3) card_image)
qed

section \<open>Queries\<close>

lemma res_map_total:
  "(\<And>x. x \<in> set xs \<Longrightarrow> f x = Inr (g x)) \<Longrightarrow> res_map f xs = Inr (map g xs)"
  by (induction xs) auto

text \<open>The reply for a registered subscription lists the paths of its consolidator handle.\<close>

definition entry_of :: "'b server \<Rightarrow> addr \<Rightarrow> subscription_reply" where
  "entry_of c a = \<lparr>rep_subscription_id = sub_id (sv_subs c a),
     rep_path_list = map (\<lambda>b. h_path (cs_heap (sv_consolidator c) b))
       (ch_handles (the (smap_find (con_live (sv_consolidator c))
          (the (sub_system_subscription (sv_subs c a))))))\<rparr>"

lemma subscription_entry_total:
  assumes "server_inv env c" and "smap_find (sv_store c) i = Some a"
  shows "subscription_entry c a = Inr (entry_of c a)" "sub_id (sv_subs c a) = i"
proof -
  obtain p h where "sv_sub_live c a" "sub_id (sv_subs c a) = i"
    "sub_system_subscription (sv_subs c a) = Some p"
    "smap_find (con_live (sv_consolidator c)) p = Some h"
    by (rule server_inv_sub [OF assms])
  then show "subscription_entry c a = Inr (entry_of c a)" "sub_id (sv_subs c a) = i"
    by (simp_all add: subscription_entry_def deref_sub_def entry_of_def)
qed

lemma all_subs:
  assumes inv: "server_inv env c"
  shows "all_subscriptions (sv_subs c) (sv_store c) = Some (map snd (sv_store c))"
    "a \<in> snd ` set (sv_store c) \<Longrightarrow> \<exists>i. smap_find (sv_store c) i = Some a"
proof -
  have ok: "smap_ok (sv_store c)" using inv by (simp add: server_inv_def)
  show "all_subscriptions (sv_subs c) (sv_store c) = Some (map snd (sv_store c))"
    by (rule all_subscriptions_complete [OF ok]) (rule subscription_entry_total(2) [OF inv])
  show "a \<in> snd ` set (sv_store c) \<Longrightarrow> \<exists>i. smap_find (sv_store c) i = Some a"
    by (force simp: smap_find_set [OF ok])
qed

lemma entries_total:
  assumes inv: "server_inv env c"
  shows "res_map (subscription_entry c) (map snd (sv_store c)) = Inr (map (entry_of c \<circ> snd) (sv_store c))"
proof -
  have "res_map (subscription_entry c) (map snd (sv_store c)) = Inr (map (entry_of c) (map snd (sv_store c)))"
    by (rule res_map_total) (use all_subs(2) [OF inv] subscription_entry_total(1) [OF inv] in auto)
  then show ?thesis by simp
qed

lemma entry_of_set_log [simp]: "entry_of (sv_set_log l c) = entry_of c"
  by (simp add: entry_of_def fun_eq_iff)

lemma subscriptions_all:
  assumes inv: "server_inv env c"
  obtains l where "getTelemetrySubscriptions env ALL_SUBSCRIPTIONS c =
     Inr (map (entry_of c \<circ> snd) (sv_store c), sv_set_log l c)"
    "map (rep_subscription_id \<circ> entry_of c \<circ> snd) (sv_store c) = map fst (sv_store c)"
proof -
  obtain l where l: "sv_log (''getTelemetrySubscriptions->'' @ env_show_id env ALL_SUBSCRIPTIONS) c = sv_set_log l c"
    by (simp add: sv_log_eq)
  let ?c = "sv_set_log l c"
  have i: "server_inv env ?c" using inv by simp
  have "getTelemetrySubscriptions env ALL_SUBSCRIPTIONS c = Inr (map (entry_of c \<circ> snd) (sv_store c), ?c)"
    unfolding getTelemetrySubscriptions_def Let_def l
    using all_subs(1) [OF i] entries_total [OF i] by simp
  moreover have "rep_subscription_id (entry_of c (snd x)) = fst x" if "x \<in> set (sv_store c)" for x
  proof -
    have "smap_ok (sv_store c)" using inv by (simp add: server_inv_def)
    then have "smap_find (sv_store c) (fst x) = Some (snd x)" using that by (simp add: smap_find_set)
    then show ?thesis using subscription_entry_total(2) [OF inv] by (simp add: entry_of_def)
  qed
  ultimately show thesis by (intro that) simp_all
qed

lemma operational_entry_total:
  assumes inv: "server_inv env c" "udp_inv env c" and a: "smap_find (sv_store c) i = Some a"
  shows "\<exists>r. operational_entry env asked v c a = Inr r" "sv_sub_live c a"
    "smap_find (sv_store2 c) i = Some w \<Longrightarrow> sv_worker_live c w"
proof -
  have s: "sv_sub_live c a" "sub_id (sv_subs c a) = i" by (rule server_inv_sub [OF inv(1) a], assumption)+
  have w: "sv_worker_live c w" if "smap_find (sv_store2 c) j = Some w" for j w
    using inv(2) that by (simp add: udp_inv_def worker_entry_ok_def)
  show "\<exists>r. operational_entry env asked v c a = Inr r"
    using s w by (auto simp: operational_entry_def deref_sub_def deref_worker_def findUdpSubscription_def Let_def
        split: option.split)
  show "sv_sub_live c a" by (rule s)
  show "smap_find (sv_store2 c) i = Some w \<Longrightarrow> sv_worker_live c w" by (rule w)
qed

lemma res_map_some: "(\<And>x. x \<in> set xs \<Longrightarrow> \<exists>y. f x = Inr y) \<Longrightarrow> \<exists>ys. res_map f xs = Inr ys"
  by (induction xs) (auto, metis res_bind.simps(2))

lemma operational_total:
  assumes inv: "server_inv env c" "udp_inv env c"
  shows "\<exists>kvs c'. getTelemetryOperationalState env i v c = Inr (kvs, c')"
proof -
  obtain l where l: "sv_log (''getTelemetryOperationalState->'' @ env_show_operational env i v) c = sv_set_log l c"
    by (simp add: sv_log_eq)
  let ?c = "sv_set_log l c"
  have i': "server_inv env ?c" "udp_inv env ?c" using inv by simp_all
  have "\<exists>r. operational_entry env i v ?c a = Inr r" if "a \<in> set (map snd (sv_store ?c))" for a
    using all_subs(2) [OF i'(1)] operational_entry_total(1) [OF i'] that by fastforce
  then obtain rs where "res_map (operational_entry env i v ?c) (map snd (sv_store ?c)) = Inr rs"
    using res_map_some by blast
  then have all: "\<exists>kvs c'. res_bind (returned (all_subscriptions (sv_subs ?c) (sv_store ?c))) (\<lambda>as.
           res_bind (res_map (operational_entry env i v ?c) as) (\<lambda>rs.
             Inr (concat (map fst rs) @ agent_stats ?c, foldl (\<lambda>c m. sv_log m c) ?c (concat (map snd rs))))) = Inr (kvs, c')"
    using all_subs(1) [OF i'(1)] by simp
  have one: "\<exists>sub. deref_sub a ?c = Inr sub" if "smap_find (sv_store ?c) i = Some a" for a
    using operational_entry_total(2) [OF i' that] by (simp add: deref_sub_def)
  have wk: "\<exists>wk. deref_worker w ?c = Inr wk" if "smap_find (sv_store2 ?c) i = Some w" for w
    using i'(2) that by (simp add: udp_inv_def worker_entry_ok_def deref_worker_def)
  show ?thesis
    unfolding getTelemetryOperationalState_def Let_def l
    using all one wk
    by (auto simp: findSubscription_def findUdpSubscription_def split: option.split) 
qed

section \<open>Disconnects\<close>

text \<open>A streaming thread whose client has gone can leave its loop and then finishes.\<close>

lemma disconnect_ends:
  assumes inv: "agent_inv env c ts" and k: "ts k = Some (Streaming, s)"
  obtains c' where
    "agent_step env (client_disconnect (ss_transport s) c, ts)
       (client_disconnect (ss_transport s) c, ts(k \<mapsto> (Leaving, s)))"
    "agent_step env (client_disconnect (ss_transport s) c, ts(k \<mapsto> (Leaving, s))) (c', ts(k := None))"
    "agent_inv env c' (ts(k := None))" "\<not> registered c' s"
proof -
  let ?c = "client_disconnect (ss_transport s) c"
  have inv1: "agent_inv env ?c ts" by (rule quiet_agent_inv [OF quiet_disconnect inv])
  then have so: "session_ok env ?c Streaming s" using k by (simp add: agent_inv_def threads_inv_def)
  then have over: "session_over s ?c = Inr True"
    by (simp add: session_over_def deref_sub_def session_ok_def)
      (simp add: client_disconnect_def getClientDisconnects_def)
  have s1: "agent_step env (?c, ts) (?c, ts(k \<mapsto> (Leaving, s)))"
    by (rule agent_step.leave [of ts k s, OF k over])
  have inv2: "agent_inv env ?c (ts(k \<mapsto> (Leaving, s)))" by (rule agent_step_inv [OF s1 inv1])
  obtain c' where fin: "session_end env s ?c = Inr c'" "agent_inv env c' ((ts(k \<mapsto> (Leaving, s)))(k := None))"
    "sv_store c' = (if registered ?c s then smap_erase (ss_id s) (sv_store ?c) else sv_store ?c)"
    by (rule finish_inv [OF inv2, of k s]) simp_all
  have "agent_step env (?c, ts(k \<mapsto> (Leaving, s))) (c', (ts(k \<mapsto> (Leaving, s)))(k := None))"
    by (rule agent_step.finish [OF _ fin(1)]) simp
  moreover have "\<not> registered c' s"
    using fin(3) by (auto simp: registered_def smap_find_erase split: if_splits)
  ultimately show thesis using s1 fin(2) by (intro that [of c']) simp_all
qed

section \<open>The race\<close>

text \<open>
  The client cancels after the metadata has been sent and before the thread runs
  \<open>setActive(true)\<close>: the flag set again hides the cancellation, and when the client goes the
  thread cleans up a second time, through a handle that the consolidator has deleted.
\<close>

lemma cleaned_handle_gone:
  assumes inv: "server_inv env c" and a: "smap_find (sv_store c) i = Some a"
    and cl: "cleaned i a c c1" and inv1: "server_inv env c1"
    and p: "sub_system_subscription (sv_subs c a) = Some p"
  shows "smap_find (con_live (sv_consolidator c1)) p = None"
proof (rule ccontr)
  assume "smap_find (con_live (sv_consolidator c1)) p \<noteq> None"
  then obtain h where "smap_find (con_live (sv_consolidator c1)) p = Some h" by auto
  then have "handle_owned c1 p h" using inv1 by (simp add: server_inv_def)
  then obtain b where b: "smap_find (sv_store c1) (ch_subscription_id h) = Some b"
    "sub_system_subscription (sv_subs c1 b) = Some p" by (auto simp: handle_owned_def)
  then have "smap_find (sv_store c) (ch_subscription_id h) = Some b" "i \<noteq> ch_subscription_id h"
    by (auto simp: cleaned_frame [OF cl] split: if_splits)
  from other_handle(1) [OF inv a this] show False
    using b(2) p by (simp add: cleaned_sub [OF cl])
qed

lemma dead_handle:
  assumes "sub_system_subscription sub = Some p" and "smap_find (con_live c) p = None"
  shows "system_ids c (sub_system_subscription sub) = Inl UseAfterFree"
    "removeRequest sp ops (sub_system_subscription sub) c = Inl UseAfterFree"
  using assms by (simp_all add: system_ids_def removeRequest_def)

lemma cleanup_dead_handle:
  assumes "sv_sub_live c a" and "sub_system_subscription (sv_subs c a) = Some p"
    and "smap_find (con_live (sv_consolidator c)) p = None"
  shows "cleanupSubscription env a c = Inl UseAfterFree"
proof -
  let ?sub = "sv_subs c a"
  have sys: "sub_system_subscription (?sub\<lparr>mq_calls := cs\<rparr>) = Some p" for cs using assms(2) by simp
  show ?thesis
  proof (cases "sub_topics (env_gc env) (sv_consolidator c) ?sub")
    case (Inl e)
    then have "e = UseAfterFree"
      using dead_handle(1) [OF assms(2,3)] by (auto simp: sub_topics_def split: if_splits)
    then show ?thesis using Inl assms(1) by (simp add: cleanupSubscription_def deref_sub_def sub_disable_def)
  next
    case (Inr ts)
    obtain l where "sub_disable (env_gc env) (sv_consolidator c) (?sub, sv_get_log c) =
        Inr (?sub\<lparr>mq_calls := mq_calls ?sub @ map MqUnsubscribe ts\<rparr>, l)"
      using sub_disable_calls [OF Inr] by blast
    then show ?thesis
      using assms by (simp add: cleanupSubscription_def deref_sub_def mq_call_def put_sub_def Let_def
          removeRequest_def)
  qed
qed

lemma cancel_before_activate:
  assumes inv: "agent_inv env c ts" and k: "ts k = Some (Enabled, s)"
  obtains r c1 c2 where "cancelTelemetrySubscription env (ss_id s) c = Inr (r, c1)" "cr_code r = SUCCESS"
    "session_activate s c1 = Inr c2"
    "session_end env s (client_disconnect (ss_transport s) c2) = Inl UseAfterFree"
proof -
  let ?a = "ss_sub s" and ?m = "''cancelTelemetrySubscriptionEnd: ID = '' @ string_of_u32 (ss_id s)"
  have sinv: "server_inv env c" "udp_inv env c" and so: "session_ok env c Enabled s"
    using inv k by (simp_all add: agent_inv_def threads_inv_def)
  have reg: "registered c s" and tr: "sub_transport (sv_subs c ?a) = ss_transport s"
    using so by (simp_all add: session_ok_def)
  then have a: "smap_find (sv_store c) (ss_id s) = Some ?a" by (simp add: registered_def)
  obtain l0 c1 where can: "cancelTelemetrySubscription env (ss_id s) c =
      Inr (\<lparr>cr_code = SUCCESS, cr_code_str = ''Subscription Successfully Deleted''\<rparr>, sv_log ?m c1)"
    and cl: "cleaned (ss_id s) ?a (sv_set_log l0 c) c1" and inv1: "server_inv env c1" "udp_inv env c1"
    by (rule cancel_registered [OF sinv a])
  obtain p where live: "sv_sub_live c ?a" and p: "sub_system_subscription (sv_subs c ?a) = Some p"
    by (rule server_inv_sub [OF sinv(1) a])
  have gone: "smap_find (con_live (sv_consolidator c1)) p = None"
    by (rule cleaned_handle_gone [OF _ _ cl inv1(1)]) (use sinv(1) a p in simp_all)
  let ?c1 = "sv_log ?m c1"
  let ?c2 = "put_sub ?a (setActive True (sv_subs ?c1 ?a)) ?c1"
  let ?c3 = "client_disconnect (ss_transport s) ?c2"
  have act: "session_activate s ?c1 = Inr ?c2"
    using live by (simp add: session_activate_def deref_sub_def cleaned_frame [OF cl])
  let ?sub = "sv_subs ?c3 ?a"
  have c3: "sv_sub_live ?c3 ?a" "sub_active ?sub" "sub_transport ?sub = ss_transport s"
    "sub_system_subscription ?sub = Some p" "getClientDisconnects (sv_transports ?c3 (ss_transport s))"
    "smap_find (con_live (sv_consolidator ?c3)) p = None"
    using live p tr gone
    by (simp_all add: client_disconnect_def put_sub_def setActive_def getClientDisconnects_def
        cleaned_frame [OF cl] cleaned_sub [OF cl])
  let ?c4 = "sv_log (stream_over_line (ss_id s) (sub_expired ?sub) True) ?c3"
  have dead: "cleanupSubscription env ?a ?c4 = Inl UseAfterFree"
    by (rule cleanup_dead_handle [of _ _ p]) (use c3 in simp_all)
  have wk: "cleanupSubscriptionUdpWorker env w ?c4 = Inl UseAfterFree" if w: "ss_worker s = Some w" for w
  proof -
    have "smap_find (sv_store2 c) (ss_id s) = Some w"
      using session_worker [OF so reg] w by (simp split: if_splits)
    then have "worker_entry_ok c (ss_id s) w" using sinv(2) by (simp add: udp_inv_def)
    then have "sv_worker_live ?c4 w" "wk_system_subscription (sv_workers ?c4 w) = Some p"
      using a p by (auto simp: worker_entry_ok_def client_disconnect_def put_sub_def cleaned_frame [OF cl])
    then show ?thesis
      using c3(6) by (simp add: cleanupSubscriptionUdpWorker_def deref_worker_def system_ids_def)
  qed
  have "session_end env s ?c3 = Inl UseAfterFree"
    using c3 dead wk by (cases "ss_worker s") (simp_all add: session_end_def deref_sub_def Let_def)
  then show thesis using that [OF can _ act] by simp
qed

section \<open>A run\<close>

text \<open>A service on the null backend with the UDP server on, and its states after each phase of a thread.\<close>

definition example_env :: "unit server_env" where
  "example_env = \<lparr>env_sp = p_path, env_show_request = (\<lambda>_. []), env_show_reply = (\<lambda>_. []),
     env_show_id = string_of_u32, env_show_operational = (\<lambda>_ _. []), env_show_encoding = [],
     env_ops = AgentSystemNull p_path,
     env_gc = default_config\<lparr>udp_server_module := True, validate_ocpaths := False\<rparr>\<rparr>"

definition example_request :: subscription_request where
  "example_request = subscription_request_cleared\<lparr>sr_path_list := [path_cleared\<lparr>p_path := ''/a''\<rparr>]\<rparr>"

definition example_server :: "unit server" where
  "example_server = new_server (new_agent_system (new_log ''l'') ()) None (new_udp_receiver 0 [])"

lemma example_start: "reachable example_env (example_server, \<lambda>_. None)"
  unfolding example_server_def
  by (rule reachable.start) (simp add: example_env_def)

lemma example_begun:
  obtains s c where "telemetrySubscribe example_env 0 False example_request example_server = Inr (Some s, c)"
    "reachable example_env (c, [0 \<mapsto> (MetaSent, s)])"
proof -
  have inv: "server_inv example_env example_server" "udp_inv example_env example_server"
    using reachable_inv [OF example_start] by (simp_all add: agent_inv_def)
  have len: "length (sr_path_list example_request) < 2 ^ 31" by (simp add: example_request_def)
  show thesis
  proof (rule telemetrySubscribe_ok [OF inv len, where garbage = 0 and act = False])
    fix l
    assume "sr_path_list example_request = [] \<or>
      (\<forall>j. 0 < unat j \<and> unat j < 64 \<longrightarrow> j \<in> dom (smap_find (sv_store example_server)))"
    moreover have "0 < unat (1 :: u32) \<and> unat (1 :: u32) < 64" by simp
    ultimately have "(1 :: u32) \<in> dom (smap_find (sv_store example_server))"
      unfolding example_request_def by auto
    then show thesis by (simp add: example_server_def new_server_def dom_def)
  next
    fix s acc c
    assume b: "telemetrySubscribe example_env 0 False example_request example_server = Inr (Some s, c)"
    have "agent_step example_env (example_server, \<lambda>_. None) (c, (\<lambda>_. None)(0 \<mapsto> (MetaSent, s)))"
      by (rule agent_step.subscribe [OF _ len b]) simp
    then show thesis using that b reachable.step [OF example_start] by simp
  qed
qed

lemma example_enabled:
  obtains s c where "reachable example_env (c, [0 \<mapsto> (Enabled, s)])"
proof -
  obtain s c where r: "reachable example_env (c, [0 \<mapsto> (MetaSent, s)])" by (rule example_begun)
  have k: "[0 \<mapsto> (MetaSent, s)] 0 = Some (MetaSent, s)" by simp
  then obtain c' where "session_enable example_env s c = Inr c'"
    using thread_progress [OF reachable_inv [OF r] k] by auto
  then have "agent_step example_env (c, [0 \<mapsto> (MetaSent, s)]) (c', [0 \<mapsto> (MetaSent, s)](0 \<mapsto> (Enabled, s)))"
    by (intro agent_step.enable) (rule k)
  then show thesis by (intro that reachable.step [OF r]) simp
qed

lemma example_streaming:
  obtains s c where "reachable example_env (c, [0 \<mapsto> (Streaming, s)])"
proof -
  obtain s c where r: "reachable example_env (c, [0 \<mapsto> (Enabled, s)])" by (rule example_enabled)
  have k: "[0 \<mapsto> (Enabled, s)] 0 = Some (Enabled, s)" by simp
  then obtain c' where "session_activate s c = Inr c'"
    using thread_progress [OF reachable_inv [OF r] k] by auto
  then have "agent_step example_env (c, [0 \<mapsto> (Enabled, s)]) (c', [0 \<mapsto> (Enabled, s)](0 \<mapsto> (Streaming, s)))"
    by (intro agent_step.activate) (rule k)
  then show thesis by (intro that reachable.step [OF r]) simp
qed

lemma example_finished:
  obtains c where "reachable example_env (c, \<lambda>_. None)"
proof -
  obtain s c where r: "reachable example_env (c, [0 \<mapsto> (Streaming, s)])" by (rule example_streaming)
  have k: "[0 \<mapsto> (Streaming, s)] 0 = Some (Streaming, s)" by simp
  have "agent_step example_env (c, [0 \<mapsto> (Streaming, s)]) (client_disconnect (ss_transport s) c, [0 \<mapsto> (Streaming, s)])"
    by (intro agent_step.disconnect) (rule k)
  then have r1: "reachable example_env (client_disconnect (ss_transport s) c, [0 \<mapsto> (Streaming, s)])"
    by (rule reachable.step [OF r])
  show thesis
  proof (rule disconnect_ends [OF reachable_inv [OF r] k])
    fix c'
    assume "agent_step example_env (client_disconnect (ss_transport s) c, [0 \<mapsto> (Streaming, s)])
        (client_disconnect (ss_transport s) c, [0 \<mapsto> (Streaming, s)](0 \<mapsto> (Leaving, s)))"
      "agent_step example_env (client_disconnect (ss_transport s) c, [0 \<mapsto> (Streaming, s)](0 \<mapsto> (Leaving, s)))
        (c', [0 \<mapsto> (Streaming, s)](0 := None))"
    then have "reachable example_env (c', [0 \<mapsto> (Streaming, s)](0 := None))"
      using r1 by (blast intro: reachable.step)
    moreover have e: "[0 \<mapsto> (Streaming, s)](0 := None) = (\<lambda>_. None)" by (simp add: fun_eq_iff)
    ultimately show thesis unfolding e by (intro that)
  qed
qed

end
