(* ===== verification/EndToEnd.thy ===== *)
theory EndToEnd
  imports ClientRuns ServerSafety
begin

text \<open>
  Client and server together: the server's calls behind the client's stub. A call that ends the
  server is a failed call for the client.
\<close>

section \<open>The stub\<close>

definition agent_rpc :: "'b server_env \<Rightarrow> 'b server client_rpc" where
  "agent_rpc env =
     \<lparr>rpc_cancel = (\<lambda>address i sv.
        (case cancelTelemetrySubscription env i sv of Inr (r, sv') \<Rightarrow> (Some r, sv') | Inl _ \<Rightarrow> (None, sv))),
      rpc_list = (\<lambda>address i sv.
        (case getTelemetrySubscriptions env i sv of Inr (rs, sv') \<Rightarrow> (Some rs, sv') | Inl _ \<Rightarrow> (None, sv))),
      rpc_operational = (\<lambda>address i v sv.
        (case getTelemetryOperationalState env i v sv of Inr (kvs, sv') \<Rightarrow> (Some kvs, sv') | Inl _ \<Rightarrow> (None, sv)))\<rparr>"

lemma agent_rpc_cancel:
  "rpc_cancel (agent_rpc env) address i sv =
     (case cancelTelemetrySubscription env i sv of Inr (r, sv') \<Rightarrow> (Some r, sv') | Inl _ \<Rightarrow> (None, sv))"
  by (simp add: agent_rpc_def)

section \<open>Unsubscribing\<close>

text \<open>
  The command ends the subscription on both sides when the id is registered; otherwise the
  server refuses it and the client stays as active as it was.
\<close>

lemma unsubscribe_both:
  assumes inv: "agent_inv env sv ts" and can: "cancellable sv ts i"
    and a: "client_find n c = Some a" "deref_client a c = Inr x" and n: "n \<noteq> AGENTCLIENT_MGMT"
    and x: "ac_subscription_id_valid x" "ac_subscription_id x = i"
  shows "\<exists>c' r sv'. handle_unsubscribe (agent_rpc env) [w, n] (c, sv) = Inr (c', sv') \<and>
    cancelTelemetrySubscription env i sv = Inr (r, sv') \<and>
    smap_find (sv_store sv') = (smap_find (sv_store sv))(i := None) \<and>
    (ac_active (cl_heap c' a) \<longleftrightarrow> ac_active (cl_heap c a) \<and> smap_find (sv_store sv) i = None)"
proof -
  have x': "x = cl_heap c a" using a(2) by (simp add: deref_client_def split: if_splits)
  have call: "handle_unsubscribe (agent_rpc env) [w, n] (c, sv) = cancelSubscribeTelemetry (agent_rpc env) a (c, sv)"
    using a(1) n by (simp add: handle_unsubscribe_def argv_at_def)
  have heap: "cl_heap (say_cancel_reply r c') = cl_heap c'" "cl_heap (say ls c') = cl_heap c'" for r ls c'
    by (simp_all add: say_cancel_reply_def say_def)
  show ?thesis
  proof (rule cancel_inv [OF inv can])
    fix l m
    assume "cancelTelemetrySubscription env i sv =
        Inr (\<lparr>cr_code = NO_SUBSCRIPTION_ENTRY, cr_code_str = m\<rparr>, sv_set_log l sv)"
      "smap_find (sv_store sv) i = None"
    then show ?thesis using a(2) x x' heap
      by (simp add: call cancelSubscribeTelemetry_def agent_rpc_cancel cancel_reply_of_def Let_def fun_upd_idem)
  next
    fix sv'
    assume "cancelTelemetrySubscription env i sv =
        Inr (\<lparr>cr_code = SUCCESS, cr_code_str = ''Subscription Successfully Deleted''\<rparr>, sv')"
      "sv_store sv' = smap_erase i (sv_store sv)" "smap_find (sv_store sv) i \<noteq> None"
    then show ?thesis using a(2) x x'
      by (simp add: call cancelSubscribeTelemetry_def agent_rpc_cancel cancel_reply_of_def update_client_def
          smap_find_erase Let_def)
  qed
qed

section \<open>A subscription from its command to its end\<close>

text \<open>The client's side up to the metadata.\<close>

lemma subscribe_client:
  assumes reg: "registry_ok c" and new: "client_find n c = None"
  obtains p c1 where "handle_subscribe (w # n # f # paths) c = Inr (Session p, c1)" "opens c p c1"
    "sr_path_list (pe_request p) = map (\<lambda>q. path_cleared\<lparr>p_path := q, p_sample_frequency := atoi f\<rparr>) paths"
    "pe_telegraf p = False" "client_find n c1 = Some (pe_client p)" "ac_active (cl_heap c1 (pe_client p))"
proof -
  obtain p c1 where r: "begin_subscription n (atoi f) 0 0 paths False c = (Session p, c1)"
    using new by (simp add: begin_subscription_def case_prod_beta)
  have "handle_subscribe (w # n # f # paths) c = Inr (Session p, c1)"
    using r by (simp add: handle_subscribe_def argv_at_def)
  moreover have "opens c p c1" using begin_subscription_cases [of n "atoi f" 0 0 paths False c] r by auto
  moreover have "smap_ok (cl_clients c)" using reg by (simp add: registry_ok_def)
  ultimately show thesis using r new
    by (intro that [of p c1])
      (auto simp: begin_subscription_def create_named_def client_create_def client_find_def subscribe_request_def
        new_agent_client_def smap_find_put Let_def)
qed

text \<open>The server's side from the metadata to the polling loop.\<close>

lemma subscribe_server:
  assumes r: "reachable env (sv, ts)" and k: "ts k = None" and len: "length (sr_path_list request) < 2 ^ 31"
    and paths: "sr_path_list request \<noteq> []"
    and free: "\<exists>i. 0 < unat i \<and> unat i < 64 \<and> i \<notin> dom (smap_find (sv_store sv))"
  obtains s acc sv1 sv2 where "telemetrySubscribe env g act request sv = Inr (Some s, sv1)"
    "sv_metadata sv1 = sv_metadata sv @ [\<lparr>rep_subscription_id = ss_id s, rep_path_list = acc\<rparr>]"
    "reachable env (sv2, ts(k \<mapsto> (Streaming, s)))"
    "smap_find (sv_store sv2) = (smap_find (sv_store sv))(ss_id s \<mapsto> ss_sub s)"
    "smap_find (sv_store sv) (ss_id s) = None"
proof -
  have inv: "server_inv env sv" "udp_inv env sv" using reachable_inv [OF r] by (simp_all add: agent_inv_def)
  then have ok: "smap_ok (sv_store sv)" by (simp add: server_inv_def)
  show thesis
  proof (rule telemetrySubscribe_ok [OF inv len, where garbage = g and act = act])
    assume "sr_path_list request = [] \<or> (\<forall>j. 0 < unat j \<and> unat j < 64 \<longrightarrow> j \<in> dom (smap_find (sv_store sv)))"
    then show thesis using paths free by blast
  next
    fix s acc sv1
    assume c: "telemetrySubscribe env g act request sv = Inr (Some s, sv1)" and o: "opened env act s sv sv1"
      and m: "sv_metadata sv1 = sv_metadata sv @ [\<lparr>rep_subscription_id = ss_id s, rep_path_list = acc\<rparr>]"
    have r1: "reachable env (sv1, ts(k \<mapsto> (MetaSent, s)))"
      by (rule reachable.step [OF r agent_step.subscribe [of ts k, OF k len c]])
    then obtain sv2 where e: "session_enable env s sv1 = Inr sv2"
      using thread_progress [OF reachable_inv [OF r1], of k MetaSent s] by auto
    have r2: "reachable env (sv2, ts(k \<mapsto> (MetaSent, s), k \<mapsto> (Enabled, s)))"
      by (rule reachable.step [OF r1 agent_step.enable]) (use e in simp_all)
    then obtain sv3 where v: "session_activate s sv2 = Inr sv3"
      using thread_progress [OF reachable_inv [OF r2], of k Enabled s] by auto
    have "reachable env (sv3, ts(k \<mapsto> (MetaSent, s), k \<mapsto> (Enabled, s), k \<mapsto> (Streaming, s)))"
      by (rule reachable.step [OF r2 agent_step.activate]) (use v in simp_all)
    moreover have "sv_store sv3 = sv_store sv1"
      using e v by (auto simp: session_enable_def session_activate_def put_sub_def deref_sub_def Let_def
          split: if_splits prod.splits)
    moreover have "smap_find (sv_store sv1) = (smap_find (sv_store sv))(ss_id s \<mapsto> ss_sub s)"
        "smap_find (sv_store sv) (ss_id s) = None"
      using o smap_find_put [OF ok] by (auto simp: opened_def)
    ultimately show thesis by (intro that [OF c m, of sv3]) simp_all
  qed
qed

text \<open>A streaming subscription can be cancelled: no other thread has its id.\<close>

lemma streaming_cancellable:
  assumes "agent_inv env sv ts" and "ts k = Some (Streaming, s)" and "registered sv s"
  shows "cancellable sv ts (ss_id s)"
  unfolding cancellable_def
proof (intro allI impI)
  fix l ph t assume t: "ts l = Some (ph, t) \<and> registered sv t \<and> ss_id t = ss_id s"
  then have "ss_sub t = ss_sub s" using assms(3) unfolding registered_def by (metis option.inject)
  then have "l = k" using assms(1,2) t unfolding agent_inv_def threads_inv_def by metis
  then show "ph = Streaming \<or> ph = Leaving" using assms(2) t by simp
qed

lemma subscription_life:
  assumes r: "reachable env (sv, ts)" and k: "ts k = None"
    and reg: "registry_ok c" and new: "client_find n c = None"
    and paths: "paths \<noteq> []" "length paths < 2 ^ 31"
    and free: "\<exists>i. 0 < unat i \<and> unat i < 64 \<and> i \<notin> dom (smap_find (sv_store sv))"
  shows "\<exists>p c1 s sv1 cs c2 sv2 c3 sv3.
    handle_subscribe (w # n # f # paths) c = Inr (Session p, c1) \<and>
    telemetrySubscribe env g act (pe_request p) sv = Inr (Some s, sv1) \<and>
    client_metadata sp (pe_client p) (pe_telegraf p) (Some (last (sv_metadata sv1))) c1 = Inr (Some cs, c2) \<and>
    ac_subscription_id (cl_heap c2 (pe_client p)) = ss_id s \<and> ac_active (cl_heap c2 (pe_client p)) \<and>
    reachable env (sv2, ts(k \<mapsto> (Streaming, s))) \<and> registered sv2 s \<and>
    handle_unsubscribe (agent_rpc env) [w', n] (c2, sv2) = Inr (c3, sv3) \<and>
    \<not> ac_active (cl_heap c3 (pe_client p)) \<and> reachable env (sv3, ts(k \<mapsto> (Streaming, s))) \<and>
    smap_find (sv_store sv3) = smap_find (sv_store sv)"
proof (rule subscribe_client [OF reg new, where w = w and f = f and paths = paths])
  fix p c1
  assume p: "handle_subscribe (w # n # f # paths) c = Inr (Session p, c1)" "opens c p c1"
    "sr_path_list (pe_request p) = map (\<lambda>q. path_cleared\<lparr>p_path := q, p_sample_frequency := atoi f\<rparr>) paths"
    "client_find n c1 = Some (pe_client p)" "ac_active (cl_heap c1 (pe_client p))"
  have reg1: "registry_ok c1" by (rule opens_registry [OF reg p(2)])
  have live: "deref_client (pe_client p) c1 = Inr (cl_heap c1 (pe_client p))" by (rule find_live [OF reg1 p(4)])
  have "n \<noteq> AGENTCLIENT_MGMT" using reg new by (auto simp: registry_ok_def client_find_def)
  have len: "length (sr_path_list (pe_request p)) < 2 ^ 31" "sr_path_list (pe_request p) \<noteq> []"
    using paths by (simp_all add: p(3))
  show ?thesis
  proof (rule subscribe_server [OF r k len free, where g = g and act = act])
    fix s acc sv1 sv2
    assume s: "telemetrySubscribe env g act (pe_request p) sv = Inr (Some s, sv1)"
      "sv_metadata sv1 = sv_metadata sv @ [\<lparr>rep_subscription_id = ss_id s, rep_path_list = acc\<rparr>]"
      "reachable env (sv2, ts(k \<mapsto> (Streaming, s)))"
      "smap_find (sv_store sv2) = (smap_find (sv_store sv))(ss_id s \<mapsto> ss_sub s)"
      "smap_find (sv_store sv) (ss_id s) = None"
    have regd: "registered sv2 s" using s(4) by (simp add: registered_def)
    obtain cs c2 where m: "client_metadata sp (pe_client p) (pe_telegraf p) (Some (last (sv_metadata sv1))) c1 =
        Inr (Some cs, c2)"
      "cl_clients c2 = cl_clients c1" "cl_live c2 = cl_live c1"
      "cl_heap c2 (pe_client p) = (cl_heap c1 (pe_client p))\<lparr>ac_subscription_id_valid := True,
         ac_subscription_id := ss_id s\<rparr>"
      using live by (auto simp: client_metadata_def s(2) Let_def update_client_def say_def)
    have a2: "client_find n c2 = Some (pe_client p)" "deref_client (pe_client p) c2 = Inr (cl_heap c2 (pe_client p))"
      using p(4) live m(2,3) by (simp_all add: client_find_def deref_client_def split: if_splits)
    have can: "cancellable sv2 (ts(k \<mapsto> (Streaming, s))) (ss_id s)"
      by (rule streaming_cancellable [OF reachable_inv [OF s(3)] _ regd, of k]) simp
    obtain c3 rep sv3 where u: "handle_unsubscribe (agent_rpc env) [w', n] (c2, sv2) = Inr (c3, sv3)"
      "cancelTelemetrySubscription env (ss_id s) sv2 = Inr (rep, sv3)"
      "smap_find (sv_store sv3) = (smap_find (sv_store sv2))(ss_id s := None)"
      "\<not> ac_active (cl_heap c3 (pe_client p))"
      using unsubscribe_both [OF reachable_inv [OF s(3)] can a2 \<open>n \<noteq> AGENTCLIENT_MGMT\<close>, of w'] m(4) s(4) by auto
    have "reachable env (sv3, ts(k \<mapsto> (Streaming, s)))"
      by (rule reachable.step [OF s(3) agent_step.cancel [OF can u(2)]])
    moreover have "smap_find (sv_store sv3) = smap_find (sv_store sv)" using u(3) s(4,5) by auto
    moreover have "ac_subscription_id (cl_heap c2 (pe_client p)) = ss_id s" "ac_active (cl_heap c2 (pe_client p))"
      using m(4) p(5) by simp_all
    ultimately show ?thesis using p(1) s(1,3) m(1) u(1,4) regd by blast
  qed
qed

end
