(* ===== verification/OCConfig.thy ===== *)
theory OCConfig
  imports JunosConfig
begin

text \<open>
  The OpenConfig form of a request's configuration (OCTelemetryJson.hpp, OCTelemetryJson.cpp,
  OCTelemetryJsonGenerator.cpp): sensor group, destination group and subscription templates and
  their edits. The generator uses the sensor group and a subscription.
\<close>

section \<open>Templates\<close>

definition sensor_groups :: string where
  "sensor_groups = unlines
     [[],
      ''{'',
      ''    \"sensor-groups\" : {'',
      ''        \"sensor-group\" : {'',
      ''            \"config\" : {'',
      ''                \"sensor-group-id\": \"__SENSOR_GROUP_NAME__\"'',
      ''            }'',
      ''        },'',
      ''        \"sensor-paths\":'',
      ''        ['',
      ''            {'',
      ''                \"sensor-path\": {'',
      ''                    \"config\" : {'',
      ''                        \"path\" : \"__PATH_path__\",'',
      ''                        \"exclude-filter\" : \"__PATH_filter__\"'',
      ''                    }'',
      ''                }'',
      ''            }'',
      ''        ]'',
      ''    }'',
      ''}'']"

definition destination_groups :: string where
  "destination_groups = unlines
     [[],
      ''{'',
      ''    \"destination-groups\" : {'',
      ''        \"destination-group\" : {'',
      ''            \"config\" : {'',
      ''                \"group-id\" : \"__DESTINATION_GROUP_NAME__\"'',
      ''            },'',
      ''            \"destinations\" : {'',
      ''                \"destination\" : {'',
      ''                    \"config\" : {'',
      ''                        \"destination-address\" : \"__GRPC_UDP_IP__\",'',
      ''                        \"destination-port\" : \"__GRPC_UDP_PORT__\",'',
      ''                        \"destination-protocol\" : \"UDP\"'',
      ''                    }'',
      ''                }'',
      ''            }'',
      ''        }'',
      ''    }'',
      ''}'']"

definition subscriptions_mqtt :: string where
  "subscriptions_mqtt = unlines
     [[],
      ''{'',
      ''    \"subscriptions\" : {'',
      ''        \"persistent\" : {'',
      ''            \"subscription\" : {'',
      ''                \"config\" : {'',
      ''                    \"subscription-id\" : \"__INTERNAL_SUBSCRIPTION_ID__\"'',
      ''                },'',
      ''                \"sensor-profiles\" : {'',
      ''                    \"sensor-profile\" : {'',
      ''                        \"config\" : {'',
      ''                            \"sensor-group\" : \"__SENSOR_GROUP_NAME__\",'',
      ''                            \"sample-interval\" : \"__PATH_sample_frequency__\"'',
      ''                        }'',
      ''                    }'',
      ''                }'',
      ''            }'',
      ''        }'',
      ''    }'',
      ''}'']"

definition subscriptions_udp :: string where
  "subscriptions_udp = unlines
     [[],
      ''{'',
      ''    \"subscriptions\" : {'',
      ''        \"persistent\" : {'',
      ''            \"subscription\" : {'',
      ''                \"config\" : {'',
      ''                    \"subscription-id\" : \"__INTERNAL_SUBSCRIPTION_ID__\"'',
      ''                },'',
      ''                \"sensor-profiles\" : {'',
      ''                    \"sensor-profile\" : {'',
      ''                        \"config\" : {'',
      ''                            \"sensor-group\" : \"__SENSOR_GROUP_NAME__\",'',
      ''                            \"sample-interval\" : \"__PATH_sample_frequency__\"'',
      ''                        }'',
      ''                    }'',
      ''                },'',
      ''                \"destination-groups\" : {'',
      ''                    \"destination-group\" : {'',
      ''                        \"config\" : {'',
      ''                            \"group-id\" : \"__DESTINATION_GROUP_NAME__\"'',
      ''                        }'',
      ''                    }'',
      ''                }'',
      ''            }'',
      ''        }'',
      ''    }'',
      ''}'']"

definition subscriptions_original_OC :: string where
  "subscriptions_original_OC = unlines
     [[],
      ''{'',
      ''    \"subscriptions\" : {'',
      ''        \"persistent\" : {'',
      ''            \"subscription\" : {'',
      ''                \"config\" : {'',
      ''                    \"subscription-id\" : \"__INTERNAL_SUBSCRIPTION_ID__\",'',
      ''                    \"local-source-address\" : \"__NOT_NEEDED__\",'',
      ''                    \"originated-qos-marking\" : \"__NOT_NEEDED__\"'',
      ''                },'',
      ''                \"sensor-profiles\" : {'',
      ''                    \"sensor-profile\" : {'',
      ''                        \"config\" : {'',
      ''                            \"sensor-group\" : \"__SENSOR_GROUP_NAME__\",'',
      ''                            \"sample-interval\" : \"__PATH_sample_frequency__\"'',
      ''                        }'',
      ''                    }'',
      ''                },'',
      ''                \"destination-groups\" : {'',
      ''                    \"destination-group\" : {'',
      ''                        \"config\" : {'',
      ''                            \"group-id\" : \"__DESTINATION_GROUP_NAME__\"'',
      ''                        }'',
      ''                    }'',
      ''                }'',
      ''            }'',
      ''        }'',
      ''    }'',
      ''}'']"

definition sensor_groups_json :: json where
  "sensor_groups_json =
     JObj [(''sensor-groups'', JObj [(''sensor-group'', JObj [(''config'',
     JObj [(''sensor-group-id'', JStr ''__SENSOR_GROUP_NAME__'')])]), (''sensor-paths'',
     JArr [JObj [(''sensor-path'', JObj [(''config'', JObj [(''exclude-filter'',
     JStr ''__PATH_filter__''), (''path'', JStr ''__PATH_path__'')])])]])])]"

definition destination_groups_json :: json where
  "destination_groups_json =
     JObj [(''destination-groups'', JObj [(''destination-group'', JObj [(''config'',
     JObj [(''group-id'', JStr ''__DESTINATION_GROUP_NAME__'')]), (''destinations'',
     JObj [(''destination'', JObj [(''config'', JObj [(''destination-address'',
     JStr ''__GRPC_UDP_IP__''), (''destination-port'', JStr ''__GRPC_UDP_PORT__''),
     (''destination-protocol'', JStr ''UDP'')])])])])])]"

definition subscriptions_mqtt_json :: json where
  "subscriptions_mqtt_json =
     JObj [(''subscriptions'', JObj [(''persistent'', JObj [(''subscription'', JObj [(''config'',
     JObj [(''subscription-id'', JStr ''__INTERNAL_SUBSCRIPTION_ID__'')]), (''sensor-profiles'',
     JObj [(''sensor-profile'', JObj [(''config'', JObj [(''sample-interval'',
     JStr ''__PATH_sample_frequency__''), (''sensor-group'',
     JStr ''__SENSOR_GROUP_NAME__'')])])])])])])]"

definition subscriptions_udp_json :: json where
  "subscriptions_udp_json =
     JObj [(''subscriptions'', JObj [(''persistent'', JObj [(''subscription'', JObj [(''config'',
     JObj [(''subscription-id'', JStr ''__INTERNAL_SUBSCRIPTION_ID__'')]),
     (''destination-groups'', JObj [(''destination-group'', JObj [(''config'',
     JObj [(''group-id'', JStr ''__DESTINATION_GROUP_NAME__'')])])]), (''sensor-profiles'',
     JObj [(''sensor-profile'', JObj [(''config'', JObj [(''sample-interval'',
     JStr ''__PATH_sample_frequency__''), (''sensor-group'',
     JStr ''__SENSOR_GROUP_NAME__'')])])])])])])]"

definition subscriptions_original_OC_json :: json where
  "subscriptions_original_OC_json =
     JObj [(''subscriptions'', JObj [(''persistent'', JObj [(''subscription'', JObj [(''config'',
     JObj [(''local-source-address'', JStr ''__NOT_NEEDED__''), (''originated-qos-marking'',
     JStr ''__NOT_NEEDED__''), (''subscription-id'', JStr ''__INTERNAL_SUBSCRIPTION_ID__'')]),
     (''destination-groups'', JObj [(''destination-group'', JObj [(''config'',
     JObj [(''group-id'', JStr ''__DESTINATION_GROUP_NAME__'')])])]), (''sensor-profiles'',
     JObj [(''sensor-profile'', JObj [(''config'', JObj [(''sample-interval'',
     JStr ''__PATH_sample_frequency__''), (''sensor-group'',
     JStr ''__SENSOR_GROUP_NAME__'')])])])])])])]"

definition oc_templates_parse :: "json_lib \<Rightarrow> bool" where
  "oc_templates_parse jl \<longleftrightarrow>
     js_parse jl sensor_groups = Some sensor_groups_json \<and>
     js_parse jl subscriptions_mqtt = Some subscriptions_mqtt_json \<and>
     js_parse jl subscriptions_udp = Some subscriptions_udp_json"

section \<open>Editing a template\<close>

definition set_json_sensor_group :: "string \<Rightarrow> string \<Rightarrow> string \<Rightarrow> json \<Rightarrow> json res" where
  "set_json_sensor_group sensor_group_name path filt j =
     res_bind (json_set [Key ''sensor-groups'', Key ''sensor-group'', Key ''config'',
        Key ''sensor-group-id''] (JStr sensor_group_name) j) (\<lambda>j.
     res_bind (json_set [Key ''sensor-groups'', Key ''sensor-paths'', Idx 0, Key ''sensor-path'',
        Key ''config'', Key ''path''] (JStr path) j) (\<lambda>j.
     if filt \<noteq> [] then
       json_set [Key ''sensor-groups'', Key ''sensor-paths'', Idx 0, Key ''sensor-path'',
         Key ''config'', Key ''exclude-filter''] (JStr filt) j
     else
       json_at [Key ''sensor-groups'', Key ''sensor-paths'', Idx 0, Key ''sensor-path'',
         Key ''config''] (removeMember ''exclude-filter'') j))"

definition set_json_destination_group :: "string \<Rightarrow> string \<Rightarrow> u32 \<Rightarrow> json \<Rightarrow> json res" where
  "set_json_destination_group dest_group_name grpc_udp_ip grpc_udp_port j =
     res_bind (json_set [Key ''destination-groups'', Key ''destination-group'', Key ''config'',
        Key ''group-id''] (JStr dest_group_name) j) (\<lambda>j.
     res_bind (json_set [Key ''destination-groups'', Key ''destination-group'', Key ''destinations'',
        Key ''destination'', Key ''config'', Key ''destination-address''] (JStr grpc_udp_ip) j) (\<lambda>j.
     json_set [Key ''destination-groups'', Key ''destination-group'', Key ''destinations'',
        Key ''destination'', Key ''config'', Key ''destination-port''] (JNum (uint grpc_udp_port)) j))"

definition set_json_subscription :: "bool \<Rightarrow> u32 \<Rightarrow> string \<Rightarrow> u32 \<Rightarrow> string \<Rightarrow> json \<Rightarrow> json res" where
  "set_json_subscription mqtt internal_subscription_id sensor_group_name sample_frequency
      destination_group_name j =
     res_bind (json_set [Key ''subscriptions'', Key ''persistent'', Key ''subscription'',
        Key ''config'', Key ''subscription-id''] (JStr (string_of_u32 internal_subscription_id)) j) (\<lambda>j.
     res_bind (json_set [Key ''subscriptions'', Key ''persistent'', Key ''subscription'',
        Key ''sensor-profiles'', Key ''sensor-profile'', Key ''config'', Key ''sensor-group'']
        (JStr sensor_group_name) j) (\<lambda>j.
     res_bind (json_set [Key ''subscriptions'', Key ''persistent'', Key ''subscription'',
        Key ''sensor-profiles'', Key ''sensor-profile'', Key ''config'', Key ''sample-interval'']
        (JStr (string_of_u32 sample_frequency)) j) (\<lambda>j.
     if \<not> mqtt then
       json_set [Key ''subscriptions'', Key ''persistent'', Key ''subscription'',
         Key ''destination-groups'', Key ''destination-group'', Key ''config'', Key ''group-id'']
         (JStr destination_group_name) j
     else Inr j)))"

section \<open>The generator\<close>

definition oc_config_tree :: "json_lib \<Rightarrow> bool \<Rightarrow> u32 \<Rightarrow> path_msg \<Rightarrow> json option res" where
  "oc_config_tree jl mqtt internal_subscription_id path =
     (case parse_string_to_json_obj jl sensor_groups of
        None \<Rightarrow> Inr None
      | Some gj \<Rightarrow>
          (let sensor_group_name = ''Sensor_'' @ string_of_u32 internal_subscription_id
           in res_bind (set_json_sensor_group sensor_group_name (p_path path) (p_filter path) gj) (\<lambda>gj.
              case parse_string_to_json_obj jl (if mqtt then subscriptions_mqtt else subscriptions_udp) of
                None \<Rightarrow> Inr None
              | Some sj \<Rightarrow>
                  res_bind (set_json_subscription mqtt internal_subscription_id sensor_group_name
                     (p_sample_frequency path) ''GRPC_UDP_COLLECTOR'' sj) (\<lambda>sj.
                  res_bind (merge_json_objects JNull gj) (\<lambda>final.
                  res_bind (merge_json_objects final JNull) (\<lambda>final.
                  res_bind (merge_json_objects final sj) (\<lambda>final.
                  Inr (Some final))))))))"

definition generate_json_oc_config :: "json_lib \<Rightarrow> bool \<Rightarrow> u32 \<Rightarrow> path_msg \<Rightarrow> string res" where
  "generate_json_oc_config jl mqtt internal_subscription_id path =
     res_bind (oc_config_tree jl mqtt internal_subscription_id path) (\<lambda>t.
       case t of None \<Rightarrow> Inr [] | Some final \<Rightarrow> Inr (write_json_obj_to_string jl final))"

section \<open>What is generated\<close>

definition oc_reference :: "bool \<Rightarrow> u32 \<Rightarrow> path_msg \<Rightarrow> json" where
  "oc_reference mqtt i path = JObj
     [(''sensor-groups'', JObj
        [(''sensor-group'', JObj [(''config'', JObj
            [(''sensor-group-id'', JStr (''Sensor_'' @ string_of_u32 i))])]),
         (''sensor-paths'', JArr [JObj [(''sensor-path'', JObj [(''config'', JObj
            ((if p_filter path = [] then [] else [(''exclude-filter'', JStr (p_filter path))]) @
             [(''path'', JStr (p_path path))]))])]])]),
      (''subscriptions'', JObj [(''persistent'', JObj [(''subscription'', JObj
        ([(''config'', JObj [(''subscription-id'', JStr (string_of_u32 i))])] @
         (if mqtt then [] else [(''destination-groups'', JObj [(''destination-group'', JObj
            [(''config'', JObj [(''group-id'', JStr ''GRPC_UDP_COLLECTOR'')])])])]) @
         [(''sensor-profiles'', JObj [(''sensor-profile'', JObj [(''config'', JObj
            [(''sample-interval'', JStr (string_of_u32 (p_sample_frequency path))),
             (''sensor-group'', JStr (''Sensor_'' @ string_of_u32 i))])])])]))])])]"

lemma oc_config_tree_reference:
  assumes "oc_templates_parse jl"
  shows "oc_config_tree jl mqtt i path = Inr (Some (oc_reference mqtt i path))"
proof -
  have parse: "parse_string_to_json_obj jl sensor_groups = Some sensor_groups_json"
    "parse_string_to_json_obj jl subscriptions_mqtt = Some subscriptions_mqtt_json"
    "parse_string_to_json_obj jl subscriptions_udp = Some subscriptions_udp_json"
    using assms by (simp_all add: oc_templates_parse_def parse_string_to_json_obj_def)
  show ?thesis
    by (cases mqtt; cases "p_filter path = []")
      (simp_all add: oc_config_tree_def parse oc_reference_def set_json_sensor_group_def
        set_json_subscription_def sensor_groups_json_def subscriptions_mqtt_json_def
        subscriptions_udp_json_def json_set_def removeMember_def smap_find_def smap_erase_def
        less_char_def Let_def)
qed

end
