(* ===== verification/Examples.thy ===== *)
theory Examples
  imports PathValidator OCConfig SystemBackends
begin

text \<open>
  Concrete instances of the program's parameters, for the statements that are about a run: a
  JSON library that knows the templates and one path table.
\<close>

definition example_info :: path_information where
  "example_info = \<lparr>pi_path = ''/interfaces/'', filter_support = False, suppress_unchanged_support = False,
     max_silent_interval_support = False, sample_frequency_min = 2000, sample_frequency_max = 10000\<rparr>"

definition example_validator :: "(string, path_information option) smap \<Rightarrow> path_validator" where
  "example_validator db = \<lparr>pv_logger = new_log ''l'', pv_db = db\<rparr>"

definition example_path :: path_msg where
  "example_path = path_cleared\<lparr>p_path := ''/interfaces/'', p_sample_frequency := 2000\<rparr>"

definition example_stored :: json where
  "example_stored = JObj [(''configuration'', JObj [(''services'', JObj [(''analytics'', JObj [(''sensor'',
     JArr [JObj [(''reporting-rate'', JStr ''2''), (''resource'', JStr ''/interfaces/'')]])])])])]"

definition example_proc :: "mgd_state proc_backend agent_system" where
  "example_proc = new_agent_system (new_log ''l'') (new_proc_backend (new_mgd (new_log ''l'')))"

definition example_json_lib :: json_lib where
  "example_json_lib = \<lparr>
     js_parse = (\<lambda>s.
       if s = export_profile then Some export_profile_json
       else if s = streaming_server then Some streaming_server_json
       else if s = sensor_config then Some sensor_config_json
       else if s = clear_all_config then Some clear_all_config_json
       else if s = sensor_groups then Some sensor_groups_json
       else if s = subscriptions_mqtt then Some subscriptions_mqtt_json
       else if s = subscriptions_udp then Some subscriptions_udp_json
       else if s = ''table'' then Some (JObj [(''valid_paths'', JArr [information_json example_info])])
       else if s = ''stored'' then Some example_stored
       else None),
     js_styled = (\<lambda>_. []), js_fast = (\<lambda>_. ''stored''),
     js_asString = (\<lambda>j. case j of JStr s \<Rightarrow> Inr s | _ \<Rightarrow> Inl JsonTypeError),
     js_asBool = (\<lambda>j. case j of JBool b \<Rightarrow> Inr b | _ \<Rightarrow> Inl JsonTypeError),
     js_asInt = (\<lambda>j. case j of JNum n \<Rightarrow> Inr (of_int n) | _ \<Rightarrow> Inl JsonTypeError)\<rparr>"

lemma example_json_lib_ok: "json_lib_ok example_json_lib"
  by (simp add: json_lib_ok_def example_json_lib_def)

lemma unlines_Cons_eq: "unlines (l # ls) = unlines (l # ms) \<longleftrightarrow> unlines ls = unlines ms"
  by (simp add: unlines_def)

lemma unlines_Cons_neq:
  assumes "l \<noteq> m" "CHR 0x0A \<notin> set l" "CHR 0x0A \<notin> set m"
  shows "unlines (l # ls) \<noteq> unlines (m # ms)"
proof
  assume "unlines (l # ls) = unlines (m # ms)"
  then have "l @ CHR 0x0A # unlines ls = m @ CHR 0x0A # unlines ms" by (simp add: unlines_def)
  moreover have "takeWhile (\<lambda>c. c \<noteq> CHR 0x0A) (s @ CHR 0x0A # r) = s"
    if "CHR 0x0A \<notin> set s" for s r :: string
    using that by (induction s) auto
  ultimately have "l = m" using assms(2,3) by metis
  then show False using assms(1) by simp
qed

lemmas template_defs = export_profile_def streaming_server_def sensor_config_def clear_all_config_def
  sensor_groups_def subscriptions_mqtt_def subscriptions_udp_def

lemma templates_distinct:
  "distinct [export_profile, streaming_server, sensor_config, clear_all_config, sensor_groups,
     subscriptions_mqtt, subscriptions_udp]"
  unfolding template_defs distinct.simps list.set insert_iff empty_iff de_Morgan_disj
  by (intro conjI) (simp_all add: unlines_Cons_eq unlines_Cons_neq)

lemma example_templates_parse: "templates_parse example_json_lib"
  using templates_distinct by (simp add: templates_parse_def example_json_lib_def eq_commute)

lemma example_oc_templates_parse: "oc_templates_parse example_json_lib"
  using templates_distinct by (simp add: oc_templates_parse_def example_json_lib_def eq_commute)

lemma texts_not_templates:
  "''table'' \<notin> set [export_profile, streaming_server, sensor_config, clear_all_config, sensor_groups,
     subscriptions_mqtt, subscriptions_udp]"
  "''stored'' \<notin> set [export_profile, streaming_server, sensor_config, clear_all_config, sensor_groups,
     subscriptions_mqtt, subscriptions_udp]"
  by (simp_all add: template_defs unlines_def)

lemma example_table_parse:
  "js_parse example_json_lib ''table'' = Some (JObj [(''valid_paths'', JArr (map information_json [example_info]))])"
  using texts_not_templates(1) by (simp add: example_json_lib_def)

lemma example_stored_parse: "js_parse example_json_lib ''stored'' = Some example_stored"
  using texts_not_templates(2) by (simp add: example_json_lib_def)

lemma example_fast: "js_fast example_json_lib j = ''stored''"
  by (simp add: example_json_lib_def)

lemma digit_char_2: "digit_char 2 = CHR ''2''"
  by code_simp

lemma example_stored_get:
  "json_get (sensor_step ''resource'') example_stored = Inr (JStr (p_path example_path))"
  "json_get (sensor_step ''reporting-rate'') example_stored =
     Inr (JStr (string_of_u32 (p_sample_frequency example_path div 1000)))"
  by (simp_all add: sensor_step_def example_stored_def smap_find_def example_path_def string_of_u32_def
      string_of_nat.simps digit_char_2)

end
