(* ===== verification/IniReal.thy ===== *)
theory IniReal
  imports IniReader Messages "HOL-Library.Log_Nat"
begin

text \<open>
  Reading a real number from the configuration (\<open>INIReader::GetReal\<close> in
  lib-inih/INIReader.cpp): the number the C function \<open>strtod\<close> finds at the front of a string,
  its value as a double, rounded to nearest with ties to even, and the read with its default. A
  double is its bit pattern, as in the messages.
\<close>

section \<open>The number in a text\<close>

text \<open>The value of the text before rounding: mantissa times 10 or 2 to the exponent.\<close>

datatype real_text =
    NoNumber
  | Infinite
  | NotANumber
  | Decimal nat int
  | Hexadecimal nat int

text \<open>A match of a word, whatever its case.\<close>

definition word_at :: "string \<Rightarrow> string \<Rightarrow> bool" where
  "word_at w s \<longleftrightarrow> lower_string (take (length w) s) = w"

text \<open>
  Digits with at most one point among them: the mantissa, the digits after the point, the
  characters read, and whether there was a digit.
\<close>

definition read_mantissa :: "nat \<Rightarrow> string \<Rightarrow> nat \<times> nat \<times> nat \<times> bool" where
  "read_mantissa b s =
     (let (whole, n) = read_digits b 0 s
      in case drop n s of
           c # rest \<Rightarrow>
             if c = CHR ''.'' then
               (let (v, k) = read_digits b whole rest in (v, k, n + 1 + k, 0 < n + k))
             else (whole, 0, n, 0 < n)
         | [] \<Rightarrow> (whole, 0, n, 0 < n))"

text \<open>The exponent after its letter; without a digit there is none, and nothing is read.\<close>

definition read_exponent :: "char \<Rightarrow> string \<Rightarrow> int \<times> nat" where
  "read_exponent letter s =
     (case s of
        [] \<Rightarrow> (0, 0)
      | c # rest \<Rightarrow>
          if to_lower c = letter then
            (let neg = (case rest of d # _ \<Rightarrow> d = CHR ''-'' | [] \<Rightarrow> False);
                 sgn = (case rest of d # _ \<Rightarrow> if d = CHR ''-'' \<or> d = CHR ''+'' then 1 else 0 | [] \<Rightarrow> (0::nat));
                 (v, n) = read_digits 10 0 (drop sgn rest)
             in if n = 0 then (0, 0) else (if neg then - int v else int v, 1 + sgn + n))
          else (0, 0))"

text \<open>The characters a \<open>nan\<close> may have in parentheses.\<close>

definition nan_char :: "char \<Rightarrow> bool" where
  "nan_char c \<longleftrightarrow> digit_of_base 36 c \<noteq> None \<or> c = CHR ''_''"

definition nan_length :: "string \<Rightarrow> nat" where
  "nan_length s =
     (case drop 3 s of
        c # rest \<Rightarrow>
          let k = length (takeWhile nan_char rest)
          in if c = CHR ''('' \<and> take 1 (drop k rest) = '')'' then 3 + k + 2 else 3
      | [] \<Rightarrow> 3)"

text \<open>The number after white space and sign, and the characters it takes.\<close>

definition read_decimal :: "string \<Rightarrow> real_text \<times> nat" where
  "read_decimal s =
     (let (m, k, n, some) = read_mantissa 10 s; (e, ne) = read_exponent CHR ''e'' (drop n s)
      in if some then (Decimal m (e - int k), n + ne) else (NoNumber, 0))"

definition read_hexadecimal :: "string \<Rightarrow> real_text \<times> nat" where
  "read_hexadecimal s =
     (let (m, k, n, some) = read_mantissa 16 (drop 2 s); (e, ne) = read_exponent CHR ''p'' (drop (2 + n) s)
      in if some then (Hexadecimal m (e - 4 * int k), 2 + n + ne) else (Decimal 0 0, 1))"

definition read_real :: "string \<Rightarrow> real_text \<times> nat" where
  "read_real s =
     (if word_at ''infinity'' s then (Infinite, 8)
      else if word_at ''inf'' s then (Infinite, 3)
      else if word_at ''nan'' s then (NotANumber, nan_length s)
      else if word_at ''0x'' s then read_hexadecimal s
      else read_decimal s)"

section \<open>Rounding to a double\<close>

text \<open>The quotient rounded to nearest, ties to even.\<close>

definition round_half_even :: "nat \<Rightarrow> nat \<Rightarrow> nat" where
  "round_half_even a b =
     (let q = a div b; r = a mod b
      in if 2 * r < b \<or> (2 * r = b \<and> even q) then q else q + 1)"

text \<open>
  The exponent of the last of the 53 bits of \<open>a / b\<close>, at least that of the subnormal numbers;
  and the quotient scaled by it.
\<close>

definition ulp_exponent :: "nat \<Rightarrow> nat \<Rightarrow> int" where
  "ulp_exponent a b =
     (let e = int (floorlog 2 a) - int (floorlog 2 b) - 53;
          e = (if a * 2 ^ nat (- (e + 53)) < b * 2 ^ nat (e + 53) then e else e + 1)
      in max e (- 1074))"

definition double_positive :: "nat \<Rightarrow> nat \<Rightarrow> nat" where
  "double_positive a b =
     (if a = 0 then 0
      else let e = ulp_exponent a b;
               q = round_half_even (a * 2 ^ nat (- e)) (b * 2 ^ nat e)
           in min (nat (e + 1074) * 2 ^ 52 + q) (2047 * 2 ^ 52))"

definition scaled :: "nat \<Rightarrow> nat \<Rightarrow> int \<Rightarrow> nat" where
  "scaled b m e = double_positive (m * b ^ nat e) (b ^ nat (- e))"

text \<open>
  The bits of a read number: the sign, the exponent with its bias and the mantissa. Which of the
  patterns stands for \<open>nan\<close> is up to the implementation; it is the quiet one.
\<close>

definition real_bits :: "bool \<Rightarrow> real_text \<Rightarrow> double_bits" where
  "real_bits neg t =
     (if neg then 2 ^ 63 else 0) +
     (case t of
        NoNumber \<Rightarrow> 0
      | Infinite \<Rightarrow> of_nat (2047 * 2 ^ 52)
      | NotANumber \<Rightarrow> of_nat (2047 * 2 ^ 52 + 2 ^ 51)
      | Decimal m e \<Rightarrow> of_nat (scaled 10 m e)
      | Hexadecimal m e \<Rightarrow> of_nat (scaled 2 m e))"

section \<open>Reading a real number\<close>

text \<open>\<open>strtod\<close>: the value and the number of characters read, 0 when there is no number.\<close>

definition strtod :: "string \<Rightarrow> double_bits \<times> nat" where
  "strtod s =
     (let ws = length (takeWhile is_space s);
          s1 = drop ws s;
          neg = (case s1 of c # _ \<Rightarrow> c = CHR ''-'' | [] \<Rightarrow> False);
          sgn = (case s1 of c # _ \<Rightarrow> if c = CHR ''-'' \<or> c = CHR ''+'' then 1 else 0 | [] \<Rightarrow> (0::nat));
          (t, n) = read_real (drop sgn s1)
      in if n = 0 then (0, 0) else (real_bits neg t, ws + sgn + n))"

definition GetReal :: "ini_reader \<Rightarrow> string \<Rightarrow> string \<Rightarrow> double_bits \<Rightarrow> double_bits" where
  "GetReal r section_name name default_value =
     (let (n, consumed) = strtod (ini_Get r section_name name [])
      in if 0 < consumed then n else default_value)"

section \<open>Properties\<close>

text \<open>The rounded quotient is a nearest one, and exact when there is no remainder.\<close>

lemma round_half_even_nearest:
  assumes "0 < b"
  shows "2 * a \<le> 2 * (b * round_half_even a b) + b \<and> 2 * (b * round_half_even a b) \<le> 2 * a + b"
proof -
  define q r where "q = a div b" and "r = a mod b"
  have a: "a = b * q + r" and r: "r < b" using assms by (simp_all add: q_def r_def)
  have "round_half_even a b = (if 2 * r < b \<or> (2 * r = b \<and> even q) then q else q + 1)"
    by (simp add: round_half_even_def Let_def q_def r_def)
  then show ?thesis using r unfolding a by (auto simp: algebra_simps)
qed

lemma round_half_even_exact [simp]: "0 < b \<Longrightarrow> round_half_even (q * b) b = q"
  by (simp add: round_half_even_def)

lemma round_half_even_1 [simp]: "round_half_even a (Suc 0) = a"
  by (simp add: round_half_even_def)

text \<open>The number a pattern that is not infinite stands for.\<close>

definition double_value :: "double_bits \<Rightarrow> real" where
  "double_value d =
     (let n = unat d mod 2 ^ 63; E = n div 2 ^ 52; f = n mod 2 ^ 52
      in (if unat d < 2 ^ 63 then 1 else - 1) * real (if E = 0 then f else 2 ^ 52 + f)
           * 2 powi (int (max E 1) - 1075))"

lemma double_value_normal:
  assumes "2 ^ 52 \<le> q" and "q < 2 ^ 53" and "E < 2000"
  shows "double_value (of_nat (E * 2 ^ 52 + q)) = real q * 2 powi (int E - 1074)"
proof -
  define f where "f = q - 2 ^ 52"
  have q: "q = 2 ^ 52 + f" and f: "f < 2 ^ 52" using assms by (auto simp: f_def)
  let ?n = "(E + 1) * 2 ^ 52 + f"
  have n: "E * 2 ^ 52 + q = ?n" by (simp add: q algebra_simps)
  have le: "?n < 2001 * 2 ^ 52" using f assms(3) by simp
  have word: "unat (of_nat k :: double_bits) = k" if "k < 2 ^ 64" for k
    using that by (simp add: unat_of_nat take_bit_eq_mod)
  have u: "unat (of_nat ?n :: double_bits) = ?n" using le by (intro word) simp
  have dm: "?n div 2 ^ 52 = E + 1" "?n mod 2 ^ 52 = f" using f by (simp_all only: mod_mult_self3 div_mult_self3 mod_less div_less add_0_right)
  have small: "?n < 2 ^ 63" using le by simp
  then have "?n mod 2 ^ 63 = ?n" by simp
  then have "double_value (of_nat ?n) = real (2 ^ 52 + f) * 2 powi (int (E + 1) - 1075)"
    unfolding double_value_def Let_def u using small dm by (simp del: of_nat_add of_nat_power)
  then show ?thesis unfolding n by (simp add: q)
qed

lemma double_positive_small:
  assumes "0 < n" and "n < 2 ^ 53"
  shows "double_value (of_nat (double_positive n 1)) = real n"
proof -
  define L where "L = floorlog 2 n"
  have b: "2 ^ (L - 1) \<le> n" "n < 2 ^ L" using floorlog_bounds [of n 2] assms(1) by (auto simp: L_def)
  have L: "1 \<le> L" using b assms(1) by (cases L) auto
  have "(2::nat) ^ (L - 1) < 2 ^ 53" using b(1) assms(2) by (rule le_less_trans)
  then have "L - 1 < 53" by (rule power_less_imp_less_exp [rotated]) simp
  then have L': "L \<le> 53" by simp
  have nz: "nat (int L - 1) = L - 1" using L by simp
  have e: "ulp_exponent n 1 = int L - 53"
  proof -
    have "floorlog 2 1 = 1" by (simp add: floorlog_def)
    then show ?thesis using b(1) L L' nz by (simp add: ulp_exponent_def L_def [symmetric] Let_def)
  qed
  define q where "q = n * 2 ^ (53 - L)"
  have q: "2 ^ 52 \<le> q" "q < 2 ^ 53"
  proof -
    have "(2::nat) ^ 52 = 2 ^ (L - 1) * 2 ^ (53 - L)" using L L' by (simp flip: power_add)
    then show "2 ^ 52 \<le> q" unfolding q_def using mult_right_mono [OF b(1), of "2 ^ (53 - L)"] by simp
    have "(2::nat) ^ 53 = 2 ^ L * 2 ^ (53 - L)" using L' by (simp flip: power_add)
    then show "q < 2 ^ 53" unfolding q_def using mult_strict_right_mono [OF b(2), of "2 ^ (53 - L)"] by simp
  qed
  have pos: "nat (- (int L - 53)) = 53 - L" "nat (int L - 53) = 0" "nat (int L - 53 + 1074) = L + 1021"
    using L' by auto
  have "double_positive n 1 = min ((L + 1021) * 2 ^ 52 + q) (2047 * 2 ^ 52)"
    unfolding double_positive_def Let_def e pos q_def using assms(1) by simp
  also have "\<dots> = (L + 1021) * 2 ^ 52 + q" using q L' by (simp add: min_def)
  finally have "double_value (of_nat (double_positive n 1)) = real q * 2 powi (int (L + 1021) - 1074)"
    using double_value_normal [OF q, of "L + 1021"] L' by simp
  also have "\<dots> = real n"
  proof -
    have "(2::real) powi (int (L + 1021) - 1074) = inverse (2 ^ (53 - L))"
      using L' by (simp add: power_int_def nat_diff_distrib power_inverse inverse_eq_divide power_one_over)
    then show ?thesis by (simp add: q_def)
  qed
  finally show ?thesis .
qed

lemma word_at_digit:
  "is_digit c \<Longrightarrow> \<not> word_at ''infinity'' (c # t)" "is_digit c \<Longrightarrow> \<not> word_at ''inf'' (c # t)"
  "is_digit c \<Longrightarrow> \<not> word_at ''nan'' (c # t)"
  by (auto simp: word_at_def lower_string_def to_lower_def is_upper_def is_digit_def)

lemma word_at_hex: "\<forall>x \<in> set s. is_digit x \<Longrightarrow> \<not> word_at ''0x'' s"
  by (cases s; cases "tl s") (auto simp: word_at_def lower_string_def to_lower_def is_upper_def is_digit_def)

text \<open>A whole number below \<open>2 ^ 53\<close> that is printed in decimal reads back as itself.\<close>

lemma strtod_string_of_nat:
  assumes "n < 2 ^ 53"
  shows "double_value (fst (strtod (string_of_nat n))) = real n \<and>
    snd (strtod (string_of_nat n)) = length (string_of_nat n)"
proof -
  let ?s = "string_of_nat n"
  have digs: "\<forall>x \<in> set ?s. is_digit x" and v: "digits_val ?s = n" and ne: "?s \<noteq> []"
    using string_of_nat_digits [of _ n] by auto
  obtain c t where ct: "?s = c # t" using ne by (cases ?s) auto
  have c: "is_digit c" using digs ct by simp
  then have c': "\<not> is_space c" "c \<noteq> CHR ''-''" "c \<noteq> CHR ''+''"
    by (auto simp: is_digit_not_space is_digit_def)
  have "read_digits 10 0 ?s = (n, length ?s)"
    using read_digits_10 [OF digs] v by (simp add: digits_val_def)
  then have "read_decimal ?s = (Decimal n 0, length ?s)"
    using ne by (simp add: read_decimal_def read_mantissa_def read_exponent_def)
  then have "read_real ?s = (Decimal n 0, length ?s)"
    using word_at_digit [OF c, of t] word_at_hex [OF digs] by (simp add: read_real_def ct)
  then have "strtod ?s = (real_bits False (Decimal n 0), length ?s)"
    using ne c' by (simp add: strtod_def ct)
  moreover have "double_value (real_bits False (Decimal n 0)) = real n"
  proof (cases "n = 0")
    case True
    then show ?thesis by (simp add: real_bits_def scaled_def double_positive_def double_value_def)
  next
    case False
    then show ?thesis using double_positive_small [OF _ assms] by (simp add: real_bits_def scaled_def)
  qed
  ultimately show ?thesis by simp
qed

lemma GetReal_printed:
  "smap_find (ini_values r) (MakeKey s n) = Some (string_of_nat v) \<Longrightarrow> v < 2 ^ 53 \<Longrightarrow>
   double_value (GetReal r s n d) = real v"
  using strtod_string_of_nat [of v] by (auto simp: GetReal_def ini_Get_def case_prod_beta)

text \<open>Text that starts with no number reads as the default.\<close>

lemma GetReal_no_number:
  assumes "smap_find (ini_values r) (MakeKey s n) = Some (c # t)" and "\<not> is_space c" and "\<not> is_digit c"
    and "c \<notin> set ''-+.''" and "to_lower c \<notin> set ''in0''"
  shows "GetReal r s n d = d"
proof -
  have c: "c \<noteq> CHR ''-''" "c \<noteq> CHR ''+''" "c \<noteq> CHR ''.''" using assms(4) by auto
  have "digit_of_base 10 c = None"
    using assms(3) by (auto simp: digit_of_base_def is_digit_def Let_def)
  then have "read_digits 10 0 (c # t) = (0, 0)" by simp
  moreover have "\<not> word_at w (c # t)" if "w \<in> {''infinity'', ''inf'', ''nan'', ''0x''}" for w
    using that assms(5) by (auto simp: word_at_def lower_string_def)
  ultimately have "snd (read_real (c # t)) = 0"
    using c by (simp add: read_real_def read_decimal_def read_mantissa_def read_exponent_def case_prod_beta)
  then show ?thesis
    using assms(1,2) c by (simp add: GetReal_def ini_Get_def strtod_def case_prod_beta)
qed

end
