(* ===== verification/OCBackends.thy ===== *)
theory OCBackends
  imports SystemBackends OCConfig
begin

text \<open>
  The backends and the simulated management daemon in their OpenConfig form, which
  \<open>__OC_Telemetry_Config__\<close> selects (AgentSystemFile.cpp, AgentSystemProc.cpp, MgdServer.cpp,
  protos/openconfig_mgd.proto). The daemon keeps one operation per request id; the backend
  reads the first response without looking whether there is one.
\<close>

section \<open>Messages\<close>

datatype oc_response_type =
  OcOk | OcNok | OcUnsupportedPath | OcInvalidPath | OcInvalidConfiguration | OcUnsupportedInterval
  | OcInvalidSubscriptionId | OcUnsupportedEncoding

fun oc_response_number :: "oc_response_type \<Rightarrow> nat" where
  "oc_response_number OcOk = 0"
| "oc_response_number OcNok = 1"
| "oc_response_number OcUnsupportedPath = 2"
| "oc_response_number OcInvalidPath = 3"
| "oc_response_number OcInvalidConfiguration = 4"
| "oc_response_number OcUnsupportedInterval = 5"
| "oc_response_number OcInvalidSubscriptionId = 6"
| "oc_response_number OcUnsupportedEncoding = 7"

text \<open>The commands have the names and numbers of the Junos ones.\<close>

record oc_operation =
  oo_operation_id :: string
  oo_operation :: config_command
  oo_path :: string
  oo_value :: string

record oc_set_request =
  ocs_request_id :: u64
  ocs_transaction :: bool
  ocs_encoding_json :: bool
  ocs_operations :: "oc_operation list"

record oc_set_reply =
  osr_operation_id :: string
  osr_response_code :: oc_response_type
  osr_message :: string

record oc_set_response =
  oss_request_id :: u64
  oss_response :: "oc_set_reply list"

datatype get_data_command = GET_ALL | GET_CONFIG | GET_OPSTATE | GET_OPER

record oc_get_item =
  ogi_operation_id :: string
  ogi_operation :: get_data_command
  ogi_path :: string

record oc_get_request =
  ocg_request_id :: u64
  ocg_encoding_json :: bool
  ocg_requests :: "oc_get_item list"

record oc_get_reply =
  ogr_operation_id :: string
  ogr_path :: string
  ogr_value :: string
  ogr_response_code :: oc_response_type
  ogr_message :: string

record oc_get_response =
  ogs_request_id :: u64
  ogs_response :: "oc_get_reply list"

section \<open>The daemon\<close>

record oc_mgd_state =
  oc_mgd_log :: server_log
  config_db :: "(u64, oc_operation option) smap"

definition new_oc_mgd :: "server_log \<Rightarrow> oc_mgd_state" where
  "new_oc_mgd l = \<lparr>oc_mgd_log = l, config_db = []\<rparr>"

definition oc_mgd_write :: "string \<Rightarrow> oc_mgd_state \<Rightarrow> oc_mgd_state" where
  "oc_mgd_write m s = s\<lparr>oc_mgd_log := log_write m False (oc_mgd_log s)\<rparr>"

definition Mgd_Set ::
    "(oc_set_request \<Rightarrow> string) \<Rightarrow> oc_set_request \<Rightarrow> oc_mgd_state \<Rightarrow>
     (grpc_status \<times> oc_set_response \<times> oc_mgd_state) res" where
  "Mgd_Set show req s =
     (let s = oc_mgd_write (show req) s;
          request_id = ocs_request_id req
      in case ocs_operations req of
           [] \<Rightarrow> Inl OutOfRange
         | cmd # _ \<Rightarrow>
             (let s = (if oo_operation cmd = UPDATE_CONFIG \<or> oo_operation cmd = REPLACE_CONFIG
                       then s\<lparr>config_db := smap_put request_id (Some cmd) (config_db s)\<rparr>
                       else s\<lparr>config_db := smap_erase request_id (config_db s)\<rparr>)
              in Inr (status_OK,
                   \<lparr>oss_request_id = request_id,
                    oss_response = [\<lparr>osr_operation_id = oo_operation_id cmd,
                                     osr_response_code = OcOk, osr_message = ''Success''\<rparr>]\<rparr>, s)))"

definition Mgd_Get ::
    "(oc_get_request \<Rightarrow> string) \<Rightarrow> oc_get_request \<Rightarrow> oc_mgd_state \<Rightarrow>
     (grpc_status \<times> oc_get_response \<times> oc_mgd_state) res" where
  "Mgd_Get show req s =
     (let s = oc_mgd_write (show req) s
      in case ocg_requests req of
           [] \<Rightarrow> Inl OutOfRange
         | item # _ \<Rightarrow>
             (let path = ogi_path item;
                  s = (if path \<noteq> ''openconfig-telemetry''
                       then oc_mgd_write ''Error in requested path not openconfig-telemetry'' s else s);
                  request_id = ocg_request_id req;
                  s = (case smap_find (config_db s) request_id of
                         None \<Rightarrow> (oc_mgd_write (''No data available for request id : '' @
                                     string_of_u64 request_id) s)
                                   \<lparr>config_db := smap_put request_id None (config_db s)\<rparr>
                       | Some _ \<Rightarrow> s)
              in case smap_find (config_db s) request_id of
                   Some (Some cmd) \<Rightarrow>
                     Inr (status_OK,
                       \<lparr>ogs_request_id = request_id,
                        ogs_response = [\<lparr>ogr_operation_id = ''0'', ogr_path = path,
                                         ogr_value = oo_value cmd, ogr_response_code = OcOk,
                                         ogr_message = ''Success''\<rparr>]\<rparr>, s)
                 | _ \<Rightarrow> Inl NullPointer))"

section \<open>The file backend\<close>

definition AgentSystemFile_oc_systemAdd ::
    "(path_msg \<Rightarrow> string) \<Rightarrow> json_lib \<Rightarrow> system_id \<Rightarrow> path_msg \<Rightarrow>
     file_backend agent_system \<Rightarrow> (bool \<times> file_backend agent_system) res" where
  "AgentSystemFile_oc_systemAdd sp jl i p s =
     (let (ignored, s) = AgentSystem_systemAdd sp i p s
      in res_bind (generate_json_oc_config jl True (of_nat i) p) (\<lambda>config.
           Inr (True, file_write [''Push config ('' @ string_of_nat i @ ''):'', config] s)))"

definition AgentSystemFile_oc_systemRemove ::
    "(path_msg \<Rightarrow> string) \<Rightarrow> json_lib \<Rightarrow> system_id \<Rightarrow> path_msg \<Rightarrow>
     file_backend agent_system \<Rightarrow> (bool \<times> file_backend agent_system) res" where
  "AgentSystemFile_oc_systemRemove sp jl i p s =
     (let (ignored, s) = AgentSystem_systemRemove sp i p s
      in res_bind (generate_json_oc_config jl True (of_nat i) p) (\<lambda>config.
           Inr (True, file_write [''Remove config ('' @ string_of_nat i @ ''):'', config] s)))"

definition AgentSystemFile_oc_systemClearAll ::
    "file_backend agent_system \<Rightarrow> bool \<times> file_backend agent_system" where
  "AgentSystemFile_oc_systemClearAll s =
     (True, file_write [''ClearAll config: '', ''Unsupported for now''] s)"

section \<open>The management daemon backend\<close>

record 'e oc_stub =
  stub_Set :: "string \<Rightarrow> oc_set_request \<Rightarrow> 'e \<Rightarrow> grpc_status \<times> oc_set_response \<times> 'e"
  stub_Get :: "string \<Rightarrow> oc_get_request \<Rightarrow> 'e \<Rightarrow> grpc_status \<times> oc_get_response \<times> 'e"

definition oc_mgd_address :: "global_config \<Rightarrow> string" where
  "oc_mgd_address gc = device_mgd_ip gc @ '':'' @ string_of_int (sint (device_mgd_port gc))"

definition sendOCMessagetoMgd ::
    "'e oc_stub \<Rightarrow> global_config \<Rightarrow> string \<Rightarrow> system_id \<Rightarrow> config_command \<Rightarrow>
     'e proc_backend agent_system \<Rightarrow> (grpc_status \<times> 'e proc_backend agent_system) res" where
  "sendOCMessagetoMgd stub gc config i cmdcode s =
     (let req = \<lparr>ocs_request_id = of_nat i, ocs_transaction = True, ocs_encoding_json = True,
                 ocs_operations = [\<lparr>oo_operation_id = ''0'', oo_operation = cmdcode,
                                    oo_path = ''openconfig-telemetry'', oo_value = config\<rparr>]\<rparr>;
          (status, reply, e) = stub_Set stub (oc_mgd_address gc) req (pb_env (as_backend s));
          s = set_env e s
      in case oss_response reply of
           [] \<Rightarrow> Inl OutOfRange
         | r # _ \<Rightarrow>
             if \<not> status_ok status \<or> osr_response_code r \<noteq> OcOk then
               Inr (status_UNKNOWN, count_error (''MGD command failed (cmd = '' @
                 string_of_nat (command_code cmdcode) @ ''). Error code: '' @
                 string_of_nat (status_code status) @ '' '' @
                 string_of_nat (oc_response_number (osr_response_code r)) @ ''Error message: '' @
                 status_message status @ osr_message r) s)
             else Inr (status, s))"

definition AgentSystemProc_oc_systemAdd ::
    "(path_msg \<Rightarrow> string) \<Rightarrow> json_lib \<Rightarrow> 'e oc_stub \<Rightarrow> global_config \<Rightarrow> system_id \<Rightarrow> path_msg \<Rightarrow>
     'e proc_backend agent_system \<Rightarrow> (bool \<times> 'e proc_backend agent_system) res" where
  "AgentSystemProc_oc_systemAdd sp jl stub gc i p s =
     res_bind (generate_json_oc_config jl True (of_nat i) p) (\<lambda>config.
     res_bind (sendOCMessagetoMgd stub gc config i UPDATE_CONFIG s) (\<lambda>(status, s).
       if status_ok status then
         let s = s\<lparr>add_system_count := add_system_count s + 1\<rparr>
         in Inr (True, sys_log (''MGD command to add config passed. Request_id: '' @
              string_of_nat i @ '' Path: '' @ sp p) s)
       else Inr (False, s)))"

definition AgentSystemProc_oc_systemRemove ::
    "(path_msg \<Rightarrow> string) \<Rightarrow> json_lib \<Rightarrow> 'e oc_stub \<Rightarrow> global_config \<Rightarrow> system_id \<Rightarrow> path_msg \<Rightarrow>
     'e proc_backend agent_system \<Rightarrow> (bool \<times> 'e proc_backend agent_system) res" where
  "AgentSystemProc_oc_systemRemove sp jl stub gc i p s =
     res_bind (generate_json_oc_config jl True (of_nat i) p) (\<lambda>config.
     res_bind (sendOCMessagetoMgd stub gc config i DELETE_CONFIG s) (\<lambda>(status, s).
       if status_ok status then
         let s = s\<lparr>remove_system_count := remove_system_count s + 1\<rparr>
         in Inr (True, sys_log (''MGD command to delete config passed. Request_id: '' @
              string_of_nat i @ '' Path: '' @ sp p) s)
       else Inr (False, s)))"

text \<open>The path a stored configuration stands for; text that does not parse reads as null.\<close>

definition oc_path_step :: "json_step list" where
  "oc_path_step = [Key ''sensor-groups'', Key ''sensor-paths'', Idx 0, Key ''sensor-path'', Key ''config'', Key ''path'']"

definition oc_interval_step :: "json_step list" where
  "oc_interval_step = [Key ''subscriptions'', Key ''persistent'', Key ''subscription'', Key ''sensor-profiles'',
     Key ''sensor-profile'', Key ''config'', Key ''sample-interval'']"

definition oc_path_of_config :: "json_lib \<Rightarrow> string \<Rightarrow> path_msg res" where
  "oc_path_of_config jl response_json_str =
     (let j = (case parse_string_to_json_obj jl response_json_str of Some j \<Rightarrow> j | None \<Rightarrow> JNull)
      in res_bind (json_cstring oc_path_step j) (\<lambda>path_str.
         res_bind (json_cstring oc_interval_step j) (\<lambda>freq.
         res_bind (stoi freq) (\<lambda>n.
         Inr (path_cleared\<lparr>p_path := path_str, p_sample_frequency := of_int n\<rparr>)))))"

text \<open>The address is chosen as in the Junos form.\<close>

definition AgentSystemProc_oc_systemGet ::
    "json_lib \<Rightarrow> 'e oc_stub \<Rightarrow> global_config \<Rightarrow> system_id \<Rightarrow> 'e proc_backend agent_system \<Rightarrow>
     (path_msg option \<times> 'e proc_backend agent_system) res" where
  "AgentSystemProc_oc_systemGet jl stub gc i s =
     (let req = \<lparr>ocg_request_id = of_nat i, ocg_encoding_json = True,
                 ocg_requests = [\<lparr>ogi_operation_id = ''0'', ogi_operation = GET_CONFIG,
                                  ogi_path = ''openconfig-telemetry''\<rparr>]\<rparr>;
          (status, reply, e) = stub_Get stub (mgd_address gc) req (pb_env (as_backend s));
          s = set_env e s
      in if ogs_request_id reply \<noteq> of_nat i then Inr (None, s)
         else (case ogs_response reply of
           [] \<Rightarrow> Inl OutOfRange
         | r # _ \<Rightarrow>
             if ogr_path r \<noteq> ''openconfig-telemetry'' then Inr (None, s)
             else
               let s = sys_log (''Get response : '' @ ogr_value r) s
               in res_bind (oc_path_of_config jl (ogr_value r)) (\<lambda>p. Inr (Some p, s))))"

definition AgentSystemProc_oc_systemClearAll ::
    "'e proc_backend agent_system \<Rightarrow> bool \<times> 'e proc_backend agent_system" where
  "AgentSystemProc_oc_systemClearAll s = (True, s)"

section \<open>The simulated daemon behind the stub\<close>

definition oc_sim_stub ::
    "(oc_set_request \<Rightarrow> string) \<Rightarrow> (oc_get_request \<Rightarrow> string) \<Rightarrow> oc_mgd_state oc_stub" where
  "oc_sim_stub show_set show_get =
     \<lparr>stub_Set = (\<lambda>address req e.
        (case Mgd_Set show_set req e of
           Inr reply \<Rightarrow> reply
         | Inl err \<Rightarrow> (status_UNAVAILABLE, \<lparr>oss_request_id = 0, oss_response = []\<rparr>, e))),
      stub_Get = (\<lambda>address req e.
        (case Mgd_Get show_get req e of
           Inr reply \<Rightarrow> reply
         | Inl err \<Rightarrow> (status_UNAVAILABLE, \<lparr>ogs_request_id = 0, ogs_response = []\<rparr>, e)))\<rparr>"

section \<open>Lemmas\<close>

text \<open>The daemon as a map from request ids to operations.\<close>

definition oc_stored :: "oc_mgd_state \<Rightarrow> u64 \<Rightarrow> oc_operation option" where
  "oc_stored s i = Option.bind (smap_find (config_db s) i) (\<lambda>p. p)"

definition oc_mgd_inv :: "oc_mgd_state \<Rightarrow> bool" where
  "oc_mgd_inv s \<longleftrightarrow> smap_ok (config_db s) \<and> (\<forall>i. smap_find (config_db s) i \<noteq> Some None)"

lemma oc_mgd_write_db [simp]: "config_db (oc_mgd_write m s) = config_db s"
  by (simp add: oc_mgd_write_def)

lemma Mgd_Set_refines:
  assumes "oc_mgd_inv s" and "ocs_operations req = cmd # cmds"
  shows "\<exists>r s'. Mgd_Set show req s = Inr (status_OK, r, s') \<and> oc_mgd_inv s' \<and>
    oc_stored s' = (oc_stored s)(ocs_request_id req := (if oo_operation cmd = DELETE_CONFIG then None else Some cmd)) \<and>
    map osr_response_code (oss_response r) = [OcOk]"
  using assms
  by (cases "oo_operation cmd")
    (auto simp: Mgd_Set_def Let_def oc_mgd_inv_def oc_stored_def fun_eq_iff std_map.ok_put std_map.ok_erase
      std_map.find_put std_map.find_erase)

lemma Mgd_Get_stored:
  assumes "ocg_requests req = item # rest" and "oc_stored s (ocg_request_id req) = Some cmd"
  shows "\<exists>s'. Mgd_Get show req s = Inr (status_OK,
    \<lparr>ogs_request_id = ocg_request_id req,
     ogs_response = [\<lparr>ogr_operation_id = ''0'', ogr_path = ogi_path item, ogr_value = oo_value cmd,
                      ogr_response_code = OcOk, ogr_message = ''Success''\<rparr>]\<rparr>, s') \<and> config_db s' = config_db s"
proof -
  have "smap_find (config_db s) (ocg_request_id req) = Some (Some cmd)"
    using assms(2) by (auto simp: oc_stored_def bind_eq_Some_conv)
  then show ?thesis using assms(1) by (simp add: Mgd_Get_def Let_def)
qed

text \<open>A call that fails has no response, and reading its first response is out of range.\<close>

lemma oc_failed_call:
  assumes "stub_Set stub (oc_mgd_address gc)
      \<lparr>ocs_request_id = of_nat i, ocs_transaction = True, ocs_encoding_json = True,
       ocs_operations = [\<lparr>oo_operation_id = ''0'', oo_operation = cmd,
                          oo_path = ''openconfig-telemetry'', oo_value = config\<rparr>]\<rparr>
      (pb_env (as_backend s)) = (st, \<lparr>oss_request_id = n, oss_response = []\<rparr>, e)"
  shows "sendOCMessagetoMgd stub gc config i cmd s = Inl OutOfRange"
  using assms by (simp add: sendOCMessagetoMgd_def)

lemma oc_sim_send:
  assumes "oc_mgd_inv (pb_env (as_backend s))"
  shows "\<exists>s'. sendOCMessagetoMgd (oc_sim_stub f g) gc config i cmd s = Inr (status_OK, s') \<and>
    oc_mgd_inv (pb_env (as_backend s')) \<and> outstanding s' = outstanding s \<and>
    oc_stored (pb_env (as_backend s')) = (oc_stored (pb_env (as_backend s)))(of_nat i :=
      (if cmd = DELETE_CONFIG then None
       else Some \<lparr>oo_operation_id = ''0'', oo_operation = cmd, oo_path = ''openconfig-telemetry'', oo_value = config\<rparr>))"
proof -
  let ?op = "\<lparr>oo_operation_id = ''0'', oo_operation = cmd, oo_path = ''openconfig-telemetry'', oo_value = config\<rparr>"
  let ?req = "\<lparr>ocs_request_id = of_nat i, ocs_transaction = True, ocs_encoding_json = True, ocs_operations = [?op]\<rparr>"
  obtain r e where r: "Mgd_Set f ?req (pb_env (as_backend s)) = Inr (status_OK, r, e)" "oc_mgd_inv e"
    "oc_stored e = (oc_stored (pb_env (as_backend s)))(of_nat i := (if cmd = DELETE_CONFIG then None else Some ?op))"
    "map osr_response_code (oss_response r) = [OcOk]"
    using Mgd_Set_refines [OF assms, of ?req ?op "[]" f] by auto
  then obtain q where q: "oss_response r = [q]" "osr_response_code q = OcOk" by auto
  have "sendOCMessagetoMgd (oc_sim_stub f g) gc config i cmd s = Inr (status_OK, set_env e s)"
    using r(1) q by (simp add: sendOCMessagetoMgd_def oc_sim_stub_def status_OK_def status_ok_def)
  then show ?thesis using r(2,3) by (simp add: outstanding_def)
qed

text \<open>
  An addition reads back as the path without its filter, and its removal leaves the daemon and
  the count of requests as they were.
\<close>

lemma oc_reference_reads:
  "json_cstring oc_path_step (oc_reference True i p) = Inr (p_path p)"
  "json_cstring oc_interval_step (oc_reference True i p) = Inr (string_of_u32 (p_sample_frequency p))"
  by (simp_all add: json_cstring_def oc_path_step_def oc_interval_step_def oc_reference_def smap_find_def)

lemma oc_add_get_remove:
  assumes "oc_mgd_inv (pb_env (as_backend s))" and "oc_templates_parse jl"
    and "js_parse jl (js_fast jl (oc_reference True (of_nat i) p)) = Some (oc_reference True (of_nat i) p)"
    and "unat (p_sample_frequency p) < 2 ^ 31"
    and "oc_stored (pb_env (as_backend s)) (of_nat i) = None"
  shows "\<exists>s1 s2 s3. AgentSystemProc_oc_systemAdd sp jl (oc_sim_stub f g) gc i p s = Inr (True, s1) \<and>
    AgentSystemProc_oc_systemGet jl (oc_sim_stub f g) gc i s1 =
      Inr (Some (path_cleared\<lparr>p_path := p_path p, p_sample_frequency := p_sample_frequency p\<rparr>), s2) \<and>
    AgentSystemProc_oc_systemRemove sp jl (oc_sim_stub f g) gc i p s1 = Inr (True, s3) \<and>
    oc_stored (pb_env (as_backend s3)) = oc_stored (pb_env (as_backend s)) \<and> outstanding s3 = outstanding s"
proof -
  let ?conf = "js_fast jl (oc_reference True (of_nat i) p)"
  let ?op = "\<lambda>cmd. \<lparr>oo_operation_id = ''0'', oo_operation = cmd, oo_path = ''openconfig-telemetry'', oo_value = ?conf\<rparr>"
  let ?q = "path_cleared\<lparr>p_path := p_path p, p_sample_frequency := p_sample_frequency p\<rparr>"
  have gen: "generate_json_oc_config jl True (of_nat i) p = Inr ?conf"
    using oc_config_tree_reference [OF assms(2)] by (simp add: generate_json_oc_config_def write_json_obj_to_string_def)
  obtain t1 where t1: "sendOCMessagetoMgd (oc_sim_stub f g) gc ?conf i UPDATE_CONFIG s = Inr (status_OK, t1)"
    "oc_mgd_inv (pb_env (as_backend t1))" "outstanding t1 = outstanding s"
    "oc_stored (pb_env (as_backend t1)) = (oc_stored (pb_env (as_backend s)))(of_nat i \<mapsto> ?op UPDATE_CONFIG)"
    using oc_sim_send [OF assms(1), of f g gc ?conf i UPDATE_CONFIG] by auto
  define s1 where "s1 = sys_log (''MGD command to add config passed. Request_id: '' @
      string_of_nat i @ '' Path: '' @ sp p) (t1\<lparr>add_system_count := add_system_count t1 + 1\<rparr>)"
  have s1: "AgentSystemProc_oc_systemAdd sp jl (oc_sim_stub f g) gc i p s = Inr (True, s1)"
    "as_backend s1 = as_backend t1" "outstanding s1 = outstanding t1 + 1"
    using gen t1(1) by (simp_all add: AgentSystemProc_oc_systemAdd_def s1_def status_OK_def status_ok_def outstanding_def Let_def)
  let ?req = "\<lparr>ocg_request_id = of_nat i, ocg_encoding_json = True,
      ocg_requests = [\<lparr>ogi_operation_id = ''0'', ogi_operation = GET_CONFIG, ogi_path = ''openconfig-telemetry''\<rparr>]\<rparr>"
  have "oc_stored (pb_env (as_backend s1)) (ocg_request_id ?req) = Some (?op UPDATE_CONFIG)"
    using t1(4) s1(2) by simp
  from Mgd_Get_stored [OF _ this, of _ "[]" g] obtain e where
    "Mgd_Get g ?req (pb_env (as_backend s1)) = Inr (status_OK, \<lparr>ogs_request_id = of_nat i,
      ogs_response = [\<lparr>ogr_operation_id = ''0'', ogr_path = ''openconfig-telemetry'', ogr_value = ?conf,
        ogr_response_code = OcOk, ogr_message = ''Success''\<rparr>]\<rparr>, e)" by auto
  moreover have "oc_path_of_config jl ?conf = Inr ?q"
    using assms(3,4) stoi_string_of_nat [of "unat (p_sample_frequency p)"]
    by (simp add: oc_path_of_config_def parse_string_to_json_obj_def oc_reference_reads string_of_u32_def)
  ultimately have "\<exists>s2. AgentSystemProc_oc_systemGet jl (oc_sim_stub f g) gc i s1 = Inr (Some ?q, s2)"
    by (simp add: AgentSystemProc_oc_systemGet_def oc_sim_stub_def)
  moreover have "\<exists>s3. AgentSystemProc_oc_systemRemove sp jl (oc_sim_stub f g) gc i p s1 = Inr (True, s3) \<and>
    oc_stored (pb_env (as_backend s3)) = oc_stored (pb_env (as_backend s)) \<and> outstanding s3 = outstanding s"
  proof -
    have "oc_mgd_inv (pb_env (as_backend s1))" using t1(2) s1(2) by simp
    from oc_sim_send [OF this, of f g gc ?conf i DELETE_CONFIG] obtain t3 where
      "sendOCMessagetoMgd (oc_sim_stub f g) gc ?conf i DELETE_CONFIG s1 = Inr (status_OK, t3)"
      "outstanding t3 = outstanding s1"
      "oc_stored (pb_env (as_backend t3)) = (oc_stored (pb_env (as_backend s1)))(of_nat i := None)" by auto
    then show ?thesis using gen t1(3,4) s1(2,3) assms(5)
      by (auto simp: AgentSystemProc_oc_systemRemove_def status_OK_def status_ok_def outstanding_def Let_def fun_eq_iff
          diff_diff_eq [symmetric])
  qed
  ultimately show ?thesis using s1(1) by blast
qed

end
