(* ===== verification/UdpSimulator.thy ===== *)
theory UdpSimulator
  imports UdpReceiver
begin

text \<open>
  The tool that feeds the UDP receiver (udp_data_simulator/main.cpp, Sensor_keys.h): one packet a
  second, each a buffer of 9000 bytes behind a subscription id in network order. The serialised
  message is the parameter \<open>ser\<close>, the random numbers a function of their position.
\<close>

section \<open>Messages\<close>

definition cpu_memory_keys :: "string list" where
  "cpu_memory_keys =
     map (\<lambda>k. ''/oc-path/components/component/subcomponents/subcomponent[name='' @ [CHR 0x27] @ ''FPC5:CPU0'' @
           [CHR 0x27] @ '']/memory_utilization'' @ k)
      [''kernel/size'',
       ''kernel/bytes_allocated'',
       ''kernel/utilization'',
       ''kernel/applications/nh/bytes_allocated'',
       ''kernel/applications/nh/allocations'',
       ''kernel/applications/nh/frees'',
       ''kernel/applications/nh/allocations_failed'',
       ''kernel/applications/dfw/bytes_allocated'',
       ''kernel/applications/dfw/allocations'',
       ''kernel/applications/dfw/frees'',
       ''kernel/applications/dfw/allocations_failed'',
       ''kernel/applications/ifl/bytes_allocated'',
       ''kernel/applications/ifl/allocations'',
       ''kernel/applications/ifl/frees'',
       ''kernel/applications/ifl/allocations_failed'',
       ''packets/size'',
       ''packets/bytes_allocated'',
       ''packets/utilization'',
       ''packets/applications/nh/bytes_allocated'',
       ''packets/applications/nh/allocations'',
       ''packets/applications/nh/frees'',
       ''packets/applications/nh/allocations_failed'',
       ''packets/applications/dfw/bytes_allocated'',
       ''packets/applications/dfw/allocations'',
       ''packets/applications/dfw/frees'',
       ''packets/applications/dfw/allocations_failed'',
       ''packets/applications/ifl/bytes_allocated'',
       ''packets/applications/ifl/allocations'',
       ''packets/applications/ifl/frees'',
       ''packets/applications/ifl/allocations_failed'']"

definition sim_generate_oc_data :: "string list \<Rightarrow> (nat \<Rightarrow> i32) \<Rightarrow> open_config_data \<Rightarrow> open_config_data" where
  "sim_generate_oc_data keys rand d =
     add_kvs (map (\<lambda>(i, k). kv_int k (scast (rand i))) (enumerate 0 keys))
       (d\<lparr>oc_system_id := ''1.1.1.1'', oc_component_id := 0, oc_sub_component_id := 1,
          oc_path := ''/junos/system/linecard/cpu/memory/'', oc_sequence_number := 100,
          oc_timestamp := 10000000\<rparr>)"

section \<open>A packet\<close>

definition BUF_SIZE :: nat where
  "BUF_SIZE = 9000"

definition htonl :: "u32 \<Rightarrow> u8 list" where
  "htonl w = [ucast (drop_bit 24 w), ucast (drop_bit 16 w), ucast (drop_bit 8 w), ucast w]"

text \<open>\<open>strncpy(dst, src, n)\<close>: up to the first zero byte, then zeros up to \<open>n\<close>.\<close>

definition strncpy :: "u8 list \<Rightarrow> u8 list \<Rightarrow> nat \<Rightarrow> u8 list" where
  "strncpy dst src n =
     (let s = takeWhile (\<lambda>b. b \<noteq> 0) (take n src)
      in s @ replicate (n - length s) 0 @ drop n dst)"

text \<open>The static message, the count of packets (below \<open>2 ^ 31\<close>, one a second) and the log.\<close>

record udp_simulator =
  us_buffer :: "u8 list"
  us_send :: nat
  us_log :: server_log

definition new_udp_simulator :: udp_simulator where
  "new_udp_simulator =
     \<lparr>us_buffer = replicate BUF_SIZE 0, us_send = 0,
      us_log = log_enable (new_log ''/tmp/udp_data_simulator.log'')\<rparr>"

text \<open>One round of the loop: the packet handed to the socket.\<close>

definition sim_round ::
    "(open_config_data \<Rightarrow> u8 list) \<Rightarrow> (nat \<Rightarrow> i32) \<Rightarrow> udp_simulator \<Rightarrow> u8 list \<times> udp_simulator" where
  "sim_round ser rand u =
     (let total_so_far = 0;
          sub_id = 1000 + us_send u mod 4;
          i_sub_id = htonl (of_nat sub_id);
          total_so_far = total_so_far + 4;
          oc_data = sim_generate_oc_data cpu_memory_keys rand open_config_data_cleared;
          oc_data_string = ser oc_data;
          (buffer, total_so_far) =
            (if total_so_far + length oc_data_string < BUF_SIZE
             then (strncpy (us_buffer u) oc_data_string (length oc_data_string),
                   total_so_far + length oc_data_string)
             else (us_buffer u, total_so_far));
          l = log_write (''Send one pkt sub_id '' @ string_of_nat sub_id @ '' of size '' @
                string_of_nat total_so_far) False (us_log u)
      in (take total_so_far (i_sub_id @ buffer),
          u\<lparr>us_buffer := buffer, us_send := Suc (us_send u), us_log := l\<rparr>))"

section \<open>Lemmas\<close>

lemma length_strncpy: "n \<le> length dst \<Longrightarrow> length (strncpy dst src n) = length dst"
  using length_takeWhile_le [of "\<lambda>b. b \<noteq> 0" "take n src"] by (simp add: strncpy_def Let_def)

lemma take_strncpy:
  "take (length src) (strncpy dst src (length src)) =
   takeWhile (\<lambda>b. b \<noteq> 0) src @ replicate (length src - length (takeWhile (\<lambda>b. b \<noteq> 0) src)) 0"
  using length_takeWhile_le [of "\<lambda>b. b \<noteq> 0" src] by (simp add: strncpy_def Let_def)

lemma ucast_byte: "(ucast (ucast (drop_bit k w :: u32) :: u8) :: u32) = of_nat (unat w div 2 ^ k mod 256)"
proof -
  have w: "unat w < 2 ^ 32" using unsigned_less [of w] by simp
  have "unat (ucast (drop_bit k w) :: u8) = unat w div 2 ^ k mod 256"
    using w by (simp only: unsigned_ucast_eq unsigned_drop_bit_eq) (simp add: take_bit_eq_mod drop_bit_eq_div)
  then show ?thesis by (metis of_nat_unat)
qed

lemma four_bytes:
  "n = 256 * a + r0 \<Longrightarrow> a = 256 * b + r1 \<Longrightarrow> b = 256 * c + r2 \<Longrightarrow>
   c * 2 ^ 24 + r2 * 2 ^ 16 + r1 * 2 ^ 8 + r0 = n" for n :: nat
  by simp

lemma htonl_packet_int_id: "packet_int_id (htonl w @ r) = w"
proof -
  let ?n = "unat w"
  have n: "?n < 2 ^ 32" using unsigned_less [of w] by simp
  have parts: "?n = 256 * (?n div 256) + ?n mod 256"
    "?n div 256 = 256 * (?n div 2 ^ 16) + ?n div 256 mod 256"
    "?n div 2 ^ 16 = 256 * (?n div 2 ^ 24) + ?n div 2 ^ 16 mod 256"
    using div_mult_mod_eq [of "?n div 256" 256] div_mult_mod_eq [of "?n div 2 ^ 16" 256]
    by (simp_all add: div_mult2_eq [symmetric])
  have "?n div 2 ^ 24 < 256" using n by (simp add: div_less_iff_less_mult)
  then have sum: "?n div 2 ^ 24 mod 256 * 2 ^ 24 + ?n div 2 ^ 16 mod 256 * 2 ^ 16 + ?n div 2 ^ 8 mod 256 * 2 ^ 8 +
      ?n div 2 ^ 0 mod 256 = ?n"
    using four_bytes [OF parts] by simp
  note word = arg_cong [OF sum, of "of_nat :: nat \<Rightarrow> u32", unfolded of_nat_add of_nat_mult of_nat_power of_nat_numeral]
  show ?thesis
    using word
      ucast_byte [of 24 w] ucast_byte [of 16 w] ucast_byte [of 8 w] ucast_byte [of 0 w]
    by (simp add: packet_int_id_def htonl_def)
qed

text \<open>
  What the receiver reads from a packet: the id, and the serialised message with everything from
  its first zero byte on replaced by zeros, or nothing when the message does not fit.
\<close>

lemma sim_packet:
  assumes "length (us_buffer u) = BUF_SIZE"
    and "ser (sim_generate_oc_data cpu_memory_keys rand open_config_data_cleared) = data"
  shows "case sim_round ser rand u of (pkt, u') \<Rightarrow>
    4 \<le> length pkt \<and> packet_int_id pkt = of_nat (1000 + us_send u mod 4) \<and>
    drop 4 pkt = (if 4 + length data < BUF_SIZE
      then takeWhile (\<lambda>b. b \<noteq> 0) data @ replicate (length data - length (takeWhile (\<lambda>b. b \<noteq> 0) data)) 0
      else []) \<and>
    length (us_buffer u') = BUF_SIZE"
proof (cases "4 + length data < BUF_SIZE")
  case True
  have "packet_int_id (htonl w @ r) = w" for w r by (rule htonl_packet_int_id)
  then show ?thesis using True assms
    by (simp add: sim_round_def Let_def length_strncpy take_strncpy) (simp add: htonl_def take_strncpy)
next
  case False
  then show ?thesis using assms htonl_packet_int_id [of _ "[]"]
    by (simp add: sim_round_def Let_def) (simp add: htonl_def)
qed

text \<open>A message without a zero byte arrives whole; behind a zero byte the rest is lost.\<close>

lemma sim_payload:
  assumes "length (us_buffer u) = BUF_SIZE"
    and "ser (sim_generate_oc_data cpu_memory_keys rand open_config_data_cleared) = data"
    and "4 + length data < BUF_SIZE"
  shows "drop 4 (fst (sim_round ser rand u)) = data \<longleftrightarrow> (\<forall>b \<in> set (dropWhile (\<lambda>b. b \<noteq> 0) data). b = 0)"
proof -
  let ?t = "takeWhile (\<lambda>b. b \<noteq> 0) data" and ?d = "dropWhile (\<lambda>b. b \<noteq> 0) data"
  have b: "data = ?t @ ?d" by simp
  have "length ?d = length data - length ?t" by (metis b add_diff_cancel_left' length_append)
  moreover have "drop 4 (fst (sim_round ser rand u)) = ?t @ replicate (length data - length ?t) 0"
    using sim_packet [of u ser rand data] assms by (simp add: case_prod_beta)
  moreover have "?t @ replicate (length ?d) 0 = data \<longleftrightarrow> replicate (length ?d) 0 = ?d"
    using b same_append_eq by metis
  moreover have "replicate (length ?d) 0 = ?d \<longleftrightarrow> (\<forall>b \<in> set ?d. b = 0)"
    using replicate_length_same [of ?d 0] in_set_replicate by metis
  ultimately show ?thesis by simp
qed

text \<open>The receiver queues the payload at the workers of the id, as often as each is routed to.\<close>

lemma sim_delivered:
  assumes "length (us_buffer u) = BUF_SIZE"
    and "ser (sim_generate_oc_data cpu_memory_keys rand open_config_data_cleared) = data"
    and "4 + length data < BUF_SIZE" and "0 \<notin> set data"
  shows "\<exists>v' ws' l'. receive_packet garbage (Some (fst (sim_round ser rand u))) (v, ws, l) = Inr (v', ws', l') \<and>
    wk_q (ws' w) = wk_q (ws w) @ replicate (copies v (routes v (of_nat (1000 + us_send u mod 4))) w) data"
proof -
  let ?p = "fst (sim_round ser rand u)"
  have p: "4 \<le> length ?p" "packet_int_id ?p = of_nat (1000 + us_send u mod 4)"
    using sim_packet [of u ser rand data] assms(1,2) by (simp_all add: case_prod_beta)
  have "drop 4 ?p = data \<longleftrightarrow> (\<forall>b \<in> set (dropWhile (\<lambda>b. b \<noteq> 0) data). b = 0)"
    by (rule sim_payload) (use assms in simp_all)
  moreover have "dropWhile (\<lambda>b. b \<noteq> 0) data = []" using assms(4) by (auto simp: dropWhile_eq_Nil_conv)
  ultimately have "drop 4 ?p = data" by (simp only: list.set ball_empty)
  then show ?thesis using receive_packet_queue [OF p(1), of garbage v ws l w] p(2) by auto
qed

end
