(* ===== verification/Spec2Isabelle.thy ===== *)
theory Spec2Isabelle
  imports BrokerPid EndToEnd Examples IniReal OCBackends UdpSimulator
begin

text \<open>
  A model of jvsim's telemetry agent: the gRPC server that clients subscribe to
  (src/src/grpc/server), the translators of Junos sensor messages to OpenConfig key-value pairs
  (src/src/grpc/lib-oc), the simulated management daemon (src/src/grpc/mgd_server), the INI
  library (src/src/grpc/lib-inih) and the interactive client (src/src/grpc/client).

  How the parts interact. A client's \<open>telemetrySubscribe\<close> validates the paths, allocates an id,
  asks the consolidator for one system request per path, registers the subscription, answers
  with the paths accepted, and then waits until it is over. The consolidator shares a system
  request among the subscriptions of one path and counts its holders; the system provisions the
  device (null, file or management daemon backend). Sensor data comes back through the message
  bus or, in UDP mode, through one receiver that routes packets to a worker per subscription;
  both translate it and write it to the subscription's stream. The other four calls cancel,
  list and describe subscriptions. All state lives in one process and is shared by the threads
  of the calls.

  The theories, in the order of their dependencies, and the code they model.

  Prelude, StdMap, CppString: results with errors as values, \<open>std::map\<close> as a sorted association
  list (locale \<open>key_store\<close>, interpreted on it), \<open>std::string\<close> operations and
  SearchNReplaceString of AgentUtils.cpp, which is a partial function because it need not return.

  ServerLog, IdManager, Messages: AgentServerLog, AgentServerIdManager (locale \<open>id_pool\<close>: an id
  handed out was free, a freed one is free again), the records of agent.proto.

  AgentSystem, ConsolidatorSystem, Consolidator: AgentSystem.hpp/.cpp with the null backend,
  AgentConsolidatorSystem, AgentConsolidator. Handles live on an explicit heap, since requests
  share them; \<open>con_inv\<close> says that reference counts are exact. The locale \<open>system_backend\<close>
  states what the consolidator asks of a backend.

  Counter, IniReader, IniReal, GlobalConfig, MessageBus: Counter.hpp,
  AgentSubscriptionLimits.hpp, lib-inih (IniReal: the real numbers, with strtod), GlobalConfig,
  AgentMessageBus.hpp with the calls to mosquitto recorded. The INI parser is modelled with and
  without INI_STOP_ON_FIRST_ERROR, and used as lib-inih/Makefile builds it, which stops.

  Json, PathValidator, JunosConfig, OCConfig: JsonUtils, PathValidator, JunosTelemetryJson*,
  OCTelemetryJson*. Configuration text is a template that is parsed, edited and merged; the
  equivalence lemmas compare it with the configuration written down directly.

  MgdServer, SystemBackends: mgd_server/MgdServer with its specification as a map, AgentSystemFile
  and AgentSystemProc. OCBackends: their OpenConfig form, selected by __OC_Telemetry_Config__,
  which the build leaves off (and in which systemGet does not compile as it stands).

  SensorMessages, Translators, Subscription: the protos of the sensors as records, the eleven
  translators and their dispatch, AgentSubscription and AgentServerTransport. The locale
  \<open>oc_translator\<close> says that a translator only appends.

  UdpReceiver, UdpSimulator, Server: UdpReceiver, AgentSubscriptionUdpWorker, the data simulator
  that feeds the receiver, and AgentServer.

  ServerInvariant, ServerRuns, ServerThreads, ServerSafety: the invariant of the service, the
  effect of each call on it, the interleaving of the threads as the step relation \<open>agent_step\<close>,
  and what holds in every reachable state. The steps of a subscription's thread are the points
  where the code waits or leaves the mutex. One interleaving is left out of \<open>agent_step\<close> by
  \<open>cancellable\<close>, a cancellation between the metadata and \<open>setActive(true)\<close>: there the code uses
  a freed handle, which is a property of its own below.

  CmdOptions, Startup: AgentServerCmdOptions, main.cpp, AgentRestart, PidFileUtils,
  AgentSystemFactory and the main of the management daemon. BrokerPid: the pid file of the
  packaged message bus (occam/makefiles/mosquitto), which agrees with the server's.

  ClientLag, Client, ClientCommands, ClientParser, ClientRuns: AgentClientLag and
  AgentTelegrafLog, AgentClient, the handlers of AgentClientParser.cpp, the parser and main, and
  the client's threads as the step relation \<open>client_step\<close> with its invariant. There, finding a
  name free and creating the client are one step; the race between them is a property below.

  EndToEnd: the server behind the client's stub, and a subscription followed on both sides from
  the command that opens it to the one that ends it.

  Examples: concrete parameters for the witnesses.

  Modelling decisions. Machine integers are words of their width. A dereference of a null pointer,
  a use after free, an access out of range and an uncaught exception are values of the error
  type, so a theorem that a call returns excludes them. Words that the code leaves uninitialised
  are arguments named garbage. Time, printed protocol messages, jsoncpp, the daemon's and the
  JSD's answers, the message bus and the sockets are parameters; what the proofs need of them is
  a named hypothesis (\<open>json_lib_ok\<close>, \<open>templates_parse\<close>). Memory is never exhausted.

  Bounds. Ids are below 64 and 0 is never handed out, so at most 63 subscriptions are registered.
  The worker's loop is unfolded as often as there are packets queued, and this is shown to be
  enough to empty the queue; the attempts to register are as many as configured; the client's
  command loop and SearchNReplaceString are partial functions, with theorems on when they return.

  Not modelled: generated protocol code (messages are records, the RPC layer calls the handlers);
  the test framework and the tests; src/inih, a checkout of the INI library that no Makefile
  builds and whose ini.c is the file of lib-inih; the Python and Go tools and the Makefiles of
  the packaging, which hold no logic of the service; OpenConfigFoo, an empty template that is
  never registered. Class declarations in headers are modelled where their members are.
\<close>









text \<open>
  C5: A cancellation that arrives after the client has been told its id and before the thread
  runs setActive(true) is lost: it succeeds and frees the consolidator handle, setActive(true)
  hides it, and when the client goes the thread cleans up again through the freed handle, a use
  after free, under every configuration.
\<close>

theorem cancel_before_setActive:
  assumes "reachable env (c, ts)" and "ts k = Some (Enabled, s)"
  shows "\<exists>r c1 c2. cancelTelemetrySubscription env (ss_id s) c = Inr (r, c1) \<and> cr_code r = SUCCESS \<and>
    session_activate s c1 = Inr c2 \<and>
    session_end env s (client_disconnect (ss_transport s) c2) = Inl UseAfterFree"
  using cancel_before_activate [OF reachable_inv [OF assms(1)] assms(2)] by metis

theorem cancel_before_setActive_witness:
  "\<exists>c s c2. reachable example_env (c, [0 \<mapsto> (Enabled, s)]) \<and>
    session_end example_env s (client_disconnect (ss_transport s) c2) = Inl UseAfterFree"
proof (rule example_enabled)
  fix c s
  assume r: "reachable example_env (c, [0 \<mapsto> (Enabled, s)])"
  then show ?thesis using cancel_before_setActive [OF r, of 0 s] by auto
qed



text \<open>
  C7: Client and server together: in every state of both in which an id is free and the name is
  new, a subscribe command's request is accepted, the metadata tells the client the id under
  which the server registered it, the server's thread gets to its polling loop, and an
  unsubscribe command with the name then ends the subscription on both sides, leaving the
  server's registry as it was before.
\<close>

theorem subscription_roundtrip:
  assumes "reachable env (sv, ts)" and "ts k = None"
    and "client_reachable cenv (c, e, cts)" and "client_find n c = None"
    and "paths \<noteq> []" and "length paths < 2 ^ 31"
    and "\<exists>i. 0 < unat i \<and> unat i < 64 \<and> i \<notin> dom (smap_find (sv_store sv))"
  shows "\<exists>p c1 s sv1 cs c2 sv2 c3 sv3.
    handle_subscribe (''subscribe'' # n # f # paths) c = Inr (Session p, c1) \<and>
    telemetrySubscribe env garbage act (pe_request p) sv = Inr (Some s, sv1) \<and>
    client_metadata sp (pe_client p) (pe_telegraf p) (Some (last (sv_metadata sv1))) c1 = Inr (Some cs, c2) \<and>
    ac_subscription_id (cl_heap c2 (pe_client p)) = ss_id s \<and> ac_active (cl_heap c2 (pe_client p)) \<and>
    reachable env (sv2, ts(k \<mapsto> (Streaming, s))) \<and> registered sv2 s \<and>
    handle_unsubscribe (agent_rpc env) [''unsubscribe'', n] (c2, sv2) = Inr (c3, sv3) \<and>
    \<not> ac_active (cl_heap c3 (pe_client p)) \<and> reachable env (sv3, ts(k \<mapsto> (Streaming, s))) \<and>
    smap_find (sv_store sv3) = smap_find (sv_store sv)"
proof -
  have "registry_ok c" using client_reachable_inv [OF assms(3)] by (simp add: client_inv_def)
  then show ?thesis by (rule subscription_life [OF assms(1,2) _ assms(4-7)])
qed

theorem subscription_roundtrip_witness:
  "\<exists>p c1 s sv1 c2 sv2 c3 sv3.
    handle_subscribe [''subscribe'', ''s'', ''10'', ''/a''] example_client = Inr (Session p, c1) \<and>
    telemetrySubscribe example_env 0 False (pe_request p) example_server = Inr (Some s, sv1) \<and>
    registered sv2 s \<and>
    handle_unsubscribe (agent_rpc example_env) [''unsubscribe'', ''s''] (c2, sv2) = Inr (c3, sv3) \<and>
    \<not> ac_active (cl_heap c3 (pe_client p))"
proof -
  have "\<exists>i. 0 < unat i \<and> unat i < 64 \<and> i \<notin> dom (smap_find (sv_store example_server))"
    by (intro exI [of _ 1]) (simp add: example_server_def new_server_def dom_def)
  from subscription_roundtrip [where k = 0 and paths = "[''/a'']" and f = "''10''" and garbage = 0 and act = False
      and sp = p_path, OF example_start _ example_client_start [of example_client_env] example_client_find _ _ this]
  show ?thesis by auto blast
qed





text \<open>
  C10: A UDP packet, whatever its bytes, is never put on the queue of a worker that has been
  deleted, in any reachable state.
\<close>

theorem packet_reaches_live_workers:
  assumes "reachable env (c, ts)"
  shows "udp_packet garbage pkt c \<noteq> Inl UseAfterFree \<and>
    (\<forall>i w. smap_find (ur_ext_id_worker_store (sv_receiver c)) i = Some w \<longrightarrow>
       sv_worker_live c w \<and> wk_id (sv_workers c w) = i)"
proof -
  have "udp_inv env c" using reachable_inv [OF assms] by (simp add: agent_inv_def)
  then show ?thesis
    using packet_live [OF reachable_inv [OF assms]] by (simp add: udp_inv_def worker_entry_ok_def)
qed

theorem packet_reaches_live_workers_witness:
  "udp_packet 0 (Some [0, 0, 3, 232, 7]) example_server \<noteq> Inl UseAfterFree"
  using packet_reaches_live_workers [OF example_start] by blast





text \<open>
  C13: Adding a request always returns a handle, with the accepted paths a subsequence of the
  asked ones, and removing that handle leaves the paths requested, the handles live and the
  paths provisioned in the system as they were, the backend's balance included when its removals
  succeed.
\<close>

theorem add_remove_roundtrip:
  assumes "con_inv sp c" and "size (requested sp c) + length ps < 2 ^ 64 - 1"
  shows "\<exists>ptr acc c1 c2. addRequest sp ops i ps [] c = Inr (ptr, acc, c1) \<and> subseq acc ps \<and>
    con_inv sp c1 \<and> requested sp c1 = mset (map sp acc) + requested sp c \<and>
    removeRequest sp ops (Some ptr) c1 = Inr c2 \<and> con_inv sp c2 \<and>
    requested sp c2 = requested sp c \<and> con_live c2 = con_live c \<and>
    dom (smap_find (cs_sysdb c2)) = dom (smap_find (cs_sysdb c)) \<and>
    (reliable_backend ops \<longrightarrow> outstanding (cs_system c2) - of_nat (length (cs_sysdb c2)) =
       outstanding (cs_system c) - of_nat (length (cs_sysdb c)))"
proof -
  obtain h acc c1 where a: "addRequest sp ops i ps [] c = Inr (con_next c, acc, c1)" "con_inv sp c1"
    "requested sp c1 = mset (map sp acc) + requested sp c" "subseq acc ps"
    "con_live c1 = smap_put (con_next c) h (con_live c)"
    "map (\<lambda>a. sp (h_path (cs_heap c1 a))) (ch_handles h) = map sp acc"
    "system_backend ops \<Longrightarrow> imbalance c1 = imbalance c"
    by (rule addRequest_inv [OF assms, of ops i "[]"]) auto
  have ok: "smap_ok (con_live c)" and none: "smap_find (con_live c) (con_next c) = None"
    using assms(1) con_inv_fresh by (auto simp: con_inv_def)
  then have live: "smap_find (con_live c1) (con_next c) = Some h" by (simp add: a(5) smap_find_put)
  obtain c2 where r: "removeRequest sp ops (Some (con_next c)) c1 = Inr c2" "con_inv sp c2"
    "requested sp c1 = mset (map (\<lambda>a. sp (h_path (cs_heap c1 a))) (ch_handles h)) + requested sp c2"
    "con_live c2 = smap_erase (con_next c) (con_live c1)"
    "reliable_backend ops \<Longrightarrow> imbalance c2 = imbalance c1"
    by (rule removeRequest_inv [OF a(2) live, of ops]) auto
  have req: "requested sp c2 = requested sp c" using a(3,6) r(3) by simp
  have "con_live c2 = con_live c" using r(4) a(5) ok none by (simp add: smap_erase_put)
  moreover have "dom (smap_find (cs_sysdb c2)) = dom (smap_find (cs_sysdb c))"
    using con_inv_sysdb(1) [OF assms(1)] con_inv_sysdb(1) [OF r(2)] req by (simp only:)
  moreover have "reliable_backend ops \<longrightarrow> imbalance c2 = imbalance c"
    using a(7) r(5) reliable_backend.axioms(1) by auto
  ultimately show ?thesis using a r req unfolding imbalance_def by blast
qed

theorem add_remove_roundtrip_witness:
  "\<exists>ptr acc c1 c2. addRequest p_path (AgentSystemNull p_path) 7
      [path_cleared\<lparr>p_path := ''/a''\<rparr>, path_cleared\<lparr>p_path := ''/a''\<rparr>] []
      (new_consolidator (new_agent_system (new_log ''l'') ())) = Inr (ptr, acc, c1) \<and>
    removeRequest p_path (AgentSystemNull p_path) (Some ptr) c1 = Inr c2 \<and> cs_sysdb c2 = []"
proof -
  let ?c = "new_consolidator (new_agent_system (new_log ''l'') ())"
  let ?ps = "[path_cleared\<lparr>p_path := ''/a''\<rparr>, path_cleared\<lparr>p_path := ''/a''\<rparr>]"
  have "size (requested p_path ?c) + length ?ps < 2 ^ 64 - 1"
    by simp
  from add_remove_roundtrip [OF con_inv_new this, of "AgentSystemNull p_path" 7] obtain ptr acc c1 c2
    where "addRequest p_path (AgentSystemNull p_path) 7 ?ps [] ?c = Inr (ptr, acc, c1)"
      "removeRequest p_path (AgentSystemNull p_path) (Some ptr) c1 = Inr c2"
      "dom (smap_find (cs_sysdb c2)) = dom (smap_find (cs_sysdb ?c))" by blast
  moreover have "dom (smap_find (cs_sysdb ?c)) = {}" by (simp add: dom_smap_find smap_keys_def)
  ultimately have "dom (smap_find (cs_sysdb c2)) = {}" by (simp only:)
  then have "cs_sysdb c2 = []" by (simp add: dom_smap_find smap_keys_def)
  then show ?thesis
    using \<open>addRequest _ _ _ _ _ _ = _\<close> \<open>removeRequest _ _ _ _ = _\<close> by blast
qed

text \<open>
  C14: The test whether a client's name is taken is outside the lock of its creation. When two
  commands pass the test before either creates, both clients get the name; when the first ends,
  its destructor takes the other's entry out of the registry: the second is alive, but no
  command finds it any more.
\<close>

theorem client_name_race:
  assumes "client_reachable env (c, e, ts)" and "client_find n c = None"
  shows "\<exists>a b c1 c2 c3. create_named n c = (a, c1) \<and> create_named n c1 = (b, c2) \<and> a \<noteq> b \<and>
    client_find n c2 = Some b \<and> client_delete a c2 = Inr c3 \<and>
    deref_client b c3 = Inr (cl_heap c2 b) \<and> ac_name (cl_heap c2 b) = n \<and> client_find n c3 = None"
proof -
  obtain a c1 b c2 where n: "create_named n c = (a, c1)" "create_named n c1 = (b, c2)" by fastforce
  have "registry_ok c" using client_reachable_inv [OF assms(1)] by (simp add: client_inv_def)
  from creation_race [OF this assms(2) n] n show ?thesis by blast
qed

theorem client_name_race_witness:
  "\<exists>a b c1 c2 c3. create_named ''s'' example_client = (a, c1) \<and> create_named ''s'' c1 = (b, c2) \<and> a \<noteq> b \<and>
    client_delete a c2 = Inr c3 \<and> cl_live c3 b \<and> client_find ''s'' c3 = None"
  using client_name_race [OF example_client_start [of example_client_env] example_client_find]
  by (fastforce simp: deref_client_def split: if_splits)

text \<open>
  C15: A sensor message is translated by the first registered translator, in the order the code
  tests the extensions, whose extension is present in the message; the lookup fails exactly when
  it carries none of the eleven.
\<close>

theorem oc_dispatch:
  "oc_find (get_oc_extension_type h) (lib_oc_init []) = find (\<lambda>t. present t h) translators"
  using oc_lookup_first by (simp only: oc_lookup_def)



text \<open>
  C17: A port message the service exports is written by a client that collects telegraf lines as
  one line with the exporter's time stamp that names the message's first interface only; the
  database of link aggregation groups is left as it was, because it counts a key no port message
  has.
\<close>

theorem port_message_at_client:
  assumes "deref_client (cse_client s) c = Inr x" and "ac_active x" and "cse_telegraf s"
    and "log_level (cse_telegraf_logger s) \<noteq> 0"
    and "jnpr_interface_ext (ts_sensors st) = Some (ifd # ifds)" and "CHR '']'' \<notin> set (ifd_if_name ifd)"
  shows "\<exists>s' c'. client_message sz show (exported gc now usec topic st OpenConfigPort) s c = Inr (Some s', c') \<and>
    cl_lag c' = cl_lag c \<and>
    log_output (cse_telegraf_logger s') = log_output (cse_telegraf_logger s) @
      [RawLine (''interface,sysname='' @ ts_system_id st @ '',ifname='' @ [CHR 0x27] @ ifd_if_name ifd @ [CHR 0x27] @
         '' '' @ string_of_u64 (of_int now * 1000 + of_int (usec div 1000)))]"
proof -
  let ?d = "exported gc now usec topic st OpenConfigPort"
  have kv: "oc_kv ?d = kv_uint ''__timestamp__'' (of_int now * 1000 + of_int (usec div 1000)) #
      concat (map port_kvs (ifd # ifds))" and sys: "oc_system_id ?d = ts_system_id st"
    using assms(5) by (simp_all add: exported_def translation_simps mutable_extension_def oc_header_def add_kvs_simps)
  have "\<forall>kv \<in> set (oc_kv ?d). kv_key kv \<noteq> ''output_packets''"
    using port_keys(1) by (auto simp: kv kv_uint_def)
  then have "lag_updateStats ?d db = db" for db by (simp add: lag_updateStats_def lag_loop_none)
  then show ?thesis
    using assms(1-3) telegraf_port_line [OF assms(4,6) kv] by (simp add: client_message_def Let_def sys)
qed

theorem port_message_at_client_witness:
  "\<exists>s st s' c'. ts_sensors st = no_sensors\<lparr>jnpr_interface_ext := Some [example_interface ''ge0'' 640]\<rparr> \<and>
    client_message (\<lambda>_. 0) (\<lambda>_. []) (exported default_config 7 0 ''t'' st OpenConfigPort) s example_client =
      Inr (Some s', c') \<and> length (log_output (cse_telegraf_logger s')) = 2"
proof -
  let ?l = "new_telegraf ''l''"
  let ?s = "\<lparr>cse_client = 0, cse_telegraf = True, cse_logger = ?l, cse_telegraf_logger = ?l\<rparr>"
  let ?st = "\<lparr>ts_system_id = ''s'', ts_component_id = 0, ts_sub_component_id = 0, ts_sensor_name = [],
      ts_sequence_number = 0, ts_timestamp = 0,
      ts_sensors = no_sensors\<lparr>jnpr_interface_ext := Some [example_interface ''ge0'' 640]\<rparr>\<rparr>"
  have c: "deref_client 0 example_client = Inr (cl_heap example_client 0)" "ac_active (cl_heap example_client 0)"
    by (simp_all add: example_client_def create_named_def client_create_def new_client_state_def
        new_agent_client_def deref_client_def Let_def)
  have l: "log_level ?l \<noteq> 0" "length (log_output ?l) = 1"
    by (simp_all add: new_telegraf_def log_enable_def new_log_def log_write_def)
  have "CHR '']'' \<notin> set (ifd_if_name (example_interface ''ge0'' 640))" by simp
  from port_message_at_client [of ?s example_client "cl_heap example_client 0" ?st "example_interface ''ge0'' 640" "[]"
      "\<lambda>_. 0" "\<lambda>_. []" default_config 7 0 "''t''"] c l this
  obtain s' c' where "client_message (\<lambda>_. 0) (\<lambda>_. []) (exported default_config 7 0 ''t'' ?st OpenConfigPort) ?s
      example_client = Inr (Some s', c')" "length (log_output (cse_telegraf_logger s')) = 2"
    by auto
  moreover have "ts_sensors ?st = no_sensors\<lparr>jnpr_interface_ext := Some [example_interface ''ge0'' 640]\<rparr>" by simp
  ultimately show ?thesis by blast
qed





text \<open>
  C20: Validating a path the table knows gives a path whose frequency lies between the bounds of
  its entry and is a whole number of thousands, and validating the result again changes nothing;
  the entry's bounds are assumed in whole thousands, below the wrap-around of the rounding.
\<close>

theorem path_validation:
  assumes "capability v (p_path p) = Some i" and "capability_ok i"
  shows "\<exists>q. validate_path p v = (q, v) \<and> sample_frequency_min i \<le> p_sample_frequency q \<and>
    p_sample_frequency q \<le> sample_frequency_max i \<and> unat (p_sample_frequency q) mod 1000 = 0 \<and>
    validate_path q v = (q, v)"
  using adjusted_frequency [OF assms(2), of p] adjust_path_idem [OF assms(2), of p]
    validate_path_known [OF assms(1)] validate_path_known [of v "adjust_path i p" i] assms(1)
  by simp

theorem path_validation_witness:
  "\<exists>v q. capability v ''/interfaces/'' = Some example_info \<and>
    validate_path (path_cleared\<lparr>p_path := ''/interfaces/'', p_sample_frequency := 2600\<rparr>) v = (q, v) \<and>
    unat (p_sample_frequency q) mod 1000 = 0"
proof -
  let ?v = "example_validator [(''/interfaces/'', Some example_info)]"
  have k: "capability ?v (p_path (path_cleared\<lparr>p_path := ''/interfaces/'', p_sample_frequency := 2600\<rparr>)) = Some example_info"
    by (simp add: capability_def smap_find_def path_cleared_def example_validator_def)
  have "capability_ok example_info" by (simp add: capability_ok_def example_info_def)
  from path_validation [OF k this] k show ?thesis by (fastforce simp: path_cleared_def)
qed

text \<open>
  C21: After a path that is not in the table has been validated, printing the table dereferences
  a null pointer: the validation's lookup leaves a null entry behind.
\<close>

theorem print_after_unknown_path:
  assumes "smap_ok (pv_db v)" and "capability v (p_path p) = None"
  shows "print_path_information_db (snd (validate_path p v)) = Inl NullPointer"
  by (rule print_after_unknown [OF assms])

theorem print_after_unknown_path_witness:
  "print_path_information_db (snd (validate_path (path_cleared\<lparr>p_path := ''/bogus/''\<rparr>)
     (example_validator []))) = Inl NullPointer"
  by (rule print_after_unknown_path) (simp_all add: example_validator_def capability_def smap_find_def)



text \<open>
  C23: A configuration file of sections and name=value lines with plain words, in which no name
  repeats in its section whatever its case, parses without an error and reads back every value;
  other names read as the default. When a malformed line follows, whatever comes after it, the
  parser as it is built stops there: the error is the number of that line, the values are those
  of the lines before it, and the configuration is accepted as if the file ended there.
\<close>

theorem ini_file_read_back:
  assumes "\<forall>i \<in> set items. item_ok i" and "distinct (map (fst \<circ> call_binding) (item_calls [] items))"
    and "tail = [] \<or> (\<exists>w rest. malformed_line w \<and> tail = w @ newline # rest)"
  shows "ParseError (new_ini_reader (Some (render_ini items @ tail))) =
      (if tail = [] then 0 else int (length items) + 1) \<and>
    ini_Get (new_ini_reader (Some (render_ini items @ tail))) s n d =
      (case map_of (map call_binding (item_calls [] items)) (MakeKey s n) of Some v \<Rightarrow> v | None \<Rightarrow> d) \<and>
    config_parse f (Some (render_ini items @ tail)) gc = config_parse f (Some (render_ini items)) gc"
proof (cases "tail = []")
  case True
  then show ?thesis using ini_roundtrip [OF assms(1,2)] by simp
next
  case False
  then obtain w rest where w: "malformed_line w" and t: "tail = w @ newline # rest" using assms(3) by blast
  then show ?thesis
    using ini_malformed_roundtrip [OF assms(1,2) w] config_parse_malformed [OF assms(1) w] by simp
qed

theorem ini_file_read_back_witness:
  "ParseError (new_ini_reader (Some (render_ini [Section ''udp'', Pair ''ip'' ''127.0.0.1''] @
      ''word'' @ newline # ''ip=1''))) = 3 \<and>
   ini_Get (new_ini_reader (Some (render_ini [Section ''udp'', Pair ''ip'' ''127.0.0.1''] @
      ''word'' @ newline # ''ip=1''))) ''UDP'' ''Ip'' [] = ''127.0.0.1''"
proof -
  let ?items = "[Section ''udp'', Pair ''ip'' ''127.0.0.1'']"
  let ?tail = "''word'' @ newline # ''ip=1''"
  have items: "\<forall>i \<in> set ?items. item_ok i" by (simp add: plain_char_def is_space_def)
  have distinct: "distinct (map (fst \<circ> call_binding) (item_calls [] ?items))" by (simp add: call_binding_def)
  have "malformed_line ''word''" by (simp add: malformed_line_def plain_char_def is_space_def)
  then have tail: "?tail = [] \<or> (\<exists>w rest. malformed_line w \<and> ?tail = w @ newline # rest)" by blast
  have "MakeKey ''UDP'' ''Ip'' = MakeKey ''udp'' ''ip''" by code_simp
  then show ?thesis
    using ini_file_read_back [OF items distinct tail, of "''UDP''" "''Ip''" "[]"]
    by (simp add: call_binding_def)
qed

text \<open>
  C24: Whatever the configuration file holds, the topic name, the system mode and the running
  mode of the parsed configuration are among the valid ones, and parsing fails exactly when the
  file cannot be opened.
\<close>

theorem config_stays_valid:
  "case config_parse f contents default_config of (ok, gc, out) \<Rightarrow>
     (ok \<longleftrightarrow> contents \<noteq> None) \<and> is_valid_subscription_topic_name (subscribe_topic_name gc) \<and>
     is_valid_system_mode (system_mode gc) \<and> is_valid_running_mode (running_mode gc)"
proof (cases "config_parse f contents default_config")
  case (fields ok gc out)
  have "ok \<longleftrightarrow> contents \<noteq> None"
    using fields config_parse_missing [of f default_config] config_parse_found [of f "the contents" default_config]
    by (cases "contents = None") auto
  moreover have "config_ok gc" using config_parse_ok [OF config_ok_default fields] .
  ultimately show ?thesis using fields by (simp add: config_ok_def)
qed

text \<open>
  C25: The management daemon's edit refines its specification on the map from request ids to
  stored configurations: update and replace store the command, delete removes one entry or, for
  id 0, all; the reply is RPC success under the request's id.
\<close>

theorem mgd_edit_refines:
  assumes "mgd_inv s" and "er_operations req \<noteq> []"
  shows "\<exists>r s'. EditEphemeralConfig show req s = Inr (status_OK, r, s') \<and> mgd_inv s' \<and>
    stored s' = edit_spec req (stored s) \<and> es_request_id r = er_request_id req \<and>
    map ep_status (es_response r) = [RpcSuccess]"
  using EditEphemeralConfig_refines [OF assms, of "show"] by metis

theorem mgd_edit_refines_witness:
  "\<exists>r s'. EditEphemeralConfig (\<lambda>_. []) \<lparr>er_request_id = 0, er_operations = [\<lparr>co_operation_id = ''0'',
      co_operation = DELETE_CONFIG, co_path = ''/'', co_json_config = []\<rparr>],
      er_instance_name = [], er_enable_validation = True\<rparr> (new_mgd (new_log ''l'')) = Inr (status_OK, r, s') \<and>
    stored s' 7 = None"
proof -
  have "mgd_inv (new_mgd (new_log ''l''))" by (simp add: mgd_inv_def new_mgd_def smap_find_def)
  from mgd_edit_refines [OF this, of "\<lparr>er_request_id = 0, er_operations = [\<lparr>co_operation_id = ''0'',
      co_operation = DELETE_CONFIG, co_path = ''/'', co_json_config = []\<rparr>],
      er_instance_name = [], er_enable_validation = True\<rparr>" "\<lambda>_. []"]
  show ?thesis by (fastforce simp: edit_spec_def)
qed

text \<open>
  C26: Asking the management daemon for an id it does not store ends in a null pointer
  dereference, although the handler prepared a NOK answer for it.
\<close>

theorem mgd_get_missing:
  assumes "gr_requests req = (oid, path) # rest" and "smap_ok (eph_config_db s)"
    and "smap_find (eph_config_db s) (gr_request_id req) = None"
  shows "GetEphemeralConfig show req s = Inl NullPointer"
  by (rule GetEphemeralConfig_missing [OF assms])

theorem mgd_get_missing_witness:
  "GetEphemeralConfig (\<lambda>_. []) \<lparr>gr_request_id = 7, gr_encoding_json = True, gr_requests = [(''0'', ''/'')],
     gr_instance_name = [], gr_merge_view = True\<rparr> (new_mgd (new_log ''l'')) = Inl NullPointer"
  by (rule mgd_get_missing) (simp_all add: new_mgd_def smap_find_def)



text \<open>
  C28: With the management daemon backend a removal that succeeds raises the number of requests
  added, so that after an addition and its removal two requests count as outstanding instead of
  none.
\<close>

theorem removal_counted_as_addition:
  assumes "AgentSystemProc_systemAdd sp jl stub gc i p s = (True, s1)"
    and "AgentSystemProc_systemRemove sp jl stub gc i p s1 = (True, s2)"
  shows "outstanding s2 = outstanding s + 2 \<and> remove_system_count s2 = remove_system_count s"
  using Proc_add_outstanding [OF assms(1)] Proc_remove_outstanding [OF assms(2)]
    Proc_systemAdd_counts [OF assms(1)] Proc_systemRemove_counts [OF assms(2)] by simp

theorem removal_counted_as_addition_witness:
  "\<exists>s2. outstanding (s2 :: mgd_state proc_backend agent_system) = 2 \<and> remove_system_count s2 = 0"
proof -
  let ?gc = "default_config\<lparr>running_mode := RUNNING_MODE_ON_BOX\<rparr>" and ?stub = "sim_stub (\<lambda>_. []) (\<lambda>_. []) (\<lambda>_. [])"
  have inv: "mgd_inv (pb_env (as_backend example_proc))"
    by (simp add: example_proc_def new_agent_system_def new_proc_backend_def mgd_inv_def new_mgd_def smap_find_def)
  have mode: "running_mode ?gc \<noteq> RUNNING_MODE_OFF_BOX"
    by (simp add: RUNNING_MODE_ON_BOX_def RUNNING_MODE_OFF_BOX_def)
  from sim_send [OF inv, of ?gc UPDATE_CONFIG "\<lambda>_. []" "\<lambda>_. []" "\<lambda>_. []" "config_text example_json_lib ?gc True 3 example_path" 3]
  obtain s' where s': "sendJunosMessagetoMgd ?stub ?gc (config_text example_json_lib ?gc True 3 example_path) 3
      UPDATE_CONFIG example_proc = (status_OK, s')" "mgd_inv (pb_env (as_backend s'))" using mode by auto
  then obtain s1 where a: "AgentSystemProc_systemAdd p_path example_json_lib ?stub ?gc 3 example_path example_proc = (True, s1)"
    "pb_env (as_backend s1) = pb_env (as_backend s')"
    by (simp add: AgentSystemProc_systemAdd_def status_OK_def status_ok_def Let_def)
  then have "mgd_inv (pb_env (as_backend s1))" using s' by simp
  from sim_systemRemove [OF this, of ?gc p_path example_json_lib "\<lambda>_. []" "\<lambda>_. []" "\<lambda>_. []" 3 example_path]
  obtain s2 where "AgentSystemProc_systemRemove p_path example_json_lib ?stub ?gc 3 example_path s1 = (True, s2)"
    using mode by auto
  from removal_counted_as_addition [OF a(1) this] show ?thesis
    by (auto simp: outstanding_def example_proc_def new_agent_system_def intro!: exI [of _ s2])
qed

text \<open>
  C29: Editing and merging the three templates yields, for an addition or a removal, with or
  without UDP, the text of the configuration written down directly.
\<close>

theorem junos_config_reference:
  assumes "templates_parse jl"
  shows "generate_json_junos_config jl add udp ip port i path =
    Inr (wrap_config (replace_all ''@name@'' ''name'' (js_fast jl (reference_config add udp ip port i path))))"
  by (rule generate_reference [OF assms])

theorem junos_config_reference_witness:
  "generate_json_junos_config example_json_lib True False [] 0 5 example_path = Inr (wrap_config ''stored'')"
  unfolding junos_config_reference [OF example_templates_parse]
  by (simp add: example_fast replace_all_none is_prefix_of_def)

text \<open>
  C30: The OpenConfig generator's edited and merged templates are the configuration written down
  directly, for MQTT and for UDP.
\<close>

theorem oc_config_reference:
  assumes "oc_templates_parse jl"
  shows "oc_config_tree jl mqtt i path = Inr (Some (oc_reference mqtt i path))"
  by (rule oc_config_tree_reference [OF assms])

theorem oc_config_reference_witness:
  "oc_config_tree example_json_lib True 5 example_path = Inr (Some (oc_reference True 5 example_path))"
  by (rule oc_config_reference [OF example_oc_templates_parse])

text \<open>
  C31: The search-and-replace loop returns for every subject and replacement, even one that
  contains the search string, exactly when the search string is not empty, and then replaces
  every occurrence from left to right.
\<close>

theorem replace_returns:
  "SearchNReplaceString subject search repl =
     (if search = [] then None else Some (replace_all search repl subject))"
  by (rule SearchNReplaceString_returns)

text \<open>
  C32: A bus message for a subscription whose consolidator handle is live is always handled: it
  is counted, and then refused as unparsable, refused as untranslatable, or translated by the
  first translator present in it and written to the client, the latter only while the
  subscription is active.
\<close>

theorem message_outcome:
  assumes "sub_system_subscription sub = Some p" and "smap_find (con_live c) p = Some h"
  shows "\<exists>sub1 l1. sub_on_message gc (lib_oc_init []) parse now usec garbage c msg (sub, t, l) = Inr
      (case parse (msg_payload msg) of
         None \<Rightarrow> (sub1\<lparr>sub_stream_parse_failures := sub_stream_parse_failures sub + 1\<rparr>, t, l1)
       | Some st \<Rightarrow>
           (case find (\<lambda>oc. present oc (ts_sensors st)) translators of
              None \<Rightarrow> (sub1\<lparr>sub_oc_lookup_failures := sub_oc_lookup_failures sub + 1\<rparr>, t, l1)
            | Some oc \<Rightarrow>
                (sub1, if sub_active sub then transport_write (exported gc now usec (msg_topic msg) st oc) t
                       else t, l1))) \<and>
    packets (mq_messages sub1) = packets (mq_messages sub) + 1 \<and>
    bytes (mq_messages sub1) = bytes (mq_messages sub) + payloadlen msg"
proof -
  obtain path where path: "count_path gc c sub (msg_topic msg) = Inr path"
    using count_path_live [OF assms] by blast
  show ?thesis
  proof (rule sub_on_message_cases [OF path, where now = now and garbage = garbage and l = l
        and parse = parse and usec = usec and t = t])
    fix sub1 l1
    assume s: "on_message_count now garbage path msg (sub, l) = (sub1, l1)"
      and o: "sub_on_message gc (lib_oc_init []) parse now usec garbage c msg (sub, t, l) = Inr
      (case parse (msg_payload msg) of
         None \<Rightarrow> (sub1\<lparr>sub_stream_parse_failures := sub_stream_parse_failures sub1 + 1\<rparr>, t, l1)
       | Some st \<Rightarrow>
           (case find (\<lambda>oc. present oc (ts_sensors st)) translators of
              None \<Rightarrow> (sub1\<lparr>sub_oc_lookup_failures := sub_oc_lookup_failures sub1 + 1\<rparr>, t, l1)
            | Some oc \<Rightarrow>
                (sub1, if sub_active sub1 then transport_write (exported gc now usec (msg_topic msg) st oc) t
                       else t, l1)))"
    have f: "sub_active sub1 = sub_active sub" "sub_stream_parse_failures sub1 = sub_stream_parse_failures sub"
      "sub_oc_lookup_failures sub1 = sub_oc_lookup_failures sub"
      "packets (mq_messages sub1) = packets (mq_messages sub) + 1"
      "bytes (mq_messages sub1) = bytes (mq_messages sub) + payloadlen msg"
      using on_message_count_sub [of now garbage path msg sub l]
        on_message_count_simps(1,2) [of now garbage path msg sub l]
      unfolding s fst_conv by simp_all
    show ?thesis by (intro exI conjI) (rule o [unfolded f(1-3)], rule f(4), rule f(5))
  qed
qed

theorem message_outcome_witness:
  "\<exists>c sub1 t1 l1. sub_on_message default_config (lib_oc_init []) (\<lambda>_. None) 0 0 0 (c :: unit consolidator)
      \<lparr>msg_topic = ''/a'', msg_payload = []\<rparr>
      (new_subscription 0 False ''x'' 1 0 0 [] (new_limits 0 0), \<lparr>tr_context = None, tr_writer = None\<rparr>, new_log ''l'') =
      Inr (sub1, t1, l1) \<and> sub_stream_parse_failures sub1 = 1"
proof -
  let ?s = "new_subscription 0 False ''x'' 1 0 0 [] (new_limits 0 0)"
  let ?c = "(new_consolidator (new_agent_system (new_log ''l'') ()))
    \<lparr>con_live := [(0, \<lparr>ch_subscription_id = 1, ch_handles = []\<rparr>)]\<rparr>"
  have "sub_system_subscription ?s = Some 0" by (simp add: new_subscription_def mqtt.defs)
  moreover have "smap_find (con_live ?c) 0 = Some \<lparr>ch_subscription_id = 1, ch_handles = []\<rparr>"
    by (simp add: smap_find_def)
  moreover have "sub_stream_parse_failures ?s = 0" by (simp add: new_subscription_def mqtt.defs)
  ultimately show ?thesis
    using message_outcome [of ?s 0 ?c "\<lparr>ch_subscription_id = 1, ch_handles = []\<rparr>" default_config "\<lambda>_. None" 0 0 0
        "\<lparr>msg_topic = ''/a'', msg_payload = []\<rparr>" "\<lparr>tr_context = None, tr_writer = None\<rparr>" "new_log ''l''"]
    by fastforce
qed



text \<open>
  C34: A UDP packet of at least four bytes is queued, without its four id bytes, at every worker
  its internal id is routed to: once for each entry of the list, behind what the queue held.
\<close>

theorem udp_delivery:
  assumes "4 \<le> length pkt"
  shows "\<exists>u' ws' l'. receive_packet garbage (Some pkt) (u, ws, l) = Inr (u', ws', l') \<and>
    wk_q (ws' w) = wk_q (ws w) @ replicate (copies u (routes u (packet_int_id pkt)) w) (drop 4 pkt) \<and>
    ur_total_pkts_received u' = ur_total_pkts_received u + 1"
  by (rule receive_packet_queue [OF assms])

theorem udp_delivery_witness:
  "\<exists>u ws u' ws' l'. receive_packet 0 (Some [0, 0, 0, 5, 7, 8]) (u, ws, new_log ''l'') = Inr (u', ws', l') \<and>
    wk_q (ws' 3) = wk_q (ws 3) @ [[7, 8]]"
proof -
  let ?u = "(new_udp_receiver 0 (replicate 10 0))
    \<lparr>ur_ext_id_worker_store := [(1, 3)], ur_int_to_ext_list_store := [(5, [1])]\<rparr>"
  have "packet_int_id [0, 0, 0, 5, 7, 8] = 5" by (simp add: packet_int_id_def)
  then have "copies ?u (routes ?u (packet_int_id [0, 0, 0, 5, 7, 8])) 3 = 1"
    by (simp add: copies_def routes_def smap_find_def)
  then show ?thesis using udp_delivery [of "[0, 0, 0, 5, 7, 8]" 0 ?u _ "new_log ''l''" 3] by fastforce
qed

text \<open>
  C35: A worker that is not told to stop empties its queue in as many rounds as there are
  packets, writing their translations to the client in the order of arrival and counting each.
\<close>

theorem worker_drains:
  assumes "wk_dont_terminate w" and "tr_writer t = Some out" and "length (wk_q w) \<le> n"
  shows "\<exists>w' t'. worker_loop parse n (w, t) = (w', t') \<and> wk_q w' = [] \<and>
    tr_writer t' = Some (out @ map parse (wk_q w)) \<and>
    wk_total_pkt_recvd w' = wk_total_pkt_recvd w + of_nat (length (wk_q w))"
  using worker_loop_drains [OF assms, of parse] by metis

theorem worker_drains_witness:
  "\<exists>w w' t'. worker_loop (\<lambda>_. open_config_data_cleared) 2 (w, \<lparr>tr_context = None, tr_writer = Some []\<rparr>) = (w', t') \<and>
    wk_q w = [[1], [2]] \<and> tr_writer t' = Some [open_config_data_cleared, open_config_data_cleared]"
proof -
  let ?w = "(new_udp_worker 0 1 0 0 [])\<lparr>wk_dont_terminate := True, wk_q := [[1], [2]]\<rparr>"
  have "wk_dont_terminate ?w" "tr_writer \<lparr>tr_context = None, tr_writer = Some []\<rparr> = Some []" "length (wk_q ?w) \<le> 2"
    by simp_all
  from worker_drains [OF this, of "\<lambda>_. open_config_data_cleared"] show ?thesis by fastforce
qed



text \<open>
  C37: A subscription with a limit on records and none on time has reached it after counting
  messages exactly when the messages counted are at least the limit, as long as the counter does
  not wrap around; the per-topic counters always add up to the totals.
\<close>

theorem record_limit:
  assumes "mqtt_inv m" and "packets (mq_messages m) = 0" and "\<not> limits_reached m"
    and "mq_limits m = new_limits r 0" and "r \<noteq> 0" and "length xs < 2 ^ 64"
  shows "(limits_reached (fst (count_stream xs g (m, l))) \<longleftrightarrow> unat r \<le> length xs) \<and>
    packets (mq_messages (fst (count_stream xs g (m, l)))) = of_nat (length xs) \<and>
    mqtt_inv (fst (count_stream xs g (m, l)))"
  using assms count_stream_packets [of xs g "(m, l)"] count_stream_inv [of "(m, l)" xs g]
    count_stream_reached [of "(m, l)" xs r g]
  by (simp add: new_limits_def unat_eq_0)

theorem record_limit_witness:
  "limits_reached (fst (count_stream [(0, ''/a'', \<lparr>msg_topic = ''/a'', msg_payload = []\<rparr>)] 0
     (new_mqtt 0 ''x'' (new_limits 1 0), new_log ''l'')))"
  using record_limit [of "new_mqtt 0 ''x'' (new_limits 1 0)" 1
      "[(0, ''/a'', \<lparr>msg_topic = ''/a'', msg_payload = []\<rparr>)]" 0 "new_log ''l''"]
  by (simp add: new_mqtt_def mqtt_inv_def topic_totals_def new_counter_def)

text \<open>
  C38: The rate a counter's thread computes is the whole quotient of what was counted since its
  last scan and the seconds elapsed, for counts and times below 2^53, where the code's floating
  point is exact.
\<close>

theorem rate_between_scans:
  assumes "computeRate t0 c0 = Some c1" and "0 < dt" and "dt < 2 ^ 53" and "unat n < 2 ^ 53" and "unat sz < 2 ^ 53"
  shows "\<exists>c3. computeRate (t0 + dt) (increment n sz c1) = Some c3 \<and>
    unat (packet_rate c3) = unat n div nat dt \<and> unat (byte_rate c3) = unat sz div nat dt"
  using computeRate_after_increments [OF assms(1) refl assms(2-5)] by blast

theorem rate_between_scans_witness:
  "\<exists>c1 c3. computeRate 5 (new_counter 0 ''c'' True) = Some c1 \<and> computeRate (5 + 2) (increment 9 100 c1) = Some c3 \<and>
    unat (packet_rate c3) = 4 \<and> unat (byte_rate c3) = 50"
proof -
  obtain c1 where "computeRate 5 (new_counter 0 ''c'' True) = Some c1"
    by (simp add: computeRate_def double_quotient_def new_counter_def)
  from rate_between_scans [OF this, of 2 9 100] this show ?thesis by fastforce
qed

text \<open>
  C39: Over lines that fit the buffer and the array of words, the client's command loop returns
  exactly when one of them is exit or quit, having started the threads of the lines before it;
  at the end of the input it loops for ever.
\<close>

theorem command_loop_returns:
  assumes "\<forall>l \<in> set ls. line_fits l"
  shows "if \<exists>l \<in> set ls. leaves_loop l
    then \<exists>out. parseLoop g (text_lines ls, True) [] [] = Some (Inr (out, started_threads g ls))
    else parseLoop g (text_lines ls, True) [] [] = None"
  using parseLoop_lines [OF assms, of g "[]" "[]"] unfolding append_Nil .

theorem command_loop_returns_witness:
  "(\<exists>out. parseLoop new_grammar (text_lines [''bogus'', ''quit''], True) [] [] = Some (Inr (out, started_threads new_grammar [''bogus'', ''quit'']))) \<and>
   parseLoop new_grammar (text_lines [''bogus''], True) [] [] = None"
proof -
  have w: "line_words ''bogus'' = [''bogus'']" "line_words ''quit'' = [''quit'']"
    by (simp_all add: line_words_def words_of.simps)
  have fits: "line_fits ''bogus''" "line_fits ''quit''" and leaves: "\<not> leaves_loop ''bogus''" "leaves_loop ''quit''"
    using w by (simp_all add: line_fits_def leaves_loop_def MAX_BUFFER_def MAX_ARGS_def)
  show ?thesis
    using command_loop_returns [of "[''bogus'', ''quit'']" new_grammar] command_loop_returns [of "[''bogus'']" new_grammar] fits leaves
    by simp
qed

text \<open>
  C40: The options of the server's command line, written as words in any order and number, are
  read back one after the other, later ones overriding earlier ones, on systems that permute the
  operands and on those that do not; a word that is no option makes the call fail, with the
  options around it taken, where operands are permuted.
\<close>

theorem command_line_roundtrip:
  "parseArgs posixly (concat (map cmd_words xs)) o' = (True, fold cmd_effect xs o', []) \<and>
   (w = [] \<or> hd w \<noteq> CHR ''-'' \<longrightarrow>
     parseArgs False (concat (map cmd_words xs) @ w # concat (map cmd_words ys)) o' =
       (False, fold cmd_effect ys (fold cmd_effect xs o'), []))"
  using parseArgs_words parseArgs_operand by blast

theorem command_line_roundtrip_witness:
  "parseArgs False [''-l'', ''log'', ''x'', ''-p''] new_cmd_options =
    (False, setProcMode True (setLogFile ''log'' new_cmd_options), [])"
  using command_line_roundtrip [of False "[]" new_cmd_options "''x''" "[LogArg ''log'']"] 
    command_line_roundtrip [where xs = "[LogArg ''log'']" and w = "''x''" and ys = "[ProcArg]" and o' = new_cmd_options]
  by simp

end
